(* ===== verification/Prelude.thy ===== *)
theory Prelude
  imports Main "HOL-Library.Sublist"
begin

text \<open>
  Shared vocabulary of the development.

  A Rust operation that reads and changes a state \<open>'s\<close>, may return \<open>Ok\<close> or \<open>Err\<close>, may
  panic and may block for ever is a function from the state to an \<open>outcome\<close> and the state it
  leaves behind.  The combinators below are the control flow of the source: \<open>andThen\<close> is the
  operator \<open>?\<close> followed by the rest of the body, \<open>attempt\<close> is a \<open>match\<close> on the returned
  \<open>Result\<close>, \<open>ignoring\<close> is \<open>let _ = ...\<close>, \<open>mapErr\<close> is \<open>map_err\<close>, \<open>forEach\<close> a \<open>for\<close> loop
  over a vector.  A panic and a block are not values the code can match on: they pass through
  every combinator.

  The locale \<open>effect\<close> states once what it means that an operation stays within a reflexive and
  transitive relation of states (a frame, a kept invariant, a growing log); it is interpreted on
  the concrete relations in the theories that define them.
\<close>

named_theorems effect_intros
named_theorems calm_simps

section \<open>Outcomes and actions\<close>

datatype ('a, 'e) outcome = Ok 'a | Err 'e | Panic | Hang

type_synonym ('s, 'a, 'e) act = "'s \<Rightarrow> ('a, 'e) outcome \<times> 's"

definition ret :: "'a \<Rightarrow> ('s, 'a, 'e) act" where
  "ret a = (\<lambda>s. (Ok a, s))"

definition raise :: "'e \<Rightarrow> ('s, 'a, 'e) act" where
  "raise e = (\<lambda>s. (Err e, s))"

definition panic :: "('s, 'a, 'e) act" where
  "panic = (\<lambda>s. (Panic, s))"

definition hang :: "('s, 'a, 'e) act" where
  "hang = (\<lambda>s. (Hang, s))"

definition reading :: "('s \<Rightarrow> 'a) \<Rightarrow> ('s, 'a, 'e) act" where
  "reading f = (\<lambda>s. (Ok (f s), s))"

definition modify :: "('s \<Rightarrow> 's) \<Rightarrow> ('s, unit, 'e) act" where
  "modify f = (\<lambda>s. (Ok (), f s))"

definition andThen :: "('s, 'a, 'e) act \<Rightarrow> ('a \<Rightarrow> ('s, 'b, 'e) act) \<Rightarrow> ('s, 'b, 'e) act" where
  "andThen m f = (\<lambda>s. case m s of
       (Ok a, t) \<Rightarrow> f a t
     | (Err e, t) \<Rightarrow> (Err e, t)
     | (Panic, t) \<Rightarrow> (Panic, t)
     | (Hang, t) \<Rightarrow> (Hang, t))"

definition attempt :: "('s, 'a, 'e) act \<Rightarrow> ('s, 'e + 'a, 'f) act" where
  "attempt m = (\<lambda>s. case m s of
       (Ok a, t) \<Rightarrow> (Ok (Inr a), t)
     | (Err e, t) \<Rightarrow> (Ok (Inl e), t)
     | (Panic, t) \<Rightarrow> (Panic, t)
     | (Hang, t) \<Rightarrow> (Hang, t))"

definition mapErr :: "('e \<Rightarrow> 'f) \<Rightarrow> ('s, 'a, 'e) act \<Rightarrow> ('s, 'a, 'f) act" where
  "mapErr g m = (\<lambda>s. case m s of
       (Ok a, t) \<Rightarrow> (Ok a, t)
     | (Err e, t) \<Rightarrow> (Err (g e), t)
     | (Panic, t) \<Rightarrow> (Panic, t)
     | (Hang, t) \<Rightarrow> (Hang, t))"

definition ignoring :: "('s, 'a, 'e) act \<Rightarrow> ('s, unit, 'f) act" where
  "ignoring m = andThen (attempt m) (\<lambda>_. ret ())"

definition whenever :: "bool \<Rightarrow> ('s, unit, 'e) act \<Rightarrow> ('s, unit, 'e) act" where
  "whenever b m = (if b then m else ret ())"

primrec forEach :: "('x \<Rightarrow> ('s, unit, 'e) act) \<Rightarrow> 'x list \<Rightarrow> ('s, unit, 'e) act" where
  "forEach f [] = ret ()"
| "forEach f (x # xs) = andThen (f x) (\<lambda>_. forEach f xs)"

primrec foldM :: "('b \<Rightarrow> 'x \<Rightarrow> ('s, 'b, 'e) act) \<Rightarrow> 'b \<Rightarrow> 'x list \<Rightarrow> ('s, 'b, 'e) act" where
  "foldM f b [] = ret b"
| "foldM f b (x # xs) = andThen (f b x) (\<lambda>b'. foldM f b' xs)"

lemmas act_defs = ret_def raise_def panic_def hang_def reading_def modify_def

lemma run_ret [simp]: "ret a s = (Ok a, s)" by (simp add: ret_def)
lemma run_raise [simp]: "raise e s = (Err e, s)" by (simp add: raise_def)
lemma run_panic [simp]: "panic s = (Panic, s)" by (simp add: panic_def)
lemma run_hang [simp]: "hang s = (Hang, s)" by (simp add: hang_def)
lemma run_reading [simp]: "reading f s = (Ok (f s), s)" by (simp add: reading_def)
lemma run_modify [simp]: "modify f s = (Ok (), f s)" by (simp add: modify_def)

lemma run_andThen:
  "andThen m f s = (case m s of (Ok a, t) \<Rightarrow> f a t | (Err e, t) \<Rightarrow> (Err e, t)
     | (Panic, t) \<Rightarrow> (Panic, t) | (Hang, t) \<Rightarrow> (Hang, t))"
  by (simp add: andThen_def)

lemma run_andThen_Ok [simp]: "m s = (Ok a, t) \<Longrightarrow> andThen m f s = f a t"
  by (simp add: andThen_def)
lemma run_andThen_Err [simp]: "m s = (Err e, t) \<Longrightarrow> andThen m f s = (Err e, t)"
  by (simp add: andThen_def)
lemma run_andThen_Panic [simp]: "m s = (Panic, t) \<Longrightarrow> andThen m f s = (Panic, t)"
  by (simp add: andThen_def)
lemma run_andThen_Hang [simp]: "m s = (Hang, t) \<Longrightarrow> andThen m f s = (Hang, t)"
  by (simp add: andThen_def)

lemma run_attempt_Ok [simp]: "m s = (Ok a, t) \<Longrightarrow> attempt m s = (Ok (Inr a), t)"
  by (simp add: attempt_def)
lemma run_attempt_Err [simp]: "m s = (Err e, t) \<Longrightarrow> attempt m s = (Ok (Inl e), t)"
  by (simp add: attempt_def)
lemma run_attempt_Panic [simp]: "m s = (Panic, t) \<Longrightarrow> attempt m s = (Panic, t)"
  by (simp add: attempt_def)
lemma run_attempt_Hang [simp]: "m s = (Hang, t) \<Longrightarrow> attempt m s = (Hang, t)"
  by (simp add: attempt_def)

lemma run_mapErr_Ok [simp]: "m s = (Ok a, t) \<Longrightarrow> mapErr g m s = (Ok a, t)"
  by (simp add: mapErr_def)
lemma run_mapErr_Err [simp]: "m s = (Err e, t) \<Longrightarrow> mapErr g m s = (Err (g e), t)"
  by (simp add: mapErr_def)
lemma run_mapErr_Panic [simp]: "m s = (Panic, t) \<Longrightarrow> mapErr g m s = (Panic, t)"
  by (simp add: mapErr_def)
lemma run_mapErr_Hang [simp]: "m s = (Hang, t) \<Longrightarrow> mapErr g m s = (Hang, t)"
  by (simp add: mapErr_def)

lemma run_ignoring_Ok [simp]: "m s = (Ok a, t) \<Longrightarrow> ignoring m s = (Ok (), t)"
  by (simp add: ignoring_def)
lemma run_ignoring_Err [simp]: "m s = (Err e, t) \<Longrightarrow> ignoring m s = (Ok (), t)"
  by (simp add: ignoring_def)
lemma run_ignoring_Panic [simp]: "m s = (Panic, t) \<Longrightarrow> ignoring m s = (Panic, t)"
  by (simp add: ignoring_def)
lemma run_ignoring_Hang [simp]: "m s = (Hang, t) \<Longrightarrow> ignoring m s = (Hang, t)"
  by (simp add: ignoring_def)

lemma andThen_ret [simp]: "andThen (ret a) f = f a"
  by (rule ext) simp

lemma andThen_assoc: "andThen (andThen m f) g = andThen m (\<lambda>a. andThen (f a) g)"
proof (rule ext)
  fix s
  show "andThen (andThen m f) g s = andThen m (\<lambda>a. andThen (f a) g) s"
    by (cases "m s"; cases "fst (m s)") (simp_all add: run_andThen)
qed

lemma andThen_Ok_cases:
  assumes "andThen m f s = (Ok b, u)"
  obtains a t where "m s = (Ok a, t)" and "f a t = (Ok b, u)"
proof (cases "m s")
  case (Pair r t)
  then show thesis using assms that by (cases r) (simp_all add: andThen_def)
qed

lemma andThen_Err_cases:
  assumes "andThen m f s = (Err e, u)"
  obtains (first) "m s = (Err e, u)"
    | (second) a t where "m s = (Ok a, t)" and "f a t = (Err e, u)"
proof (cases "m s")
  case (Pair r t)
  then show thesis using assms that by (cases r) (simp_all add: andThen_def)
qed

lemma mapErr_Ok_iff [simp]: "mapErr g m s = (Ok a, t) \<longleftrightarrow> m s = (Ok a, t)"
  by (cases "m s"; cases "fst (m s)") (auto simp: mapErr_def)

lemma attempt_Inr_iff [simp]: "attempt m s = (Ok (Inr a), t) \<longleftrightarrow> m s = (Ok a, t)"
  by (cases "m s"; cases "fst (m s)") (auto simp: attempt_def)

lemma attempt_Inl_iff [simp]: "attempt m s = (Ok (Inl e), t) \<longleftrightarrow> m s = (Err e, t)"
  by (cases "m s"; cases "fst (m s)") (auto simp: attempt_def)

lemma attempt_not_Err [simp]: "attempt m s \<noteq> (Err e, t)"
  by (cases "m s"; cases "fst (m s)") (auto simp: attempt_def)

lemma whenever_True [simp]: "whenever True m = m" by (simp add: whenever_def)
lemma whenever_False [simp]: "whenever False m = ret ()" by (simp add: whenever_def)

section \<open>Staying within a relation of states\<close>

definition within :: "('s \<Rightarrow> 's \<Rightarrow> bool) \<Rightarrow> ('s, 'a, 'e) act \<Rightarrow> bool" where
  "within R m \<longleftrightarrow> (\<forall>s. R s (snd (m s)))"

lemma withinI: "(\<And>s. R s (snd (m s))) \<Longrightarrow> within R m"
  by (simp add: within_def)

lemma withinD: "within R m \<Longrightarrow> m s = (r, t) \<Longrightarrow> R s t"
  unfolding within_def by (metis snd_conv)

locale effect =
  fixes R :: "'s \<Rightarrow> 's \<Rightarrow> bool"
  assumes stay: "R s s"
    and chain: "R s t \<Longrightarrow> R t u \<Longrightarrow> R s u"
begin

lemma within_ret: "within R (ret a)"
  by (simp add: within_def stay)

lemma within_raise: "within R (raise e)"
  by (simp add: within_def stay)

lemma within_panic: "within R panic"
  by (simp add: within_def stay)

lemma within_hang: "within R hang"
  by (simp add: within_def stay)

lemma within_reading: "within R (reading f)"
  by (simp add: within_def stay)

lemma within_modify: "(\<And>s. R s (f s)) \<Longrightarrow> within R (modify f)"
  by (simp add: within_def)

text \<open>The rest of the body may rely on what is known of every result of the first part.\<close>

lemma within_andThen_post:
  assumes m: "within R m" and P: "\<And>s a t. m s = (Ok a, t) \<Longrightarrow> P a"
    and f: "\<And>a. P a \<Longrightarrow> within R (f a)"
  shows "within R (andThen m f)"
proof (rule withinI)
  fix s
  obtain r t where mt: "m s = (r, t)" by (cases "m s")
  with m have st: "R s t" by (rule withinD)
  show "R s (snd (andThen m f s))"
  proof (cases r)
    case (Ok a)
    with P mt have "P a" by simp
    then have "R t (snd (f a t))" using f [of a] by (simp add: within_def)
    with st mt Ok show ?thesis by (auto intro: chain)
  qed (use st mt in \<open>simp_all\<close>)
qed

lemma within_andThen: "within R m \<Longrightarrow> (\<And>a. within R (f a)) \<Longrightarrow> within R (andThen m f)"
  by (rule within_andThen_post [where P = "\<lambda>_. True"]) simp_all

lemma within_attempt: "within R m \<Longrightarrow> within R (attempt m)"
  by (auto simp: within_def attempt_def split: prod.splits outcome.splits) (metis snd_conv)+

lemma within_mapErr: "within R m \<Longrightarrow> within R (mapErr g m)"
  by (auto simp: within_def mapErr_def split: prod.splits outcome.splits) (metis snd_conv)+

lemma within_ignoring: "within R m \<Longrightarrow> within R (ignoring m)"
  unfolding ignoring_def by (intro within_andThen within_attempt within_ret)

lemma within_whenever: "within R m \<Longrightarrow> within R (whenever b m)"
  by (simp add: whenever_def within_ret)

lemma within_forEach: "(\<And>x. x \<in> set xs \<Longrightarrow> within R (f x)) \<Longrightarrow> within R (forEach f xs)"
  by (induction xs) (simp_all add: within_ret within_andThen)

lemma within_foldM: "(\<And>b x. within R (f b x)) \<Longrightarrow> within R (foldM f b xs)"
  by (induction xs arbitrary: b) (simp_all add: within_ret within_andThen)

lemma within_if: "(b \<Longrightarrow> within R m) \<Longrightarrow> (\<not> b \<Longrightarrow> within R n) \<Longrightarrow> within R (if b then m else n)"
  by simp

lemma within_option:
  "within R m \<Longrightarrow> (\<And>x. within R (f x)) \<Longrightarrow> within R (case z of None \<Rightarrow> m | Some x \<Rightarrow> f x)"
  by (simp split: option.split)

lemma within_sum:
  "(\<And>x. within R (f x)) \<Longrightarrow> (\<And>y. within R (g y)) \<Longrightarrow> within R (case z of Inl x \<Rightarrow> f x | Inr y \<Rightarrow> g y)"
  by (simp split: sum.split)

lemma within_prod:
  "(\<And>x y. within R (f x y)) \<Longrightarrow> within R (case z of (x, y) \<Rightarrow> f x y)"
  by (simp split: prod.split)

lemmas within_intros =
  within_ret within_raise within_panic within_hang within_reading within_andThen within_attempt
  within_mapErr within_ignoring within_whenever within_forEach within_foldM within_if
  within_option within_sum within_prod

end

section \<open>Returning\<close>

text \<open>
  \<open>returns m\<close>: from every state \<open>m\<close> comes back with \<open>Ok\<close> or \<open>Err\<close>, neither panicking nor blocking.
  \<open>succeeds m\<close>: it always comes back with \<open>Ok\<close>.
\<close>

named_theorems returns_intros
named_theorems succeeds_intros

definition returns :: "('s, 'a, 'e) act \<Rightarrow> bool" where
  "returns m \<longleftrightarrow> (\<forall>s. fst (m s) \<noteq> Panic \<and> fst (m s) \<noteq> Hang)"

definition succeeds :: "('s, 'a, 'e) act \<Rightarrow> bool" where
  "succeeds m \<longleftrightarrow> (\<forall>s. \<exists>a t. m s = (Ok a, t))"

lemma returnsI: "(\<And>s. fst (m s) \<noteq> Panic \<and> fst (m s) \<noteq> Hang) \<Longrightarrow> returns m"
  by (simp add: returns_def)

lemma succeedsD: "succeeds m \<Longrightarrow> \<exists>a t. m s = (Ok a, t)"
  by (simp add: succeeds_def)

lemma succeeds_returns: "succeeds m \<Longrightarrow> returns m"
  unfolding returns_def succeeds_def by (metis fst_conv outcome.distinct)

lemma returns_cases:
  assumes "returns m"
  obtains (Ok) a t where "m s = (Ok a, t)" | (Err) e t where "m s = (Err e, t)"
proof (cases "m s")
  case (Pair r t)
  then show thesis using assms that by (cases r) (auto simp: returns_def dest: spec [of _ s])
qed

lemma returns_ret [returns_intros]: "returns (ret a)" by (simp add: returns_def)
lemma returns_raise [returns_intros]: "returns (raise e)" by (simp add: returns_def)
lemma returns_reading [returns_intros]: "returns (reading f)" by (simp add: returns_def)
lemma returns_modify [returns_intros]: "returns (modify f)" by (simp add: returns_def)

lemma returns_andThen [returns_intros]:
  assumes "returns m" and "\<And>a. returns (f a)" shows "returns (andThen m f)"
proof (rule returnsI)
  fix s
  show "fst (andThen m f s) \<noteq> Panic \<and> fst (andThen m f s) \<noteq> Hang"
    using assms(2) by (cases rule: returns_cases [OF assms(1), of s]) (simp_all add: returns_def)
qed

lemma returns_attempt [returns_intros]: assumes "returns m" shows "returns (attempt m)"
proof (rule returnsI)
  fix s
  show "fst (attempt m s) \<noteq> Panic \<and> fst (attempt m s) \<noteq> Hang"
    by (cases rule: returns_cases [OF assms, of s]) simp_all
qed

lemma returns_mapErr [returns_intros]: assumes "returns m" shows "returns (mapErr g m)"
proof (rule returnsI)
  fix s
  show "fst (mapErr g m s) \<noteq> Panic \<and> fst (mapErr g m s) \<noteq> Hang"
    by (cases rule: returns_cases [OF assms, of s]) simp_all
qed

lemma returns_ignoring [returns_intros]: "returns m \<Longrightarrow> returns (ignoring m)"
  unfolding ignoring_def by (intro returns_intros)

lemma returns_whenever [returns_intros]: "returns m \<Longrightarrow> returns (whenever b m)"
  by (simp add: whenever_def returns_ret)

lemma returns_forEach [returns_intros]: "(\<And>x. returns (f x)) \<Longrightarrow> returns (forEach f xs)"
  by (induction xs) (simp_all add: returns_ret returns_andThen)

lemma returns_foldM [returns_intros]: "(\<And>b x. returns (f b x)) \<Longrightarrow> returns (foldM f b xs)"
  by (induction xs arbitrary: b) (simp_all add: returns_ret returns_andThen)

lemma returns_if [returns_intros]: "returns m \<Longrightarrow> returns n \<Longrightarrow> returns (if b then m else n)"
  by simp

lemma returns_option [returns_intros]:
  "returns m \<Longrightarrow> (\<And>x. returns (f x)) \<Longrightarrow> returns (case z of None \<Rightarrow> m | Some x \<Rightarrow> f x)"
  by (simp split: option.split)

lemma returns_sum [returns_intros]:
  "(\<And>x. returns (f x)) \<Longrightarrow> (\<And>y. returns (g y)) \<Longrightarrow>
   returns (case z of Inl x \<Rightarrow> f x | Inr y \<Rightarrow> g y)"
  by (simp split: sum.split)

lemma returns_prod [returns_intros]:
  "(\<And>x y. returns (f x y)) \<Longrightarrow> returns (case z of (x, y) \<Rightarrow> f x y)"
  by (simp split: prod.split)

lemma succeeds_ret [succeeds_intros]: "succeeds (ret a)" by (simp add: succeeds_def)
lemma succeeds_reading [succeeds_intros]: "succeeds (reading f)" by (simp add: succeeds_def)
lemma succeeds_modify [succeeds_intros]: "succeeds (modify f)" by (simp add: succeeds_def)

lemma succeeds_andThen [succeeds_intros]:
  assumes "succeeds m" and "\<And>a. succeeds (f a)" shows "succeeds (andThen m f)"
  unfolding succeeds_def
proof
  fix s
  obtain a t where "m s = (Ok a, t)" using succeedsD [OF assms(1)] by blast
  then show "\<exists>b u. andThen m f s = (Ok b, u)" using succeedsD [OF assms(2)] by simp
qed

lemma succeeds_attempt [succeeds_intros]: "returns m \<Longrightarrow> succeeds (attempt m)"
  unfolding succeeds_def by (metis returns_cases run_attempt_Err run_attempt_Ok)

lemma succeeds_ignoring [succeeds_intros]: "returns m \<Longrightarrow> succeeds (ignoring m)"
  unfolding ignoring_def by (intro succeeds_intros)

lemma succeeds_whenever [succeeds_intros]: "succeeds m \<Longrightarrow> succeeds (whenever b m)"
  by (simp add: whenever_def succeeds_ret)

lemma succeeds_forEach [succeeds_intros]: "(\<And>x. succeeds (f x)) \<Longrightarrow> succeeds (forEach f xs)"
  by (induction xs) (simp_all add: succeeds_ret succeeds_andThen)

lemma succeeds_foldM [succeeds_intros]: "(\<And>b x. succeeds (f b x)) \<Longrightarrow> succeeds (foldM f b xs)"
  by (induction xs arbitrary: b) (simp_all add: succeeds_ret succeeds_andThen)

lemma succeeds_if [succeeds_intros]: "succeeds m \<Longrightarrow> succeeds n \<Longrightarrow> succeeds (if b then m else n)"
  by simp

lemma succeeds_option [succeeds_intros]:
  "succeeds m \<Longrightarrow> (\<And>x. succeeds (f x)) \<Longrightarrow> succeeds (case z of None \<Rightarrow> m | Some x \<Rightarrow> f x)"
  by (simp split: option.split)

lemma succeeds_sum [succeeds_intros]:
  "(\<And>x. succeeds (f x)) \<Longrightarrow> (\<And>y. succeeds (g y)) \<Longrightarrow>
   succeeds (case z of Inl x \<Rightarrow> f x | Inr y \<Rightarrow> g y)"
  by (simp split: sum.split)

section \<open>Results\<close>

text \<open>\<open>yields m P\<close>: whatever \<open>m\<close> returns with \<open>Ok\<close> satisfies \<open>P\<close>.\<close>

definition yields :: "('s, 'a, 'e) act \<Rightarrow> ('a \<Rightarrow> bool) \<Rightarrow> bool" where
  "yields m P \<longleftrightarrow> (\<forall>s a t. m s = (Ok a, t) \<longrightarrow> P a)"

lemma yieldsI: "(\<And>s a t. m s = (Ok a, t) \<Longrightarrow> P a) \<Longrightarrow> yields m P"
  by (simp add: yields_def)

lemma yieldsD: "yields m P \<Longrightarrow> m s = (Ok a, t) \<Longrightarrow> P a"
  unfolding yields_def by blast

lemma yields_any: "yields m (\<lambda>_. True)"
  by (simp add: yields_def)

lemma yields_ret: "P a \<Longrightarrow> yields (ret a) P"
  by (simp add: yields_def)

lemma yields_andThen:
  "yields m P \<Longrightarrow> (\<And>a. P a \<Longrightarrow> yields (f a) Q) \<Longrightarrow> yields (andThen m f) Q"
  unfolding yields_def by (blast elim: andThen_Ok_cases)

lemma yields_then: "(\<And>a. yields (f a) Q) \<Longrightarrow> yields (andThen m f) Q"
  by (rule yields_andThen [OF yields_any])

lemma yields_if: "(b \<Longrightarrow> yields m P) \<Longrightarrow> (\<not> b \<Longrightarrow> yields n P) \<Longrightarrow> yields (if b then m else n) P"
  by simp

section \<open>Lists\<close>

lemma prefix_disjoint_last:
  "prefix (d @ [x]) p \<Longrightarrow> prefix (d @ [y]) p \<Longrightarrow> x = y"
  by (auto simp: prefix_def)

lemma prefix_len_eq: "prefix a p \<Longrightarrow> prefix b p \<Longrightarrow> length a = length b \<Longrightarrow> a = b"
  by (auto simp: prefix_def)

end
