(* ===== verification/RustStd.thy ===== *)
theory RustStd
  imports Prelude
begin

text \<open>
  The parts of Rust's standard library the program uses on strings and numbers: decimal
  \<open>Display\<close> and \<open>FromStr\<close>, \<open>str::trim\<close>, \<open>lines\<close>, \<open>split_whitespace\<close>, \<open>contains\<close>, \<open>join\<close>,
  UTF-8 validation, \<open>Path::with_extension\<close> and the \<open>Debug\<close> form of strings.

  A \<open>String\<close> is its list of bytes; white space is the ASCII white space (the program trims only
  output of command-line tools and its own files).  Unsigned 64-bit values are natural numbers
  below \<open>2 ^ 64\<close>: the bound is checked where a value enters the program, by parsing or decoding.
\<close>

section \<open>Bytes and UTF-8\<close>

abbreviation newline :: char where "newline \<equiv> CHR 0x0A"
abbreviation carriage :: char where "carriage \<equiv> CHR 0x0D"

definition byte :: "char \<Rightarrow> nat" where "byte c = of_char c"

definition cont_byte :: "char \<Rightarrow> bool" where
  "cont_byte c \<longleftrightarrow> 128 \<le> byte c \<and> byte c < 192"

definition byte_in :: "nat \<Rightarrow> nat \<Rightarrow> char \<Rightarrow> bool" where
  "byte_in lo hi c \<longleftrightarrow> lo \<le> byte c \<and> byte c \<le> hi"

text \<open>The well-formed byte sequences of UTF-8, as \<open>core::str::from_utf8\<close> accepts them.\<close>

fun utf8 :: "string \<Rightarrow> bool" where
  "utf8 [] = True"
| "utf8 [a] = (byte a < 128)"
| "utf8 [a, b] = (if byte a < 128 then utf8 [b] else byte_in 194 223 a \<and> cont_byte b)"
| "utf8 [a, b, c] =
     (if byte a < 128 then utf8 [b, c]
      else if byte_in 194 223 a then cont_byte b \<and> utf8 [c]
      else (byte a = 224 \<and> byte_in 160 191 b \<or> byte_in 225 236 a \<and> cont_byte b
            \<or> byte a = 237 \<and> byte_in 128 159 b \<or> byte_in 238 239 a \<and> cont_byte b)
           \<and> cont_byte c)"
| "utf8 (a # b # c # d # s) =
     (if byte a < 128 then utf8 (b # c # d # s)
      else if byte_in 194 223 a then cont_byte b \<and> utf8 (c # d # s)
      else if byte_in 224 239 a then
        (byte a = 224 \<and> byte_in 160 191 b \<or> byte_in 225 236 a \<and> cont_byte b
         \<or> byte a = 237 \<and> byte_in 128 159 b \<or> byte_in 238 239 a \<and> cont_byte b)
        \<and> cont_byte c \<and> utf8 (d # s)
      else (byte a = 240 \<and> byte_in 144 191 b \<or> byte_in 241 243 a \<and> cont_byte b
            \<or> byte a = 244 \<and> byte_in 128 143 b)
           \<and> cont_byte c \<and> cont_byte d \<and> utf8 s)"

definition ascii :: "string \<Rightarrow> bool" where
  "ascii s \<longleftrightarrow> (\<forall>c \<in> set s. byte c < 128)"

lemma ascii_Nil [simp]: "ascii []" by (simp add: ascii_def)
lemma ascii_Cons [simp]: "ascii (c # s) \<longleftrightarrow> byte c < 128 \<and> ascii s" by (auto simp: ascii_def)
lemma ascii_append [simp]: "ascii (s @ t) \<longleftrightarrow> ascii s \<and> ascii t" by (auto simp: ascii_def)

lemma ascii_utf8: "ascii s \<Longrightarrow> utf8 s"
  by (induction s rule: utf8.induct) auto

section \<open>Decimal numbers\<close>

definition digit :: "nat \<Rightarrow> char" where "digit d = char_of (48 + d)"

definition is_digit :: "char \<Rightarrow> bool" where
  "is_digit c \<longleftrightarrow> 48 \<le> byte c \<and> byte c < 58"

definition digit_val :: "char \<Rightarrow> nat" where "digit_val c = byte c - 48"

fun show_nat :: "nat \<Rightarrow> string" where
  "show_nat n = (if n < 10 then [digit n] else show_nat (n div 10) @ [digit (n mod 10)])"

declare show_nat.simps [simp del]

definition show_int :: "int \<Rightarrow> string" where
  "show_int i = (if i < 0 then ''-'' @ show_nat (nat (- i)) else show_nat (nat i))"

definition pad2 :: "nat \<Rightarrow> string" where
  "pad2 n = (if n < 10 then ''0'' @ show_nat n else show_nat n)"

fun read_digits :: "nat \<Rightarrow> string \<Rightarrow> nat option" where
  "read_digits acc [] = Some acc"
| "read_digits acc (c # cs) =
     (if is_digit c then read_digits (10 * acc + digit_val c) cs else None)"

definition strip_plus :: "string \<Rightarrow> string" where
  "strip_plus s = (case s of [] \<Rightarrow> [] | c # t \<Rightarrow> if c = CHR ''+'' then t else s)"

definition parse_u64 :: "string \<Rightarrow> nat option" where
  "parse_u64 s = (let b = strip_plus s in
     if b = [] then None
     else case read_digits 0 b of None \<Rightarrow> None | Some n \<Rightarrow> if n < 2 ^ 64 then Some n else None)"

definition parse_i32 :: "string \<Rightarrow> int option" where
  "parse_i32 s = (case s of
       [] \<Rightarrow> None
     | c # t \<Rightarrow>
         if c = CHR ''-'' then
           (if t = [] then None
            else case read_digits 0 t of None \<Rightarrow> None
              | Some n \<Rightarrow> if n \<le> 2 ^ 31 then Some (- int n) else None)
         else (let b = strip_plus s in
           if b = [] then None
           else case read_digits 0 b of None \<Rightarrow> None
             | Some n \<Rightarrow> if n < 2 ^ 31 then Some (int n) else None))"

lemma byte_digit: "d < 10 \<Longrightarrow> byte (digit d) = 48 + d"
  by (simp add: byte_def digit_def)

lemma is_digit_digit [simp]: "d < 10 \<Longrightarrow> is_digit (digit d)"
  by (simp add: is_digit_def byte_digit)

lemma digit_val_digit [simp]: "d < 10 \<Longrightarrow> digit_val (digit d) = d"
  by (simp add: digit_val_def byte_digit)

lemma read_digits_append:
  "read_digits acc (s @ t) =
     (case read_digits acc s of None \<Rightarrow> None | Some n \<Rightarrow> read_digits n t)"
  by (induction s arbitrary: acc) auto

lemma show_nat_digits: "c \<in> set (show_nat n) \<Longrightarrow> is_digit c"
proof (induction n rule: show_nat.induct)
  case (1 n)
  then show ?case by (cases "n < 10") (auto simp: show_nat.simps [of n])
qed

lemma show_nat_not_Nil [simp]: "show_nat n \<noteq> []"
  by (simp add: show_nat.simps [of n])

lemma read_show_nat [simp]: "read_digits 0 (show_nat n) = Some n"
proof (induction n rule: show_nat.induct)
  case (1 n)
  show ?case
  proof (cases "n < 10")
    case True
    then show ?thesis by (simp add: show_nat.simps [of n])
  next
    case False
    with 1 have "read_digits 0 (show_nat (n div 10)) = Some (n div 10)" by simp
    with False show ?thesis by (simp add: show_nat.simps [of n] read_digits_append)
  qed
qed

lemma show_nat_inj [simp]: "show_nat m = show_nat n \<longleftrightarrow> m = n"
proof
  assume "show_nat m = show_nat n"
  then have "read_digits 0 (show_nat m) = read_digits 0 (show_nat n)" by simp
  then show "m = n" by simp
qed simp

lemma is_digit_not_plus: "is_digit c \<Longrightarrow> c \<noteq> CHR ''+''"
  by (auto simp: is_digit_def byte_def)

lemma is_digit_not_dot: "is_digit c \<Longrightarrow> c \<noteq> CHR ''.''"
  by (auto simp: is_digit_def byte_def)

lemma show_nat_no_dot: "CHR ''.'' \<notin> set (show_nat n)"
  using is_digit_not_dot show_nat_digits by blast

lemma show_nat_ascii [simp]: "ascii (show_nat n)"
  unfolding ascii_def using show_nat_digits by (fastforce simp: is_digit_def)

lemma strip_plus_show_nat [simp]: "strip_plus (show_nat n) = show_nat n"
  using show_nat_digits [of _ n] is_digit_not_plus
  by (cases "show_nat n") (auto simp: strip_plus_def)

lemma parse_show_u64: "n < 2 ^ 64 \<Longrightarrow> parse_u64 (show_nat n) = Some n"
  by (simp add: parse_u64_def)

lemma parse_u64_bound: "parse_u64 s = Some n \<Longrightarrow> n < 2 ^ 64"
  by (auto simp: parse_u64_def Let_def split: if_splits option.splits)

lemma utf8_newline: "utf8 s \<Longrightarrow> utf8 (s @ [newline])"
  by (induction s rule: utf8.induct) (auto simp: byte_def byte_in_def cont_byte_def split: if_splits)

section \<open>Trimming, splitting, joining\<close>

definition is_space :: "char \<Rightarrow> bool" where
  "is_space c \<longleftrightarrow> byte c = 32 \<or> 9 \<le> byte c \<and> byte c \<le> 13"

definition trim_end :: "string \<Rightarrow> string" where
  "trim_end s = rev (dropWhile is_space (rev s))"

definition trim :: "string \<Rightarrow> string" where
  "trim s = trim_end (dropWhile is_space s)"

lemma dropWhile_id: "(\<forall>c \<in> set s. \<not> P c) \<Longrightarrow> dropWhile P s = s"
  by (cases s) auto

lemma trim_id: "(\<forall>c \<in> set s. \<not> is_space c) \<Longrightarrow> trim s = s"
  by (simp add: trim_def trim_end_def dropWhile_id)

lemma trim_empty_iff: "trim s = [] \<longleftrightarrow> (\<forall>c \<in> set s. is_space c)"
proof -
  have "dropWhile is_space (rev (dropWhile is_space s)) = [] \<longleftrightarrow> (\<forall>c \<in> set (dropWhile is_space s). is_space c)"
    by (simp add: dropWhile_eq_Nil_conv)
  also have "\<dots> \<longleftrightarrow> dropWhile is_space s = []"
    by (metis dropWhile_eq_Cons_conv empty_iff list.exhaust list.set(1) list.set_intros(1))
  finally show ?thesis by (simp add: trim_def trim_end_def dropWhile_eq_Nil_conv)
qed

lemma is_digit_not_space: "is_digit c \<Longrightarrow> \<not> is_space c"
  by (auto simp: is_digit_def is_space_def)

lemma trim_show_nat [simp]: "trim (show_nat n) = show_nat n"
  by (meson is_digit_not_space show_nat_digits trim_id)

definition strip_cr :: "string \<Rightarrow> string" where
  "strip_cr s = (if s \<noteq> [] \<and> last s = carriage then butlast s else s)"

fun lines_from :: "string \<Rightarrow> string \<Rightarrow> string list" where
  "lines_from cur [] = (if cur = [] then [] else [rev cur])"
| "lines_from cur (c # cs) =
     (if c = newline then strip_cr (rev cur) # lines_from [] cs else lines_from (c # cur) cs)"

definition str_lines :: "string \<Rightarrow> string list" where
  "str_lines s = lines_from [] s"

fun words_from :: "string \<Rightarrow> string \<Rightarrow> string list" where
  "words_from cur [] = (if cur = [] then [] else [rev cur])"
| "words_from cur (c # cs) =
     (if is_space c then (if cur = [] then words_from [] cs else rev cur # words_from [] cs)
      else words_from (c # cur) cs)"

definition split_whitespace :: "string \<Rightarrow> string list" where
  "split_whitespace s = words_from [] s"

fun str_join :: "string \<Rightarrow> string list \<Rightarrow> string" where
  "str_join sep [] = []"
| "str_join sep [x] = x"
| "str_join sep (x # xs) = x @ sep @ str_join sep xs"

fun str_contains :: "string \<Rightarrow> string \<Rightarrow> bool" where
  "str_contains s pat = (prefix pat s \<or> (case s of [] \<Rightarrow> False | _ # t \<Rightarrow> str_contains t pat))"

declare str_contains.simps [simp del]

lemma str_contains_iff: "str_contains s pat \<longleftrightarrow> (\<exists>a b. s = a @ pat @ b)"
proof (induction s pat rule: str_contains.induct)
  case (1 s pat)
  show ?case
  proof (cases s)
    case Nil
    then show ?thesis by (subst str_contains.simps) auto
  next
    case (Cons c t)
    have "str_contains s pat \<longleftrightarrow> prefix pat s \<or> (\<exists>a b. t = a @ pat @ b)"
      using 1 [OF Cons] Cons by (subst str_contains.simps) simp
    also have "\<dots> \<longleftrightarrow> (\<exists>a b. s = a @ pat @ b)"
      using Cons by (auto simp: prefix_def) (metis Cons_eq_append_conv append_Cons append_Nil)+
    finally show ?thesis .
  qed
qed

lemma no_newline_lines: "newline \<notin> set s \<Longrightarrow> lines_from cur (s @ newline # r) =
    strip_cr (rev cur @ s) # lines_from [] r"
  by (induction s arbitrary: cur) auto

section \<open>File names and debug output\<close>

definition file_stem :: "string \<Rightarrow> string" where
  "file_stem n = (case dropWhile (\<lambda>c. c \<noteq> CHR ''.'') (rev n) of
       [] \<Rightarrow> n | _ # r \<Rightarrow> if r = [] then n else rev r)"

definition with_ext :: "string \<Rightarrow> string \<Rightarrow> string" where
  "with_ext n e = file_stem n @ ''.'' @ e"

lemma file_stem_dot:
  assumes "a \<noteq> []" and "CHR ''.'' \<notin> set e"
  shows "file_stem (a @ ''.'' @ e) = a"
proof -
  have "dropWhile (\<lambda>c. c \<noteq> CHR ''.'') (rev e @ ''.'' @ rev a) = ''.'' @ rev a"
    using assms(2) by (subst dropWhile_append2) auto
  with assms(1) show ?thesis by (simp add: file_stem_def)
qed

definition escape_char :: "char \<Rightarrow> string" where
  "escape_char c =
     (if c = CHR 0x22 then [CHR 0x5C, CHR 0x22]
      else if c = CHR 0x5C then [CHR 0x5C, CHR 0x5C]
      else if c = newline then [CHR 0x5C, CHR ''n'']
      else if c = carriage then [CHR 0x5C, CHR ''r'']
      else if c = CHR 0x09 then [CHR 0x5C, CHR ''t'']
      else if c = CHR 0x00 then [CHR 0x5C, CHR ''0'']
      else [c])"

definition debug_str :: "string \<Rightarrow> string" where
  "debug_str s = [CHR 0x22] @ concat (map escape_char s) @ [CHR 0x22]"

definition debug_ints :: "int list \<Rightarrow> string" where
  "debug_ints xs = ''['' @ str_join '', '' (map show_int xs) @ '']''"

end
