(* ===== verification/Json.thy ===== *)
theory Json
  imports RustStd
begin

text \<open>
  The data model of \<open>serde_json\<close> as far as the program's derived \<open>Serialize\<close> and
  \<open>Deserialize\<close> implementations use it: documents, and the field-by-field decoding of a struct.
  A required field must be present; a missing \<open>Option\<close> field is \<open>None\<close>; a missing field with
  \<open>#[serde(default)]\<close> takes its default; unknown fields are ignored; a repeated field is an
  error.  The text syntax of JSON (printing and parsing) is code outside the repository: it is the
  pair \<open>e_print\<close>, \<open>e_parse\<close> of the environment in \<open>World\<close>.  The positional form that serde also
  accepts for a struct is never produced by this program and is not modelled.
\<close>

datatype json =
    JNull
  | JBool bool
  | JNum int
  | JStr string
  | JArr "json list"
  | JObj "(string \<times> json) list"

type_synonym fields = "(string \<times> json) list"

section \<open>Encoding\<close>

definition enc_nat :: "nat \<Rightarrow> json" where "enc_nat n = JNum (int n)"

definition enc_opt :: "('a \<Rightarrow> json) \<Rightarrow> 'a option \<Rightarrow> json" where
  "enc_opt f x = (case x of None \<Rightarrow> JNull | Some v \<Rightarrow> f v)"

definition enc_list :: "('a \<Rightarrow> json) \<Rightarrow> 'a list \<Rightarrow> json" where
  "enc_list f xs = JArr (map f xs)"

text \<open>\<open>skip_serializing_if = "Option::is_none"\<close> and \<open>"Vec::is_empty"\<close>.\<close>

definition skip_none :: "string \<Rightarrow> ('a \<Rightarrow> json) \<Rightarrow> 'a option \<Rightarrow> fields" where
  "skip_none k f x = (case x of None \<Rightarrow> [] | Some v \<Rightarrow> [(k, f v)])"

definition skip_empty :: "string \<Rightarrow> ('a \<Rightarrow> json) \<Rightarrow> 'a list \<Rightarrow> fields" where
  "skip_empty k f xs = (if xs = [] then [] else [(k, enc_list f xs)])"

section \<open>Decoding\<close>

definition dec_bool :: "json \<Rightarrow> bool option" where
  "dec_bool j = (case j of JBool b \<Rightarrow> Some b | _ \<Rightarrow> None)"

definition dec_str :: "json \<Rightarrow> string option" where
  "dec_str j = (case j of JStr s \<Rightarrow> Some s | _ \<Rightarrow> None)"

definition dec_range :: "int \<Rightarrow> int \<Rightarrow> json \<Rightarrow> int option" where
  "dec_range lo hi j = (case j of JNum i \<Rightarrow> if lo \<le> i \<and> i < hi then Some i else None | _ \<Rightarrow> None)"

definition dec_u64 :: "json \<Rightarrow> nat option" where
  "dec_u64 j = map_option nat (dec_range 0 (2 ^ 64) j)"

definition dec_u16 :: "json \<Rightarrow> nat option" where
  "dec_u16 j = map_option nat (dec_range 0 (2 ^ 16) j)"

definition dec_i32 :: "json \<Rightarrow> int option" where
  "dec_i32 j = dec_range (- (2 ^ 31)) (2 ^ 31) j"

definition dec_opt :: "(json \<Rightarrow> 'a option) \<Rightarrow> json \<Rightarrow> 'a option option" where
  "dec_opt d j = (case j of JNull \<Rightarrow> Some None | _ \<Rightarrow> map_option Some (d j))"

fun dec_all :: "(json \<Rightarrow> 'a option) \<Rightarrow> json list \<Rightarrow> 'a list option" where
  "dec_all d [] = Some []"
| "dec_all d (j # js) =
     (case d j of None \<Rightarrow> None | Some x \<Rightarrow> map_option (Cons x) (dec_all d js))"

definition dec_list :: "(json \<Rightarrow> 'a option) \<Rightarrow> json \<Rightarrow> 'a list option" where
  "dec_list d j = (case j of JArr js \<Rightarrow> dec_all d js | _ \<Rightarrow> None)"

text \<open>A struct: the known fields occur at most once.\<close>

definition dec_struct :: "string list \<Rightarrow> (fields \<Rightarrow> 'a option) \<Rightarrow> json \<Rightarrow> 'a option" where
  "dec_struct known f j = (case j of
       JObj o' \<Rightarrow> if distinct (filter (\<lambda>k. k \<in> set known) (map fst o')) then f o' else None
     | _ \<Rightarrow> None)"

definition req :: "string \<Rightarrow> (json \<Rightarrow> 'a option) \<Rightarrow> fields \<Rightarrow> 'a option" where
  "req k d o' = (case map_of o' k of None \<Rightarrow> None | Some j \<Rightarrow> d j)"

definition opt :: "string \<Rightarrow> (json \<Rightarrow> 'a option) \<Rightarrow> fields \<Rightarrow> 'a option option" where
  "opt k d o' = (case map_of o' k of None \<Rightarrow> Some None | Some j \<Rightarrow> dec_opt d j)"

definition dflt :: "'a \<Rightarrow> string \<Rightarrow> (json \<Rightarrow> 'a option) \<Rightarrow> fields \<Rightarrow> 'a option" where
  "dflt v k d o' = (case map_of o' k of None \<Rightarrow> Some v | Some j \<Rightarrow> d j)"

section \<open>Decoding what was encoded\<close>

named_theorems json_simps

lemma dec_bool_enc [simp, json_simps]: "dec_bool (JBool b) = Some b"
  by (simp add: dec_bool_def)

lemma dec_str_enc [simp, json_simps]: "dec_str (JStr s) = Some s"
  by (simp add: dec_str_def)

lemma dec_u64_enc [simp, json_simps]: "n < 2 ^ 64 \<Longrightarrow> dec_u64 (enc_nat n) = Some n"
  by (simp add: dec_u64_def dec_range_def enc_nat_def)

lemma dec_u16_enc [simp, json_simps]: "n < 2 ^ 16 \<Longrightarrow> dec_u16 (enc_nat n) = Some n"
  by (simp add: dec_u16_def dec_range_def enc_nat_def)

lemma dec_i32_enc [simp, json_simps]: "- (2 ^ 31) \<le> i \<Longrightarrow> i < 2 ^ 31 \<Longrightarrow> dec_i32 (JNum i) = Some i"
  by (simp add: dec_i32_def dec_range_def)

text \<open>\<open>decodes d f x\<close>: decoding with \<open>d\<close> what \<open>f\<close> encodes gives \<open>x\<close> back, and the encoding is
  not \<open>null\<close>, so it can stand for \<open>Some x\<close>.\<close>

definition decodes :: "(json \<Rightarrow> 'a option) \<Rightarrow> ('a \<Rightarrow> json) \<Rightarrow> 'a \<Rightarrow> bool" where
  "decodes d f x \<longleftrightarrow> d (f x) = Some x \<and> f x \<noteq> JNull"

lemma decodesI: "d (f x) = Some x \<Longrightarrow> f x \<noteq> JNull \<Longrightarrow> decodes d f x"
  by (simp add: decodes_def)

lemma decodes_str [simp, json_simps]: "decodes dec_str JStr s"
  by (simp add: decodes_def)

lemma decodes_u64 [simp, json_simps]: "n < 2 ^ 64 \<Longrightarrow> decodes dec_u64 enc_nat n"
  by (simp add: decodes_def) (simp add: enc_nat_def)

lemma dec_opt_enc [json_simps]:
  "(\<And>v. x = Some v \<Longrightarrow> decodes d f v) \<Longrightarrow> dec_opt d (enc_opt f x) = Some x"
  by (cases x) (auto simp: dec_opt_def enc_opt_def decodes_def split: json.split)

lemma dec_all_map [json_simps]:
  "(\<And>x. x \<in> set xs \<Longrightarrow> decodes d f x) \<Longrightarrow> dec_all d (map f xs) = Some xs"
  by (induction xs) (auto simp: decodes_def)

lemma dec_list_enc [json_simps]:
  "(\<And>x. x \<in> set xs \<Longrightarrow> decodes d f x) \<Longrightarrow> dec_list d (enc_list f xs) = Some xs"
  by (simp add: dec_list_def enc_list_def dec_all_map)

lemma enc_list_not_null [simp]: "enc_list f xs \<noteq> JNull"
  by (simp add: enc_list_def)

lemma dec_opt_Some [json_simps]: "decodes d f v \<Longrightarrow> dec_opt d (f v) = Some (Some v)"
  by (auto simp: dec_opt_def decodes_def split: json.split)

text \<open>A struct encoded with distinct keys decodes by its fields.\<close>

definition has_key :: "string \<Rightarrow> fields \<Rightarrow> bool" where
  "has_key k fs \<longleftrightarrow> k \<in> fst ` set fs"

definition keys_ok :: "fields \<Rightarrow> bool" where
  "keys_ok fs \<longleftrightarrow> distinct (map fst fs)"

lemma has_key_rules [simp]:
  "\<not> has_key k []"
  "has_key k ((k', v) # r) \<longleftrightarrow> k = k' \<or> has_key k r"
  "has_key k (skip_none k' f x @ r) \<longleftrightarrow> k = k' \<and> x \<noteq> None \<or> has_key k r"
  "has_key k (skip_empty k' g xs @ r) \<longleftrightarrow> k = k' \<and> xs \<noteq> [] \<or> has_key k r"
  "has_key k (skip_none k' f x) \<longleftrightarrow> k = k' \<and> x \<noteq> None"
  "has_key k (skip_empty k' g xs) \<longleftrightarrow> k = k' \<and> xs \<noteq> []"
  by (auto simp: has_key_def skip_none_def skip_empty_def split: option.split)

lemma keys_ok_rules [simp]:
  "keys_ok []"
  "keys_ok ((k, v) # r) \<longleftrightarrow> \<not> has_key k r \<and> keys_ok r"
  "keys_ok (skip_none k f x @ r) \<longleftrightarrow> keys_ok r \<and> (x = None \<or> \<not> has_key k r)"
  "keys_ok (skip_empty k g xs @ r) \<longleftrightarrow> keys_ok r \<and> (xs = [] \<or> \<not> has_key k r)"
  "keys_ok (skip_none k f x)"
  "keys_ok (skip_empty k g xs)"
  by (auto simp: keys_ok_def has_key_def skip_none_def skip_empty_def split: option.split)

lemma not_has_key: "\<not> has_key k r \<Longrightarrow> map_of r k = None"
  by (simp add: has_key_def map_of_eq_None_iff)

lemma map_of_skips:
  "map_of (skip_none k f x @ r) k' =
     (if k = k' \<and> x \<noteq> None then map_option f x else map_of r k')"
  "map_of (skip_empty k g xs @ r) k' =
     (if k = k' \<and> xs \<noteq> [] then Some (enc_list g xs) else map_of r k')"
  "map_of (skip_none k f x) k' = (if k = k' then map_option f x else None)"
  "map_of (skip_empty k g xs) k' = (if k = k' \<and> xs \<noteq> [] then Some (enc_list g xs) else None)"
  by (auto simp: skip_none_def skip_empty_def split: option.split)

text \<open>Reading a field: the entry of another key is passed over, the entry of the key decodes.\<close>

lemma field_Nil [simp]:
  "opt k d [] = Some None" "dflt v k d' [] = Some v" "req k d'' [] = None"
  by (simp_all add: opt_def dflt_def req_def)

lemma field_Cons [simp]:
  "opt k d ((k', j) # r) = (if k = k' then dec_opt d j else opt k d r)"
  "dflt v k d' ((k', j) # r) = (if k = k' then d' j else dflt v k d' r)"
  "req k d'' ((k', j) # r) = (if k = k' then d'' j else req k d'' r)"
  by (auto simp: opt_def dflt_def req_def)

lemma field_skip_other [simp]:
  "k \<noteq> k' \<Longrightarrow> opt k d (skip_none k' f x @ r) = opt k d r"
  "k \<noteq> k' \<Longrightarrow> opt k d (skip_none k' f x) = Some None"
  "k \<noteq> k' \<Longrightarrow> dflt v k d' (skip_none k' f x @ r) = dflt v k d' r"
  "k \<noteq> k' \<Longrightarrow> dflt v k d' (skip_empty k' g xs @ r) = dflt v k d' r"
  "k \<noteq> k' \<Longrightarrow> req k d'' (skip_none k' f x @ r) = req k d'' r"
  by (simp_all add: opt_def dflt_def req_def map_of_skips del: map_of_append)

lemma field_skip_none [simp]:
  assumes "\<And>v. x = Some v \<Longrightarrow> decodes d f v"
  shows "\<not> has_key k r \<Longrightarrow> opt k d (skip_none k f x @ r) = Some x"
    and "opt k d (skip_none k f x) = Some x"
  using assms
  by (cases x; simp add: opt_def map_of_skips not_has_key dec_opt_Some del: map_of_append)+

lemma field_skip_empty [simp]:
  assumes "\<And>x. x \<in> set xs \<Longrightarrow> decodes d g x"
  shows "\<not> has_key k r \<Longrightarrow> dflt [] k (dec_list d) (skip_empty k g xs @ r) = Some xs"
    and "dflt [] k (dec_list d) (skip_empty k g xs) = Some xs"
  using assms by (auto simp: dflt_def map_of_skips not_has_key dec_list_enc simp del: map_of_append)

lemma dec_struct_JObj [json_simps]: "keys_ok fs \<Longrightarrow> dec_struct known f (JObj fs) = f fs"
  by (simp add: dec_struct_def keys_ok_def)

end
