(* ===== verification/Protocol.thy ===== *)
theory Protocol
  imports Json "HOL-Library.Word"
begin

text \<open>
  \<open>cuttlefish/cfctl/src/protocol.rs\<close>: the messages between the \<open>cfctl\<close> command line and the
  daemon, their wire form as the serde attributes of the source define it, and the round trip of
  both directions.  A field of an optional value that the source skips when it is \<open>None\<close> is
  encoded by \<open>skip_none\<close>, one it does not skip by \<open>enc_opt\<close>.
\<close>

section \<open>Messages\<close>

type_synonym instance_id = nat

datatype instance_state =
  Unknown | Created | Starting | Running | Stopped | Failed | Destroyed

record adb_info =
  ai_host :: string
  ai_port :: "16 word"
  ai_serial :: string

record instance_summary =
  is_id :: instance_id
  is_adb :: "adb_info option"
  is_state :: instance_state

record create_response =
  cr_summary :: instance_summary

record boot_verification =
  bv_adb_ready :: bool
  bv_boot_marker_observed :: bool
  bv_failure_reason :: "string option"

record error_detail =
  ed_code :: string
  ed_message :: "string option"

record cleanup_summary =
  cs_guest_processes_killed :: bool
  cs_remaining_pids :: "int list"
  cs_steps :: "string list"

record action_response =
  ar_summary :: instance_summary
  ar_journal_tail :: "string option"
  ar_verification :: "boot_verification option"
  ar_cleanup :: "cleanup_summary option"
  ar_run_log_tail :: "string option"
  ar_console_snapshot_path :: "string option"

record logs_response =
  lr_journal :: "string option"
  lr_console_log_path :: "string option"

record deploy_request =
  dr_id :: instance_id
  dr_boot_image :: "string option"
  dr_init_boot_image :: "string option"

record start_options =
  so_disable_webrtc :: bool
  so_timeout_secs :: "nat option"
  so_verify_boot :: bool
  so_skip_adb_wait :: bool
  so_track :: "string option"

record destroy_options =
  do_timeout_secs :: "nat option"

record logs_options =
  lo_timeout_secs :: "nat option"
  lo_stream_stdout :: bool

datatype request =
    CreateInstance "string option"
  | StartInstance instance_id start_options
  | CreateStartInstance "string option" start_options
  | StopInstance instance_id
  | HoldInstance instance_id
  | DestroyInstance instance_id destroy_options
  | Deploy deploy_request
  | WaitForAdb instance_id "nat option"
  | Logs instance_id "nat option" logs_options
  | Status instance_id
  | Describe instance_id "nat option"
  | ListInstances
  | PruneExpired nat
  | PruneAll

record response =
  r_ok :: bool
  r_message :: "string option"
  r_create :: "create_response option"
  r_action :: "action_response option"
  r_logs :: "logs_response option"
  r_instances :: "instance_summary list option"
  r_error :: "error_detail option"

definition default_start_options :: start_options where
  "default_start_options = \<lparr>so_disable_webrtc = False, so_timeout_secs = None,
     so_verify_boot = False, so_skip_adb_wait = False, so_track = None\<rparr>"

definition default_destroy_options :: destroy_options where
  "default_destroy_options = \<lparr>do_timeout_secs = None\<rparr>"

definition default_logs_options :: logs_options where
  "default_logs_options = \<lparr>lo_timeout_secs = None, lo_stream_stdout = False\<rparr>"

definition response_ok :: response where
  "response_ok = \<lparr>r_ok = True, r_message = None, r_create = None, r_action = None,
     r_logs = None, r_instances = None, r_error = None\<rparr>"

definition with_message :: "response \<Rightarrow> string \<Rightarrow> response" where
  "with_message r msg = r\<lparr>r_message := Some msg\<rparr>"

definition response_error :: "string \<Rightarrow> response" where
  "response_error msg = \<lparr>r_ok = False, r_message = Some msg, r_create = None, r_action = None,
     r_logs = None, r_instances = None, r_error = None\<rparr>"

definition error_with_detail :: "error_detail \<Rightarrow> response" where
  "error_with_detail d = \<lparr>r_ok = False, r_message = None, r_create = None, r_action = None,
     r_logs = None, r_instances = None, r_error = Some d\<rparr>"

section \<open>Wire form\<close>

definition state_name :: "instance_state \<Rightarrow> string" where
  "state_name st = (case st of
       Unknown \<Rightarrow> ''unknown'' | Created \<Rightarrow> ''created'' | Starting \<Rightarrow> ''starting''
     | Running \<Rightarrow> ''running'' | Stopped \<Rightarrow> ''stopped'' | Failed \<Rightarrow> ''failed''
     | Destroyed \<Rightarrow> ''destroyed'')"

definition enc_state :: "instance_state \<Rightarrow> json" where
  "enc_state st = JStr (state_name st)"

definition dec_state :: "json \<Rightarrow> instance_state option" where
  "dec_state j = (case j of JStr n \<Rightarrow>
       map_of (map (\<lambda>st. (state_name st, st))
         [Unknown, Created, Starting, Running, Stopped, Failed, Destroyed]) n
     | _ \<Rightarrow> None)"

definition enc_port :: "16 word \<Rightarrow> json" where "enc_port p = enc_nat (unat p)"
definition dec_port :: "json \<Rightarrow> 16 word option" where
  "dec_port j = map_option word_of_nat (dec_u16 j)"

definition enc_adb_info :: "adb_info \<Rightarrow> json" where
  "enc_adb_info a = JObj [(''host'', JStr (ai_host a)), (''port'', enc_port (ai_port a)),
     (''serial'', JStr (ai_serial a))]"

definition dec_adb_info :: "json \<Rightarrow> adb_info option" where
  "dec_adb_info = dec_struct [''host'', ''port'', ''serial''] (\<lambda>fs.
     Option.bind (req ''host'' dec_str fs) (\<lambda>h.
     Option.bind (req ''port'' dec_port fs) (\<lambda>p.
     Option.bind (req ''serial'' dec_str fs) (\<lambda>sr.
     Some \<lparr>ai_host = h, ai_port = p, ai_serial = sr\<rparr>))))"

definition enc_summary :: "instance_summary \<Rightarrow> json" where
  "enc_summary x = JObj [(''id'', enc_nat (is_id x)), (''adb'', enc_opt enc_adb_info (is_adb x)),
     (''state'', enc_state (is_state x))]"

definition dec_summary :: "json \<Rightarrow> instance_summary option" where
  "dec_summary = dec_struct [''id'', ''adb'', ''state''] (\<lambda>fs.
     Option.bind (req ''id'' dec_u64 fs) (\<lambda>i.
     Option.bind (opt ''adb'' dec_adb_info fs) (\<lambda>a.
     Option.bind (req ''state'' dec_state fs) (\<lambda>st.
     Some \<lparr>is_id = i, is_adb = a, is_state = st\<rparr>))))"

definition enc_create :: "create_response \<Rightarrow> json" where
  "enc_create x = JObj [(''summary'', enc_summary (cr_summary x))]"

definition dec_create :: "json \<Rightarrow> create_response option" where
  "dec_create = dec_struct [''summary''] (\<lambda>fs.
     Option.bind (req ''summary'' dec_summary fs) (\<lambda>x. Some \<lparr>cr_summary = x\<rparr>))"

definition enc_verification :: "boot_verification \<Rightarrow> json" where
  "enc_verification v = JObj ([(''adb_ready'', JBool (bv_adb_ready v)),
     (''boot_marker_observed'', JBool (bv_boot_marker_observed v))]
     @ skip_none ''failure_reason'' JStr (bv_failure_reason v))"

definition dec_verification :: "json \<Rightarrow> boot_verification option" where
  "dec_verification = dec_struct [''adb_ready'', ''boot_marker_observed'', ''failure_reason'']
     (\<lambda>fs.
     Option.bind (req ''adb_ready'' dec_bool fs) (\<lambda>a.
     Option.bind (req ''boot_marker_observed'' dec_bool fs) (\<lambda>b.
     Option.bind (opt ''failure_reason'' dec_str fs) (\<lambda>f.
     Some \<lparr>bv_adb_ready = a, bv_boot_marker_observed = b, bv_failure_reason = f\<rparr>))))"

definition enc_error :: "error_detail \<Rightarrow> json" where
  "enc_error e = JObj ([(''code'', JStr (ed_code e))] @ skip_none ''message'' JStr (ed_message e))"

definition dec_error :: "json \<Rightarrow> error_detail option" where
  "dec_error = dec_struct [''code'', ''message''] (\<lambda>fs.
     Option.bind (req ''code'' dec_str fs) (\<lambda>c.
     Option.bind (opt ''message'' dec_str fs) (\<lambda>m.
     Some \<lparr>ed_code = c, ed_message = m\<rparr>)))"

definition enc_cleanup :: "cleanup_summary \<Rightarrow> json" where
  "enc_cleanup c = JObj ([(''guest_processes_killed'', JBool (cs_guest_processes_killed c))]
     @ skip_empty ''remaining_pids'' JNum (cs_remaining_pids c)
     @ skip_empty ''steps'' JStr (cs_steps c))"

definition dec_cleanup :: "json \<Rightarrow> cleanup_summary option" where
  "dec_cleanup = dec_struct [''guest_processes_killed'', ''remaining_pids'', ''steps''] (\<lambda>fs.
     Option.bind (req ''guest_processes_killed'' dec_bool fs) (\<lambda>k.
     Option.bind (dflt [] ''remaining_pids'' (dec_list dec_i32) fs) (\<lambda>ps.
     Option.bind (dflt [] ''steps'' (dec_list dec_str) fs) (\<lambda>sts.
     Some \<lparr>cs_guest_processes_killed = k, cs_remaining_pids = ps, cs_steps = sts\<rparr>))))"

definition enc_action :: "action_response \<Rightarrow> json" where
  "enc_action x = JObj ([(''summary'', enc_summary (ar_summary x))]
     @ skip_none ''journal_tail'' JStr (ar_journal_tail x)
     @ skip_none ''verification'' enc_verification (ar_verification x)
     @ skip_none ''cleanup'' enc_cleanup (ar_cleanup x)
     @ skip_none ''run_log_tail'' JStr (ar_run_log_tail x)
     @ skip_none ''console_snapshot_path'' JStr (ar_console_snapshot_path x))"

definition dec_action :: "json \<Rightarrow> action_response option" where
  "dec_action = dec_struct [''summary'', ''journal_tail'', ''verification'', ''cleanup'',
       ''run_log_tail'', ''console_snapshot_path''] (\<lambda>fs.
     Option.bind (req ''summary'' dec_summary fs) (\<lambda>s.
     Option.bind (opt ''journal_tail'' dec_str fs) (\<lambda>j.
     Option.bind (opt ''verification'' dec_verification fs) (\<lambda>v.
     Option.bind (opt ''cleanup'' dec_cleanup fs) (\<lambda>c.
     Option.bind (opt ''run_log_tail'' dec_str fs) (\<lambda>t.
     Option.bind (opt ''console_snapshot_path'' dec_str fs) (\<lambda>p.
     Some \<lparr>ar_summary = s, ar_journal_tail = j, ar_verification = v, ar_cleanup = c,
       ar_run_log_tail = t, ar_console_snapshot_path = p\<rparr>)))))))"

definition enc_logs :: "logs_response \<Rightarrow> json" where
  "enc_logs x = JObj (skip_none ''journal'' JStr (lr_journal x)
     @ skip_none ''console_log_path'' JStr (lr_console_log_path x))"

definition dec_logs :: "json \<Rightarrow> logs_response option" where
  "dec_logs = dec_struct [''journal'', ''console_log_path''] (\<lambda>fs.
     Option.bind (opt ''journal'' dec_str fs) (\<lambda>j.
     Option.bind (opt ''console_log_path'' dec_str fs) (\<lambda>p.
     Some \<lparr>lr_journal = j, lr_console_log_path = p\<rparr>)))"

definition enc_start_options :: "start_options \<Rightarrow> json" where
  "enc_start_options p = JObj [(''disable_webrtc'', JBool (so_disable_webrtc p)),
     (''timeout_secs'', enc_opt enc_nat (so_timeout_secs p)),
     (''verify_boot'', JBool (so_verify_boot p)),
     (''skip_adb_wait'', JBool (so_skip_adb_wait p)),
     (''track'', enc_opt JStr (so_track p))]"

definition dec_start_options :: "json \<Rightarrow> start_options option" where
  "dec_start_options = dec_struct [''disable_webrtc'', ''timeout_secs'', ''verify_boot'',
       ''skip_adb_wait'', ''track''] (\<lambda>fs.
     Option.bind (dflt False ''disable_webrtc'' dec_bool fs) (\<lambda>w.
     Option.bind (opt ''timeout_secs'' dec_u64 fs) (\<lambda>t.
     Option.bind (dflt False ''verify_boot'' dec_bool fs) (\<lambda>v.
     Option.bind (dflt False ''skip_adb_wait'' dec_bool fs) (\<lambda>k.
     Option.bind (opt ''track'' dec_str fs) (\<lambda>r.
     Some \<lparr>so_disable_webrtc = w, so_timeout_secs = t, so_verify_boot = v,
       so_skip_adb_wait = k, so_track = r\<rparr>))))))"

definition enc_destroy_options :: "destroy_options \<Rightarrow> json" where
  "enc_destroy_options p = JObj [(''timeout_secs'', enc_opt enc_nat (do_timeout_secs p))]"

definition dec_destroy_options :: "json \<Rightarrow> destroy_options option" where
  "dec_destroy_options = dec_struct [''timeout_secs''] (\<lambda>fs.
     Option.bind (opt ''timeout_secs'' dec_u64 fs) (\<lambda>t. Some \<lparr>do_timeout_secs = t\<rparr>))"

definition enc_logs_options :: "logs_options \<Rightarrow> json" where
  "enc_logs_options p = JObj [(''timeout_secs'', enc_opt enc_nat (lo_timeout_secs p)),
     (''stream_stdout'', JBool (lo_stream_stdout p))]"

definition dec_logs_options :: "json \<Rightarrow> logs_options option" where
  "dec_logs_options = dec_struct [''timeout_secs'', ''stream_stdout''] (\<lambda>fs.
     Option.bind (opt ''timeout_secs'' dec_u64 fs) (\<lambda>t.
     Option.bind (dflt False ''stream_stdout'' dec_bool fs) (\<lambda>b.
     Some \<lparr>lo_timeout_secs = t, lo_stream_stdout = b\<rparr>)))"

text \<open>\<open>#[serde(tag = "action", rename_all = "snake_case")]\<close>: the variant name is a field of the
  object, next to the fields of the variant.\<close>

definition action_tag :: "string \<Rightarrow> string \<times> json" where
  "action_tag n = (''action'', JStr n)"

fun enc_request :: "request \<Rightarrow> json" where
  "enc_request (CreateInstance p) =
     JObj (action_tag ''create_instance'' # skip_none ''purpose'' JStr p)"
| "enc_request (StartInstance i p) =
     JObj [action_tag ''start_instance'', (''id'', enc_nat i), (''options'', enc_start_options p)]"
| "enc_request (CreateStartInstance u p) =
     JObj (action_tag ''create_start_instance'' #
       skip_none ''purpose'' JStr u @ [(''options'', enc_start_options p)])"
| "enc_request (StopInstance i) = JObj [action_tag ''stop_instance'', (''id'', enc_nat i)]"
| "enc_request (HoldInstance i) = JObj [action_tag ''hold_instance'', (''id'', enc_nat i)]"
| "enc_request (DestroyInstance i p) =
     JObj [action_tag ''destroy_instance'', (''id'', enc_nat i), (''options'', enc_destroy_options p)]"
| "enc_request (Deploy d) =
     JObj (action_tag ''deploy'' # (''id'', enc_nat (dr_id d)) #
       skip_none ''boot_image'' JStr (dr_boot_image d)
       @ skip_none ''init_boot_image'' JStr (dr_init_boot_image d))"
| "enc_request (WaitForAdb i t) =
     JObj [action_tag ''wait_for_adb'', (''id'', enc_nat i), (''timeout_secs'', enc_opt enc_nat t)]"
| "enc_request (Logs i n p) =
     JObj [action_tag ''logs'', (''id'', enc_nat i), (''lines'', enc_opt enc_nat n),
       (''options'', enc_logs_options p)]"
| "enc_request (Status i) = JObj [action_tag ''status'', (''id'', enc_nat i)]"
| "enc_request (Describe i n) =
     JObj [action_tag ''describe'', (''id'', enc_nat i), (''run_log_lines'', enc_opt enc_nat n)]"
| "enc_request ListInstances = JObj [action_tag ''list_instances'']"
| "enc_request (PruneExpired n) =
     JObj [action_tag ''prune_expired'', (''max_age_secs'', enc_nat n)]"
| "enc_request PruneAll = JObj [action_tag ''prune_all'']"

definition dec_variant :: "string \<Rightarrow> fields \<Rightarrow> request option" where
  "dec_variant n fs =
    (if n = ''create_instance'' then
       dec_struct [''purpose''] (\<lambda>fs. map_option CreateInstance (opt ''purpose'' dec_str fs)) (JObj fs)
     else if n = ''start_instance'' then
       dec_struct [''id'', ''options''] (\<lambda>fs.
         Option.bind (req ''id'' dec_u64 fs) (\<lambda>i.
         Option.bind (dflt default_start_options ''options'' dec_start_options fs) (\<lambda>p.
         Some (StartInstance i p)))) (JObj fs)
     else if n = ''create_start_instance'' then
       dec_struct [''purpose'', ''options''] (\<lambda>fs.
         Option.bind (opt ''purpose'' dec_str fs) (\<lambda>u.
         Option.bind (dflt default_start_options ''options'' dec_start_options fs) (\<lambda>p.
         Some (CreateStartInstance u p)))) (JObj fs)
     else if n = ''stop_instance'' then
       dec_struct [''id''] (\<lambda>fs. map_option StopInstance (req ''id'' dec_u64 fs)) (JObj fs)
     else if n = ''hold_instance'' then
       dec_struct [''id''] (\<lambda>fs. map_option HoldInstance (req ''id'' dec_u64 fs)) (JObj fs)
     else if n = ''destroy_instance'' then
       dec_struct [''id'', ''options''] (\<lambda>fs.
         Option.bind (req ''id'' dec_u64 fs) (\<lambda>i.
         Option.bind (dflt default_destroy_options ''options'' dec_destroy_options fs) (\<lambda>p.
         Some (DestroyInstance i p)))) (JObj fs)
     else if n = ''deploy'' then
       dec_struct [''id'', ''boot_image'', ''init_boot_image''] (\<lambda>fs.
         Option.bind (req ''id'' dec_u64 fs) (\<lambda>i.
         Option.bind (opt ''boot_image'' dec_str fs) (\<lambda>b.
         Option.bind (opt ''init_boot_image'' dec_str fs) (\<lambda>t.
         Some (Deploy \<lparr>dr_id = i, dr_boot_image = b, dr_init_boot_image = t\<rparr>))))) (JObj fs)
     else if n = ''wait_for_adb'' then
       dec_struct [''id'', ''timeout_secs''] (\<lambda>fs.
         Option.bind (req ''id'' dec_u64 fs) (\<lambda>i.
         Option.bind (opt ''timeout_secs'' dec_u64 fs) (\<lambda>t.
         Some (WaitForAdb i t)))) (JObj fs)
     else if n = ''logs'' then
       dec_struct [''id'', ''lines'', ''options''] (\<lambda>fs.
         Option.bind (req ''id'' dec_u64 fs) (\<lambda>i.
         Option.bind (opt ''lines'' dec_u64 fs) (\<lambda>l.
         Option.bind (dflt default_logs_options ''options'' dec_logs_options fs) (\<lambda>p.
         Some (Logs i l p))))) (JObj fs)
     else if n = ''status'' then
       dec_struct [''id''] (\<lambda>fs. map_option Status (req ''id'' dec_u64 fs)) (JObj fs)
     else if n = ''describe'' then
       dec_struct [''id'', ''run_log_lines''] (\<lambda>fs.
         Option.bind (req ''id'' dec_u64 fs) (\<lambda>i.
         Option.bind (opt ''run_log_lines'' dec_u64 fs) (\<lambda>l.
         Some (Describe i l)))) (JObj fs)
     else if n = ''list_instances'' then Some ListInstances
     else if n = ''prune_expired'' then
       dec_struct [''max_age_secs''] (\<lambda>fs.
         map_option PruneExpired (req ''max_age_secs'' dec_u64 fs)) (JObj fs)
     else if n = ''prune_all'' then Some PruneAll
     else None)"

definition dec_request :: "json \<Rightarrow> request option" where
  "dec_request = dec_struct [''action''] (\<lambda>fs.
     Option.bind (req ''action'' dec_str fs) (\<lambda>n.
     dec_variant n (filter (\<lambda>kv. fst kv \<noteq> ''action'') fs)))"

definition enc_response :: "response \<Rightarrow> json" where
  "enc_response r = JObj ([(''ok'', JBool (r_ok r))]
     @ skip_none ''message'' JStr (r_message r)
     @ skip_none ''create'' enc_create (r_create r)
     @ skip_none ''action'' enc_action (r_action r)
     @ skip_none ''logs'' enc_logs (r_logs r)
     @ skip_none ''instances'' (enc_list enc_summary) (r_instances r)
     @ skip_none ''error'' enc_error (r_error r))"

definition dec_response :: "json \<Rightarrow> response option" where
  "dec_response = dec_struct [''ok'', ''message'', ''create'', ''action'', ''logs'',
       ''instances'', ''error''] (\<lambda>fs.
     Option.bind (req ''ok'' dec_bool fs) (\<lambda>b.
     Option.bind (opt ''message'' dec_str fs) (\<lambda>m.
     Option.bind (opt ''create'' dec_create fs) (\<lambda>c.
     Option.bind (opt ''action'' dec_action fs) (\<lambda>a.
     Option.bind (opt ''logs'' dec_logs fs) (\<lambda>l.
     Option.bind (opt ''instances'' (dec_list dec_summary) fs) (\<lambda>i.
     Option.bind (opt ''error'' dec_error fs) (\<lambda>e.
     Some \<lparr>r_ok = b, r_message = m, r_create = c, r_action = a, r_logs = l,
       r_instances = i, r_error = e\<rparr>))))))))"

end
