(* ===== verification/ProtocolRoundTrip.thy ===== *)
theory ProtocolRoundTrip
  imports Protocol
begin

text \<open>
  Both peers of the control socket decode what the other encodes: the round trip of every message
  type of \<open>protocol.rs\<close>, for all values whose integers fit their machine types.
\<close>

section \<open>Values in the range of their types\<close>

definition u64 :: "nat \<Rightarrow> bool" where "u64 n \<longleftrightarrow> n < 2 ^ 64"

definition opt_all :: "('a \<Rightarrow> bool) \<Rightarrow> 'a option \<Rightarrow> bool" where
  "opt_all P x \<longleftrightarrow> (case x of None \<Rightarrow> True | Some v \<Rightarrow> P v)"

definition i32 :: "int \<Rightarrow> bool" where "i32 i \<longleftrightarrow> - (2 ^ 31) \<le> i \<and> i < 2 ^ 31"

definition wf_summary :: "instance_summary \<Rightarrow> bool" where
  "wf_summary x \<longleftrightarrow> u64 (is_id x)"

definition wf_action :: "action_response \<Rightarrow> bool" where
  "wf_action x \<longleftrightarrow> wf_summary (ar_summary x)
     \<and> opt_all (\<lambda>c. \<forall>i \<in> set (cs_remaining_pids c). i32 i) (ar_cleanup x)"

definition wf_response :: "response \<Rightarrow> bool" where
  "wf_response r \<longleftrightarrow> opt_all (\<lambda>c. wf_summary (cr_summary c)) (r_create r)
     \<and> opt_all wf_action (r_action r)
     \<and> opt_all (\<lambda>xs. \<forall>x \<in> set xs. wf_summary x) (r_instances r)"

fun wf_request :: "request \<Rightarrow> bool" where
  "wf_request (CreateInstance p) = True"
| "wf_request (StartInstance i p) = (u64 i \<and> opt_all u64 (so_timeout_secs p))"
| "wf_request (CreateStartInstance u p) = opt_all u64 (so_timeout_secs p)"
| "wf_request (StopInstance i) = u64 i"
| "wf_request (HoldInstance i) = u64 i"
| "wf_request (DestroyInstance i p) = (u64 i \<and> opt_all u64 (do_timeout_secs p))"
| "wf_request (Deploy d) = u64 (dr_id d)"
| "wf_request (WaitForAdb i t) = (u64 i \<and> opt_all u64 t)"
| "wf_request (Logs i n p) = (u64 i \<and> opt_all u64 n \<and> opt_all u64 (lo_timeout_secs p))"
| "wf_request (Status i) = u64 i"
| "wf_request (Describe i n) = (u64 i \<and> opt_all u64 n)"
| "wf_request ListInstances = True"
| "wf_request (PruneExpired n) = u64 n"
| "wf_request PruneAll = True"

lemma opt_all_Some [simp]: "opt_all P (Some v) = P v" by (simp add: opt_all_def)
lemma opt_all_None [simp]: "opt_all P None" by (simp add: opt_all_def)

section \<open>Structs\<close>

lemma dec_u64_range [simp]: "u64 n \<Longrightarrow> dec_u64 (enc_nat n) = Some n"
  by (simp add: u64_def)

lemma decodes_u64_range [simp]: "u64 n \<Longrightarrow> decodes dec_u64 enc_nat n"
  by (simp add: u64_def)

lemma dec_opt_u64 [simp]: "opt_all u64 x \<Longrightarrow> dec_opt dec_u64 (enc_opt enc_nat x) = Some x"
  by (rule dec_opt_enc) (auto simp: opt_all_def)

lemma dec_opt_str [simp]: "dec_opt dec_str (enc_opt JStr x) = Some x"
  by (rule dec_opt_enc) simp

lemma dec_opt_JStr [simp]: "dec_opt dec_str (JStr x) = Some (Some x)"
  by (simp add: dec_opt_def)

lemma dec_port_enc [simp]: "dec_port (enc_port p) = Some p"
proof -
  have "unat p < 2 ^ 16" using unsigned_less [of p] by simp
  then show ?thesis by (simp add: dec_port_def enc_port_def)
qed

lemma dec_state_enc [simp]: "dec_state (enc_state st) = Some st"
  by (cases st) (simp_all add: dec_state_def enc_state_def state_name_def)

lemma decodes_adb_info [simp]: "decodes dec_adb_info enc_adb_info a"
  by (simp add: decodes_def dec_adb_info_def enc_adb_info_def json_simps)

lemma dec_opt_adb_info [simp]: "dec_opt dec_adb_info (enc_opt enc_adb_info x) = Some x"
  by (rule dec_opt_enc) simp

lemma decodes_summary [simp]: "wf_summary x \<Longrightarrow> decodes dec_summary enc_summary x"
  by (simp add: decodes_def dec_summary_def enc_summary_def wf_summary_def json_simps)

lemma dec_summary_enc [simp]: "wf_summary x \<Longrightarrow> dec_summary (enc_summary x) = Some x"
  using decodes_summary by (simp add: decodes_def)

lemma decodes_create [simp]: "wf_summary (cr_summary x) \<Longrightarrow> decodes dec_create enc_create x"
  by (simp add: decodes_def dec_create_def enc_create_def json_simps)

lemma decodes_verification [simp]: "decodes dec_verification enc_verification v"
  by (rule decodesI) (simp_all add: dec_verification_def enc_verification_def json_simps)

lemma decodes_error [simp]: "decodes dec_error enc_error e"
  by (rule decodesI) (simp_all add: dec_error_def enc_error_def json_simps)

lemma decodes_i32 [simp]: "i32 i \<Longrightarrow> decodes dec_i32 JNum i"
  by (simp add: decodes_def i32_def)

lemma decodes_cleanup [simp]:
  "\<forall>i \<in> set (cs_remaining_pids c). i32 i \<Longrightarrow> decodes dec_cleanup enc_cleanup c"
  by (rule decodesI) (simp_all add: dec_cleanup_def enc_cleanup_def json_simps)

lemma decodes_logs [simp]: "decodes dec_logs enc_logs x"
  by (rule decodesI) (simp_all add: dec_logs_def enc_logs_def json_simps)

lemma decodes_action [simp]:
  assumes "wf_action x"
  shows "decodes dec_action enc_action x"
proof -
  have "\<And>c. ar_cleanup x = Some c \<Longrightarrow> decodes dec_cleanup enc_cleanup c"
    using assms by (auto simp: wf_action_def)
  moreover have "wf_summary (ar_summary x)"
    using assms by (simp add: wf_action_def)
  ultimately have "dec_action (enc_action x) = Some x"
    by (simp add: dec_action_def enc_action_def json_simps)
  then show ?thesis by (rule decodesI) (simp add: enc_action_def)
qed

lemma decodes_instances:
  "(\<And>x. x \<in> set xs \<Longrightarrow> wf_summary x) \<Longrightarrow> decodes (dec_list dec_summary) (enc_list enc_summary) xs"
  by (rule decodesI) (simp_all add: json_simps)

section \<open>Requests and responses\<close>

lemma dec_response_enc:
  assumes "wf_response r"
  shows "dec_response (enc_response r) = Some r"
proof -
  have "\<And>c. r_create r = Some c \<Longrightarrow> decodes dec_create enc_create c"
    and "\<And>a. r_action r = Some a \<Longrightarrow> decodes dec_action enc_action a"
    and "\<And>xs. r_instances r = Some xs \<Longrightarrow> decodes (dec_list dec_summary) (enc_list enc_summary) xs"
    using assms by (auto simp: wf_response_def intro!: decodes_instances)
  then show ?thesis
    by (simp add: dec_response_def enc_response_def json_simps)
qed

lemma dec_start_options_enc [simp]:
  "opt_all u64 (so_timeout_secs p) \<Longrightarrow> dec_start_options (enc_start_options p) = Some p"
  by (simp add: dec_start_options_def enc_start_options_def json_simps dec_opt_enc)

lemma dec_destroy_options_enc [simp]:
  "opt_all u64 (do_timeout_secs p) \<Longrightarrow> dec_destroy_options (enc_destroy_options p) = Some p"
  by (simp add: dec_destroy_options_def enc_destroy_options_def json_simps)

lemma dec_logs_options_enc [simp]:
  "opt_all u64 (lo_timeout_secs p) \<Longrightarrow> dec_logs_options (enc_logs_options p) = Some p"
  by (simp add: dec_logs_options_def enc_logs_options_def json_simps)

lemma filter_skip_none [simp]:
  "filter (\<lambda>kv. fst kv \<noteq> k') (skip_none k f x) = (if k = k' then [] else skip_none k f x)"
  by (simp add: skip_none_def split: option.split)

lemma dec_request_enc:
  assumes "wf_request q"
  shows "dec_request (enc_request q) = Some q"
  using assms
  by (cases q)
    (simp_all add: dec_request_def action_tag_def json_simps
      dec_variant_def dec_opt_enc)

end
