(* ===== verification/Metadata.thy ===== *)
theory Metadata
  imports ProtocolRoundTrip
begin

text \<open>
  \<open>InstanceMetadata\<close> and \<open>CleanupOutcome\<close> of \<open>cuttlefish/cfctl/src/daemon/manager.rs\<close>: the
  persistent record of an instance, its wire form (every field but the id has a default, so files
  of older versions still load) and its summary; paths as lists of components.
\<close>

section \<open>Paths\<close>

type_synonym path = "string list"

text \<open>
  An absolute path is the list of its components; \<open>[]\<close> is the empty \<open>PathBuf\<close>, the default of
  a path field that an old file lacks.
\<close>

definition show_path :: "path \<Rightarrow> string" where
  "show_path p = concat (map (\<lambda>c. ''/'' @ c) p)"

fun path_from :: "string \<Rightarrow> string \<Rightarrow> path" where
  "path_from cur [] = (if cur = [] \<or> rev cur = ''.'' then [] else [rev cur])"
| "path_from cur (c # cs) =
     (if c = CHR ''/'' then (if cur = [] \<or> rev cur = ''.'' then path_from [] cs
        else rev cur # path_from [] cs)
      else path_from (c # cur) cs)"

definition path_of :: "string \<Rightarrow> path" where "path_of s = path_from [] s"

section \<open>The metadata record\<close>

record instance_metadata =
  im_id :: instance_id
  im_purpose :: "string option"
  im_adb_port :: "16 word"
  im_state :: instance_state
  im_boot_image :: path
  im_init_boot_image :: path
  im_created_at :: nat
  im_updated_at :: nat
  im_held :: bool

definition summary :: "instance_metadata \<Rightarrow> string \<Rightarrow> instance_summary" where
  "summary m host =
     \<lparr>is_id = im_id m,
      is_adb = Some \<lparr>ai_host = host, ai_port = im_adb_port m,
        ai_serial = host @ '':'' @ show_nat (unat (im_adb_port m))\<rparr>,
      is_state = im_state m\<rparr>"

definition enc_path :: "path \<Rightarrow> json" where "enc_path p = JStr (show_path p)"
definition dec_path :: "json \<Rightarrow> path option" where
  "dec_path j = map_option path_of (dec_str j)"

definition enc_metadata :: "instance_metadata \<Rightarrow> json" where
  "enc_metadata m = JObj [(''id'', enc_nat (im_id m)),
     (''purpose'', enc_opt JStr (im_purpose m)),
     (''adb_port'', enc_port (im_adb_port m)),
     (''state'', enc_state (im_state m)),
     (''boot_image'', enc_path (im_boot_image m)),
     (''init_boot_image'', enc_path (im_init_boot_image m)),
     (''created_at'', enc_nat (im_created_at m)),
     (''updated_at'', enc_nat (im_updated_at m)),
     (''held'', JBool (im_held m))]"

definition dec_metadata :: "json \<Rightarrow> instance_metadata option" where
  "dec_metadata = dec_struct [''id'', ''purpose'', ''adb_port'', ''state'', ''boot_image'',
       ''init_boot_image'', ''created_at'', ''updated_at'', ''held''] (\<lambda>fs.
     Option.bind (req ''id'' dec_u64 fs) (\<lambda>i.
     Option.bind (opt ''purpose'' dec_str fs) (\<lambda>u.
     Option.bind (dflt 0 ''adb_port'' dec_port fs) (\<lambda>a.
     Option.bind (dflt Unknown ''state'' dec_state fs) (\<lambda>st.
     Option.bind (dflt [] ''boot_image'' dec_path fs) (\<lambda>b.
     Option.bind (dflt [] ''init_boot_image'' dec_path fs) (\<lambda>n.
     Option.bind (dflt 0 ''created_at'' dec_u64 fs) (\<lambda>c.
     Option.bind (dflt 0 ''updated_at'' dec_u64 fs) (\<lambda>d.
     Option.bind (dflt False ''held'' dec_bool fs) (\<lambda>h.
     Some \<lparr>im_id = i, im_purpose = u, im_adb_port = a, im_state = st, im_boot_image = b,
       im_init_boot_image = n, im_created_at = c, im_updated_at = d, im_held = h\<rparr>))))))))))"

text \<open>A component of a path: not empty, not the current directory, no separator.\<close>

definition component :: "string \<Rightarrow> bool" where
  "component c \<longleftrightarrow> c \<noteq> [] \<and> c \<noteq> ''.'' \<and> CHR ''/'' \<notin> set c"

definition wf_path :: "path \<Rightarrow> bool" where
  "wf_path p \<longleftrightarrow> (\<forall>c \<in> set p. component c)"

definition wf_metadata :: "instance_metadata \<Rightarrow> bool" where
  "wf_metadata m \<longleftrightarrow> u64 (im_id m) \<and> u64 (im_created_at m) \<and> u64 (im_updated_at m)
     \<and> wf_path (im_boot_image m) \<and> wf_path (im_init_boot_image m)"

lemma wf_path_append [simp]: "wf_path (p @ q) \<longleftrightarrow> wf_path p \<and> wf_path q"
  by (auto simp: wf_path_def)
lemma wf_path_Cons [simp]: "wf_path (c # p) \<longleftrightarrow> component c \<and> wf_path p"
  by (auto simp: wf_path_def)
lemma wf_path_Nil [simp]: "wf_path []" by (simp add: wf_path_def)

lemma path_from_component:
  "CHR ''/'' \<notin> set c \<Longrightarrow> path_from cur (c @ r) = path_from (rev c @ cur) r"
  by (induction c arbitrary: cur) auto

lemma path_from_slash:
  "component (rev cur) \<Longrightarrow> path_from cur (CHR ''/'' # r) = rev cur # path_from [] r"
  by (simp add: component_def)

lemma path_from_show:
  "wf_path p \<Longrightarrow> component (rev cur) \<Longrightarrow>
   path_from cur (concat (map (\<lambda>c. ''/'' @ c) p)) = rev cur # p"
proof (induction p arbitrary: cur)
  case Nil
  then show ?case by (simp add: component_def)
next
  case (Cons c p)
  then have c: "component c" and p: "wf_path p" by simp_all
  have "path_from [] (c @ concat (map (\<lambda>c. ''/'' @ c) p)) = c # p"
    using Cons.IH [OF p, of "rev c"] c by (simp add: path_from_component component_def)
  with Cons.prems(2) show ?case by (simp add: component_def)
qed

lemma path_of_show [simp]: "wf_path p \<Longrightarrow> path_of (show_path p) = p"
proof (cases p)
  case Nil
  then show ?thesis by (simp add: path_of_def show_path_def)
next
  case (Cons c q)
  assume "wf_path p"
  with Cons have "component c" "wf_path q" by simp_all
  then have "path_from (rev c) (concat (map (\<lambda>c. ''/'' @ c) q)) = c # q"
    using path_from_show [of q "rev c"] by (simp add: comp_def)
  with \<open>component c\<close> Cons show ?thesis
    by (simp add: path_of_def show_path_def path_from_component component_def)
qed

lemma dec_path_enc [simp]: "wf_path p \<Longrightarrow> dec_path (enc_path p) = Some p"
  by (simp add: dec_path_def enc_path_def)

lemma dec_metadata_enc [simp]:
  assumes "wf_metadata m"
  shows "dec_metadata (enc_metadata m) = Some m"
  using assms
  by (simp add: dec_metadata_def enc_metadata_def wf_metadata_def dec_struct_JObj)

lemma component_show_nat [simp]: "component (show_nat n)"
proof -
  have "\<not> is_digit (CHR ''/'')" by (simp add: is_digit_def byte_def)
  then have "CHR ''/'' \<notin> set (show_nat n)"
    using show_nat_digits by blast
  moreover have "show_nat n \<noteq> ''.''"
    using show_nat_no_dot [of n] by auto
  ultimately show ?thesis by (simp add: component_def)
qed

section \<open>Cleanup outcome\<close>

record cleanup_outcome =
  co_guest_processes_killed :: bool
  co_remaining_pids :: "int list"
  co_steps :: "string list"

definition from_parts :: "int list \<Rightarrow> string list \<Rightarrow> cleanup_outcome" where
  "from_parts pids steps = \<lparr>co_guest_processes_killed = (pids = []),
     co_remaining_pids = pids, co_steps = steps\<rparr>"

definition outcome_summary :: "cleanup_outcome \<Rightarrow> cleanup_summary" where
  "outcome_summary c = \<lparr>cs_guest_processes_killed = co_guest_processes_killed c,
     cs_remaining_pids = co_remaining_pids c, cs_steps = co_steps c\<rparr>"

definition mk_error :: "string \<Rightarrow> string \<Rightarrow> error_detail" where
  "mk_error code msg = \<lparr>ed_code = code, ed_message = Some msg\<rparr>"

end
