(* ===== verification/World.thy ===== *)
theory World
  imports Metadata
begin

text \<open>
  The state an operation of the daemon runs in, and the calls of the standard library the daemon
  makes on it: the file system, the clocks, child processes and external commands.

  The environment \<open>environ\<close> holds what the program does not decide.  Every call of the operating
  system advances \<open>tick\<close> and reads the environment's answer for that tick: whether the call fails
  (\<open>e_fault\<close>; a failed write may leave part of the text behind, a failed removal part of the tree
  removed), what an external command returns, how a child process exits, what the clocks show,
  and what other processes wrote meanwhile to the paths in \<open>e_area\<close> (logs, images, guest
  directories).  Theorems quantify over the environment.  The printers (pretty and compact) and
  the parser of JSON text (\<open>serde_json\<close>) are functions of the environment; \<open>codec_ok\<close> is the
  documented law that a printed document parses to itself, also with a line break after it, and
  that the compact form is one line.  \<open>e_overflow\<close> says whether the build checks arithmetic
  overflow (a debug build panics, a release build wraps).

  Links are not part of the file system modelled here; log output of the \<open>tracing\<close> crate is not
  modelled.
\<close>

section \<open>Errors\<close>

datatype io_kind = NotFound | ConnectionRefused | ConnectionReset | UnexpectedEof | InvalidData
  | WouldBlock | OtherKind

datatype io_error = IoError (io_kind: io_kind) (io_text: string)

text \<open>\<open>anyhow::Error\<close>: a message under layers of context, the outermost first.  \<open>to_string\<close> shows
  the outermost layer, the alternate form \<open>{:#}\<close> the whole chain.\<close>

datatype anyhow = Msg string | Ctx string anyhow

fun err_string :: "anyhow \<Rightarrow> string" where
  "err_string (Msg m) = m"
| "err_string (Ctx c e) = c"

fun err_chain :: "anyhow \<Rightarrow> string" where
  "err_chain (Msg m) = m"
| "err_chain (Ctx c e) = c @ '': '' @ err_chain e"

definition from_io :: "io_error \<Rightarrow> anyhow" where "from_io e = Msg (io_text e)"

definition with_ctx :: "string \<Rightarrow> io_error \<Rightarrow> anyhow" where
  "with_ctx c e = Ctx c (from_io e)"

section \<open>State\<close>

datatype node = Dir | File string

type_synonym filesystem = "path \<Rightarrow> node option"

record fault =
  f_err :: io_error
  f_text :: "string option"
  f_pick :: "path \<Rightarrow> bool"

datatype proc_status = Exited int | Signaled int

record cmd_output =
  out_status :: proc_status
  out_stdout :: string
  out_stderr :: string

record command =
  cmd_argv :: "string list"
  cmd_env :: "(string \<times> string) list"
  cmd_dir :: "path option"
  cmd_log :: path

record environ =
  e_fault :: "nat \<Rightarrow> fault option"
  e_area :: "path \<Rightarrow> bool"
  e_outside :: "nat \<Rightarrow> path \<Rightarrow> node option"
  e_lag :: "nat \<Rightarrow> nat"
  e_system :: "nat \<Rightarrow> nat option"
  e_fuel :: nat
  e_listing :: "nat \<Rightarrow> path \<Rightarrow> string list"
  e_command :: "nat \<Rightarrow> string list \<Rightarrow> io_error + cmd_output"
  e_spawn :: "nat \<Rightarrow> command \<Rightarrow> io_error + int"
  e_try_wait :: "nat \<Rightarrow> int \<Rightarrow> io_error + proc_status option"
  e_wait :: "nat \<Rightarrow> int \<Rightarrow> (io_error + proc_status) option"
  e_kill :: "nat \<Rightarrow> int \<Rightarrow> int \<Rightarrow> int option"
  e_status_text :: "proc_status \<Rightarrow> string"
  e_errno_text :: "int \<Rightarrow> string"
  e_user :: "string \<Rightarrow> nat option"
  e_group :: "string \<Rightarrow> nat option"
  e_pid :: nat
  e_early :: "nat \<Rightarrow> bool"
  e_print :: "json \<Rightarrow> string"
  e_compact :: "json \<Rightarrow> string"
  e_parse :: "string \<Rightarrow> string + json"
  e_decode_text :: "json \<Rightarrow> string"
  e_join_text :: "nat \<Rightarrow> string"
  e_overflow :: bool

record exit_info =
  x_code :: "int option"
  x_signal :: "int option"

record guest_handle =
  h_pid :: int
  h_child :: bool
  h_exit :: "exit_info option"
  h_locked :: bool

datatype thread =
    ExitWatcher nat nat
  | PurgeTrash path
  | ResetPermissions
  | FinishDestroy nat

datatype event =
    Ran "string list"
  | Spawned command int
  | SignalSent int int
  | Slept nat
  | ModeSet path nat
  | Started thread

record sys =
  env :: environ
  fs :: filesystem
  tick :: nat
  now :: nat
  registry :: "nat \<Rightarrow> nat option"
  handles :: "nat \<Rightarrow> guest_handle"
  next_handle :: nat
  cache :: "nat \<Rightarrow> instance_metadata option"
  trace :: "event list"

type_synonym 'a io = "(sys, 'a, io_error) act"
type_synonym 'a res = "(sys, 'a, anyhow) act"
type_synonym 'a det = "(sys, 'a, error_detail) act"

definition codec_ok :: "environ \<Rightarrow> bool" where
  "codec_ok e \<longleftrightarrow> (\<forall>j. e_parse e (e_print e j) = Inr j \<and> utf8 (e_print e j)
     \<and> e_parse e (e_compact e j) = Inr j \<and> utf8 (e_compact e j)
     \<and> e_parse e (e_compact e j @ [newline]) = Inr j
     \<and> newline \<notin> set (e_compact e j) \<and> trim (e_compact e j) \<noteq> [])"

text \<open>\<open>serde_json::from_str\<close>: the text is parsed, then decoded; both errors are messages.\<close>

definition from_str :: "environ \<Rightarrow> (json \<Rightarrow> 'a option) \<Rightarrow> string \<Rightarrow> string + 'a" where
  "from_str e dec text = (case e_parse e text of
       Inl msg \<Rightarrow> Inl msg
     | Inr j \<Rightarrow> (case dec j of None \<Rightarrow> Inl (e_decode_text e j) | Some x \<Rightarrow> Inr x))"

text \<open>Units of the monotonic clock: nanoseconds.\<close>

definition secs :: "nat \<Rightarrow> nat" where "secs n = n * 1000000000"
definition millis :: "nat \<Rightarrow> nat" where "millis n = n * 1000000"

section \<open>Calls\<close>

definition step :: "sys \<Rightarrow> sys" where
  "step s = s\<lparr>tick := Suc (tick s), now := now s + e_lag (env s) (tick s),
     fs := (\<lambda>p. if e_area (env s) p then e_outside (env s) (tick s) p else fs s p)\<rparr>"

definition syscall :: "(fault \<Rightarrow> sys \<Rightarrow> sys) \<Rightarrow> 'a io \<Rightarrow> 'a io" where
  "syscall residue body = (\<lambda>s.
     case e_fault (env s) (tick s) of
       Some f \<Rightarrow> (Err (f_err f), residue f (step s))
     | None \<Rightarrow> body (step s))"

definition plain_call :: "unit io" where
  "plain_call = syscall (\<lambda>f s. s) (ret ())"

definition emit :: "event \<Rightarrow> (sys, unit, 'e) act" where
  "emit e = modify (\<lambda>s. s\<lparr>trace := trace s @ [e]\<rparr>)"

definition io :: "'a io \<Rightarrow> 'a res" where "io m = mapErr from_io m"

definition ctx :: "string \<Rightarrow> 'a io \<Rightarrow> 'a res" where "ctx c m = mapErr (with_ctx c) m"

definition det :: "string \<Rightarrow> 'a res \<Rightarrow> 'a det" where
  "det code m = mapErr (\<lambda>e. mk_error code (err_string e)) m"

section \<open>File system\<close>

definition enoent :: io_error where
  "enoent = IoError NotFound ''No such file or directory (os error 2)''"
definition enotdir :: io_error where
  "enotdir = IoError OtherKind ''Not a directory (os error 20)''"
definition eisdir :: io_error where
  "eisdir = IoError OtherKind ''Is a directory (os error 21)''"
definition enotempty :: io_error where
  "enotempty = IoError OtherKind ''Directory not empty (os error 39)''"
definition einval :: io_error where
  "einval = IoError OtherKind ''Invalid argument (os error 22)''"
definition bad_utf8 :: io_error where
  "bad_utf8 = IoError InvalidData ''stream did not contain valid UTF-8''"

definition is_file :: "node option \<Rightarrow> bool" where
  "is_file n \<longleftrightarrow> (case n of Some (File _) \<Rightarrow> True | _ \<Rightarrow> False)"

text \<open>\<open>Path::exists\<close>, \<open>Path::is_dir\<close>: false for the empty path and whenever the status cannot be
  read.\<close>

definition path_exists :: "path \<Rightarrow> sys \<Rightarrow> bool" where
  "path_exists p s \<longleftrightarrow> p \<noteq> [] \<and> fs s p \<noteq> None"

definition is_dir :: "path \<Rightarrow> sys \<Rightarrow> bool" where
  "is_dir p s \<longleftrightarrow> fs s p = Some Dir"

definition mkdirs :: "(path \<Rightarrow> bool) \<Rightarrow> path \<Rightarrow> filesystem \<Rightarrow> filesystem" where
  "mkdirs pick p f = (\<lambda>q. if prefix q p \<and> f q = None \<and> pick q then Some Dir else f q)"

definition create_dir_all :: "path \<Rightarrow> unit io" where
  "create_dir_all p = syscall
     (\<lambda>f s. s\<lparr>fs := mkdirs (f_pick f) p (fs s)\<rparr>)
     (\<lambda>s. if \<exists>q \<in> set (prefixes p). is_file (fs s q) then (Err enotdir, s)
          else (Ok (), s\<lparr>fs := mkdirs (\<lambda>_. True) p (fs s)\<rparr>))"

text \<open>Opening for writing: the target is no directory and its parent is one.\<close>

definition open_error :: "path \<Rightarrow> filesystem \<Rightarrow> io_error option" where
  "open_error p f =
     (if f p = Some Dir then Some eisdir
      else if p = [] then Some enoent
      else case f (butlast p) of
        None \<Rightarrow> Some enoent
      | Some Dir \<Rightarrow> None
      | Some (File _) \<Rightarrow> Some enotdir)"

definition put_file :: "path \<Rightarrow> string \<Rightarrow> sys \<Rightarrow> sys" where
  "put_file p t s = s\<lparr>fs := (fs s)(p := Some (File t))\<rparr>"

definition residue_text :: "path \<Rightarrow> fault \<Rightarrow> sys \<Rightarrow> sys" where
  "residue_text p f s = (case f_text f of None \<Rightarrow> s | Some t \<Rightarrow> put_file p t s)"

text \<open>\<open>fs::write\<close>, and \<open>File::create\<close> or \<open>OpenOptions\<close> with \<open>create\<close> and \<open>truncate\<close> for the empty
  text.\<close>

definition write_file :: "path \<Rightarrow> string \<Rightarrow> unit io" where
  "write_file p t = syscall (residue_text p)
     (\<lambda>s. case open_error p (fs s) of
        Some e \<Rightarrow> (Err e, s)
      | None \<Rightarrow> (Ok (), put_file p t s))"

text \<open>\<open>OpenOptions\<close> with \<open>create\<close>, \<open>read\<close>, \<open>write\<close> and no truncation.\<close>

definition open_rw :: "path \<Rightarrow> unit io" where
  "open_rw p = syscall (\<lambda>f s. s)
     (\<lambda>s. case open_error p (fs s) of
        Some e \<Rightarrow> (Err e, s)
      | None \<Rightarrow> (Ok (), if fs s p = None then put_file p [] s else s))"

text \<open>Writing at the end of an open file; a file unlinked meanwhile is out of reach.\<close>

definition append_file :: "path \<Rightarrow> string \<Rightarrow> unit io" where
  "append_file p t = syscall
     (\<lambda>f s. case (fs s p, f_text f) of
        (Some (File u), Some v) \<Rightarrow> put_file p (u @ v) s | _ \<Rightarrow> s)
     (\<lambda>s. case fs s p of Some (File u) \<Rightarrow> (Ok (), put_file p (u @ t) s) | _ \<Rightarrow> (Ok (), s))"

definition set_len0 :: "path \<Rightarrow> unit io" where
  "set_len0 p = syscall (\<lambda>f s. s)
     (\<lambda>s. case fs s p of Some (File u) \<Rightarrow> (Ok (), put_file p [] s) | _ \<Rightarrow> (Ok (), s))"

definition open_read :: "path \<Rightarrow> unit io" where
  "open_read p = syscall (\<lambda>f s. s)
     (\<lambda>s. if path_exists p s then (Ok (), s) else (Err enoent, s))"

definition read_to_string :: "path \<Rightarrow> string io" where
  "read_to_string p = syscall (\<lambda>f s. s)
     (\<lambda>s. case fs s p of
        None \<Rightarrow> (Err enoent, s)
      | Some Dir \<Rightarrow> (Err eisdir, s)
      | Some (File t) \<Rightarrow> if utf8 t then (Ok t, s) else (Err bad_utf8, s))"

definition move_node :: "path \<Rightarrow> path \<Rightarrow> filesystem \<Rightarrow> filesystem" where
  "move_node a b f = (\<lambda>q. if prefix b q then f (a @ drop (length b) q)
     else if prefix a q then None else f q)"

definition rename :: "path \<Rightarrow> path \<Rightarrow> unit io" where
  "rename a b = syscall (\<lambda>f s. s)
     (\<lambda>s. case fs s a of
        None \<Rightarrow> (Err enoent, s)
      | Some (File t) \<Rightarrow>
          (case open_error b (fs s) of
             Some e \<Rightarrow> (Err e, s)
           | None \<Rightarrow> (Ok (), s\<lparr>fs := (fs s)(a := None, b := Some (File t))\<rparr>))
      | Some Dir \<Rightarrow>
          if prefix a b then (if a = b then (Ok (), s) else (Err einval, s))
          else if prefix b a then (Err enotempty, s)
          else if is_file (fs s b) then (Err enotdir, s)
          else if fs s b = Some Dir \<and> e_listing (env s) (tick s) b \<noteq> [] then (Err enotempty, s)
          else if fs s (butlast b) \<noteq> Some Dir then (Err enoent, s)
          else (Ok (), s\<lparr>fs := move_node a b (fs s)\<rparr>))"

definition remove_file :: "path \<Rightarrow> unit io" where
  "remove_file p = syscall (\<lambda>f s. s)
     (\<lambda>s. case fs s p of
        None \<Rightarrow> (Err enoent, s)
      | Some Dir \<Rightarrow> (Err eisdir, s)
      | Some (File t) \<Rightarrow> (Ok (), s\<lparr>fs := (fs s)(p := None)\<rparr>))"

definition remove_tree :: "(path \<Rightarrow> bool) \<Rightarrow> path \<Rightarrow> filesystem \<Rightarrow> filesystem" where
  "remove_tree pick p f = (\<lambda>q. if prefix p q \<and> pick q then None else f q)"

definition remove_dir_all :: "path \<Rightarrow> unit io" where
  "remove_dir_all p = syscall
     (\<lambda>f s. s\<lparr>fs := remove_tree (f_pick f) p (fs s)\<rparr>)
     (\<lambda>s. case fs s p of
        None \<Rightarrow> (Err enoent, s)
      | Some (File t) \<Rightarrow> (Err enotdir, s)
      | Some Dir \<Rightarrow> (Ok (), s\<lparr>fs := remove_tree (\<lambda>_. True) p (fs s)\<rparr>))"

definition copy_file :: "path \<Rightarrow> path \<Rightarrow> unit io" where
  "copy_file a b = syscall (residue_text b)
     (\<lambda>s. case fs s a of
        None \<Rightarrow> (Err enoent, s)
      | Some Dir \<Rightarrow> (Err einval, s)
      | Some (File t) \<Rightarrow>
          (case open_error b (fs s) of
             Some e \<Rightarrow> (Err e, s)
           | None \<Rightarrow> (Ok (), put_file b t s)))"

definition set_permissions :: "path \<Rightarrow> nat \<Rightarrow> unit io" where
  "set_permissions p mode = syscall (\<lambda>f s. s)
     (\<lambda>s. if path_exists p s then (Ok (), s\<lparr>trace := trace s @ [ModeSet p mode]\<rparr>)
          else (Err enoent, s))"

text \<open>\<open>fs::read_dir\<close>: the names of the entries, in the order of the operating system.\<close>

definition read_dir :: "path \<Rightarrow> string list io" where
  "read_dir p = syscall (\<lambda>f s. s)
     (\<lambda>s. case fs s p of
        None \<Rightarrow> (Err enoent, s)
      | Some (File t) \<Rightarrow> (Err enotdir, s)
      | Some Dir \<Rightarrow> (Ok (e_listing (env s) (tick s) p), s))"

section \<open>Clocks, commands, processes\<close>

definition epoch_secs :: "nat res" where
  "epoch_secs = (\<lambda>s. case e_system (env s) (tick s) of
       Some n \<Rightarrow> (Ok n, step s)
     | None \<Rightarrow> (Err (Msg ''second time provided was later than self''), step s))"

definition instant_now :: "(sys, nat, 'e) act" where
  "instant_now = (\<lambda>s. (Ok (now (step s)), step s))"

text \<open>\<open>Instant + Duration\<close> panics when the sum does not fit the clock's 63 bits of seconds.\<close>

definition instant_add :: "nat \<Rightarrow> nat \<Rightarrow> (sys, nat, 'e) act" where
  "instant_add t d = (if t + d < secs (2 ^ 63) then ret (t + d) else panic)"

definition sleep :: "nat \<Rightarrow> (sys, unit, 'e) act" where
  "sleep d = (\<lambda>s. (Ok (), (step s)\<lparr>now := now (step s) + d, trace := trace s @ [Slept d]\<rparr>))"

definition run_cmd :: "string list \<Rightarrow> cmd_output io" where
  "run_cmd argv = (\<lambda>s. case e_command (env s) (tick s) argv of
       Inl e \<Rightarrow> (Err e, step s)
     | Inr out \<Rightarrow> (Ok out, (step s)\<lparr>trace := trace s @ [Ran argv]\<rparr>))"

definition spawn_cmd :: "command \<Rightarrow> int io" where
  "spawn_cmd c = (\<lambda>s. case e_spawn (env s) (tick s) c of
       Inl e \<Rightarrow> (Err e, step s)
     | Inr pid \<Rightarrow> (Ok pid, (step s)\<lparr>trace := trace s @ [Spawned c pid]\<rparr>))"

definition status_success :: "proc_status \<Rightarrow> bool" where
  "status_success st \<longleftrightarrow> st = Exited 0"

definition status_code :: "proc_status \<Rightarrow> int option" where
  "status_code st = (case st of Exited c \<Rightarrow> Some c | Signaled _ \<Rightarrow> None)"

definition status_signal :: "proc_status \<Rightarrow> int option" where
  "status_signal st = (case st of Exited _ \<Rightarrow> None | Signaled n \<Rightarrow> Some n)"

definition spawn_thread :: "thread \<Rightarrow> (sys, unit, 'e) act" where
  "spawn_thread t = emit (Started t)"

end
