(* ===== verification/WorldLaws.thy ===== *)
theory WorldLaws
  imports World
begin

text \<open>
  Laws of the calls in \<open>World\<close>.

  \<open>frame A I\<close> relates two states between which only paths in \<open>A\<close> (and paths other processes
  write) and registry and cache entries of
  ids in \<open>I\<close> may have changed; no guest handle has become locked, the clock has not gone back and
  the trace has only grown.  It interprets the locale \<open>effect\<close>, so an operation built from the
  combinators stays within a frame as soon as the calls it makes do.

  A calm environment has no failing calls and no other writer; there every call has one equation
  for its result (\<open>calm_simps\<close>).
\<close>

section \<open>Frames\<close>

definition frame :: "path set \<Rightarrow> nat set \<Rightarrow> sys \<Rightarrow> sys \<Rightarrow> bool" where
  "frame A I s t \<longleftrightarrow> env t = env s
     \<and> (\<forall>p. p \<notin> A \<longrightarrow> \<not> e_area (env s) p \<longrightarrow> fs t p = fs s p)
     \<and> (\<forall>i. i \<notin> I \<longrightarrow> registry t i = registry s i \<and> cache t i = cache s i)
     \<and> (\<forall>a. h_locked (handles t a) \<longrightarrow> h_locked (handles s a))
     \<and> now s \<le> now t \<and> prefix (trace s) (trace t)"

lemma frameI:
  assumes "env t = env s" and "\<And>p. p \<notin> A \<Longrightarrow> \<not> e_area (env s) p \<Longrightarrow> fs t p = fs s p"
    and "\<And>i. i \<notin> I \<Longrightarrow> registry t i = registry s i"
    and "\<And>i. i \<notin> I \<Longrightarrow> cache t i = cache s i"
    and "\<And>a. h_locked (handles t a) \<Longrightarrow> h_locked (handles s a)" and "now s \<le> now t"
    and "prefix (trace s) (trace t)"
  shows "frame A I s t"
  using assms by (simp add: frame_def)

lemma frame_mono: "frame A I s t \<Longrightarrow> A \<subseteq> B \<Longrightarrow> I \<subseteq> J \<Longrightarrow> frame B J s t"
  by (auto simp: frame_def)

lemma frame_fs: "frame A I s t \<Longrightarrow> p \<notin> A \<Longrightarrow> \<not> e_area (env s) p \<Longrightarrow> fs t p = fs s p"
  by (simp add: frame_def)

lemma frame_env: "frame A I s t \<Longrightarrow> env t = env s"
  by (simp add: frame_def)

lemma frame_registry: "frame A I s t \<Longrightarrow> i \<notin> I \<Longrightarrow> registry t i = registry s i"
  by (simp add: frame_def)

lemma frame_cache: "frame A I s t \<Longrightarrow> i \<notin> I \<Longrightarrow> cache t i = cache s i"
  by (simp add: frame_def)

lemma frame_locked: "frame A I s t \<Longrightarrow> \<not> h_locked (handles s a) \<Longrightarrow> \<not> h_locked (handles t a)"
  by (auto simp: frame_def)

lemma frame_trace: "frame A I s t \<Longrightarrow> prefix (trace s) (trace t)"
  by (simp add: frame_def)

lemma frame_now: "frame A I s t \<Longrightarrow> now s \<le> now t"
  by (simp add: frame_def)

interpretation fr: effect "frame A I" for A I
proof
  show "frame A I s s" for s by (simp add: frame_def)
next
  fix s t u
  assume "frame A I s t" and "frame A I t u"
  then show "frame A I s u"
    unfolding frame_def by (metis order_trans prefix_order.order_trans)
qed

text \<open>An invariant of states, kept whatever the outcome.\<close>

definition kept :: "(sys \<Rightarrow> bool) \<Rightarrow> sys \<Rightarrow> sys \<Rightarrow> bool" where
  "kept P s t \<longleftrightarrow> (P s \<longrightarrow> P t)"

interpretation kp: effect "kept P" for P
  by unfold_locales (auto simp: kept_def)

lemma within_frame_mono: "within (frame A I) m \<Longrightarrow> A \<subseteq> B \<Longrightarrow> I \<subseteq> J \<Longrightarrow> within (frame B J) m"
  unfolding within_def by (blast intro: frame_mono)

named_theorems frame_intros

lemmas [frame_intros] = fr.within_intros

section \<open>The step of a call\<close>

lemma step_simps [simp]:
  "env (step s) = env s" "registry (step s) = registry s" "handles (step s) = handles s"
  "next_handle (step s) = next_handle s" "cache (step s) = cache s" "trace (step s) = trace s"
  "tick (step s) = Suc (tick s)"
  by (simp_all add: step_def)

lemma step_fs: "\<not> e_area (env s) p \<Longrightarrow> fs (step s) p = fs s p"
  by (simp add: step_def)

lemma step_now: "now s \<le> now (step s)"
  by (simp add: step_def)

lemma frame_step: "frame A I s (step s)"
  by (rule frameI) (simp_all add: step_fs step_now)

lemma frame_syscall:
  assumes "\<And>f s. frame A I s (residue f s)" and "within (frame A I) body"
  shows "within (frame A I) (syscall residue body)"
proof (rule withinI)
  fix s
  show "frame A I s (snd (syscall residue body s))"
  proof (cases "e_fault (env s) (tick s)")
    case None
    have "frame A I (step s) (snd (body (step s)))"
      using assms(2) by (simp add: within_def)
    then show ?thesis using None fr.chain [OF frame_step] by (simp add: syscall_def)
  next
    case (Some f)
    then show ?thesis using fr.chain [OF frame_step assms(1)] by (simp add: syscall_def)
  qed
qed

lemma put_file_simps [simp]:
  "env (put_file p t s) = env s" "registry (put_file p t s) = registry s"
  "handles (put_file p t s) = handles s" "next_handle (put_file p t s) = next_handle s"
  "cache (put_file p t s) = cache s" "trace (put_file p t s) = trace s"
  "tick (put_file p t s) = tick s" "now (put_file p t s) = now s"
  "fs (put_file p t s) = (fs s)(p := Some (File t))"
  by (simp_all add: put_file_def)

lemma frame_put_file: "p \<in> A \<Longrightarrow> frame A I s (put_file p t s)"
  by (rule frameI) auto

lemma frame_residue_text: "p \<in> A \<Longrightarrow> frame A I s (residue_text p f s)"
  by (auto simp: residue_text_def frame_put_file fr.stay split: option.split)

lemma frame_fs_update: "(\<And>p. p \<notin> A \<Longrightarrow> g p = fs s p) \<Longrightarrow> frame A I s (s\<lparr>fs := g\<rparr>)"
  by (rule frameI) auto

section \<open>Frames of the calls\<close>

lemma frame_plain_call [frame_intros]: "within (frame A I) plain_call"
  unfolding plain_call_def by (intro frame_syscall fr.stay fr.within_ret)

lemma frame_emit [frame_intros]: "within (frame A I) (emit e)"
  unfolding emit_def by (intro fr.within_modify frameI) auto

lemma frame_spawn_thread [frame_intros]: "within (frame A I) (spawn_thread t)"
  unfolding spawn_thread_def by (rule frame_emit)

lemma frame_io [frame_intros]: "within (frame A I) m \<Longrightarrow> within (frame A I) (io m)"
  unfolding io_def by (rule fr.within_mapErr)

lemma frame_ctx [frame_intros]: "within (frame A I) m \<Longrightarrow> within (frame A I) (ctx c m)"
  unfolding ctx_def by (rule fr.within_mapErr)

lemma frame_det [frame_intros]: "within (frame A I) m \<Longrightarrow> within (frame A I) (det c m)"
  unfolding det_def by (rule fr.within_mapErr)

lemma frame_create_dir_all [frame_intros]:
  assumes "{q. prefix q p} \<subseteq> A"
  shows "within (frame A I) (create_dir_all p)"
  unfolding create_dir_all_def
proof (rule frame_syscall)
  have *: "frame A I s (s\<lparr>fs := mkdirs pick p (fs s)\<rparr>)" for pick s
    using assms by (intro frame_fs_update) (auto simp: mkdirs_def)
  then show "frame A I s (s\<lparr>fs := mkdirs (f_pick f) p (fs s)\<rparr>)" for f s .
  show "within (frame A I)
      (\<lambda>s. if \<exists>q \<in> set (prefixes p). is_file (fs s q) then (Err enotdir, s)
        else (Ok (), s\<lparr>fs := mkdirs (\<lambda>_. True) p (fs s)\<rparr>))"
    using * by (intro withinI) (simp add: fr.stay)
qed

lemma frame_write_file [frame_intros]: "p \<in> A \<Longrightarrow> within (frame A I) (write_file p t)"
  unfolding write_file_def
  by (intro frame_syscall frame_residue_text withinI)
    (auto split: option.split intro: fr.stay frame_put_file)

lemma frame_open_rw [frame_intros]: "p \<in> A \<Longrightarrow> within (frame A I) (open_rw p)"
  unfolding open_rw_def
  by (intro frame_syscall fr.stay withinI)
    (auto split: option.split intro: fr.stay frame_put_file)

lemma frame_append_file [frame_intros]: "p \<in> A \<Longrightarrow> within (frame A I) (append_file p t)"
  unfolding append_file_def
  by (intro frame_syscall withinI)
    (auto split: option.split node.split intro: fr.stay frame_put_file)

lemma frame_set_len0 [frame_intros]: "p \<in> A \<Longrightarrow> within (frame A I) (set_len0 p)"
  unfolding set_len0_def
  by (intro frame_syscall fr.stay withinI)
    (auto split: option.split node.split intro: fr.stay frame_put_file)

lemma frame_open_read [frame_intros]: "within (frame A I) (open_read p)"
  unfolding open_read_def by (intro frame_syscall fr.stay withinI) (simp add: fr.stay)

lemma frame_read_to_string [frame_intros]: "within (frame A I) (read_to_string p)"
  unfolding read_to_string_def
  by (intro frame_syscall fr.stay withinI) (simp add: fr.stay split: option.split node.split)

lemma frame_rename [frame_intros]:
  assumes "{q. prefix a q} \<subseteq> A" and "{q. prefix b q} \<subseteq> A"
  shows "within (frame A I) (rename a b)"
  unfolding rename_def
proof (intro frame_syscall fr.stay withinI)
  fix s :: sys
  have mv: "frame A I s (s\<lparr>fs := move_node a b (fs s)\<rparr>)"
    using assms by (intro frame_fs_update) (auto simp: move_node_def)
  have fl: "frame A I s (s\<lparr>fs := (fs s)(a := None, b := Some (File t))\<rparr>)" for t
    using assms by (intro frame_fs_update) auto
  have fb: "frame A I s (s\<lparr>fs := (fs s)(b := Some (File t))\<rparr>)" for t
    using assms by (intro frame_fs_update) auto
  show "frame A I s (snd (case fs s a of
        None \<Rightarrow> (Err enoent, s)
      | Some (File t) \<Rightarrow>
          (case open_error b (fs s) of
             Some e \<Rightarrow> (Err e, s)
           | None \<Rightarrow> (Ok (), s\<lparr>fs := (fs s)(a := None, b := Some (File t))\<rparr>))
      | Some Dir \<Rightarrow>
          if prefix a b then (if a = b then (Ok (), s) else (Err einval, s))
          else if prefix b a then (Err enotempty, s)
          else if is_file (fs s b) then (Err enotdir, s)
          else if fs s b = Some Dir \<and> e_listing (env s) (tick s) b \<noteq> [] then (Err enotempty, s)
          else if fs s (butlast b) \<noteq> Some Dir then (Err enoent, s)
          else (Ok (), s\<lparr>fs := move_node a b (fs s)\<rparr>)))"
    using mv fl fb by (simp add: fr.stay split: option.split node.split)
qed

lemma frame_remove_file [frame_intros]:
  assumes "p \<in> A" shows "within (frame A I) (remove_file p)"
  unfolding remove_file_def
proof (intro frame_syscall fr.stay withinI)
  fix s
  have "frame A I s (s\<lparr>fs := (fs s)(p := None)\<rparr>)"
    using assms by (intro frame_fs_update) auto
  then show "frame A I s (snd (case fs s p of None \<Rightarrow> (Err enoent, s)
      | Some Dir \<Rightarrow> (Err eisdir, s) | Some (File t) \<Rightarrow> (Ok (), s\<lparr>fs := (fs s)(p := None)\<rparr>)))"
    by (simp add: fr.stay split: option.split node.split)
qed

lemma frame_remove_dir_all [frame_intros]:
  assumes "{q. prefix p q} \<subseteq> A"
  shows "within (frame A I) (remove_dir_all p)"
  unfolding remove_dir_all_def
proof (intro frame_syscall withinI)
  fix s
  have *: "frame A I s (s\<lparr>fs := remove_tree pick p (fs s)\<rparr>)" for pick s
    using assms by (intro frame_fs_update) (auto simp: remove_tree_def)
  then show "frame A I s (s\<lparr>fs := remove_tree (f_pick f) p (fs s)\<rparr>)" for f .
  show "frame A I s (snd (case fs s p of
        None \<Rightarrow> (Err enoent, s)
      | Some (File t) \<Rightarrow> (Err enotdir, s)
      | Some Dir \<Rightarrow> (Ok (), s\<lparr>fs := remove_tree (\<lambda>_. True) p (fs s)\<rparr>)))"
    using * by (simp add: fr.stay split: option.split node.split)
qed

lemma frame_copy_file [frame_intros]: "b \<in> A \<Longrightarrow> within (frame A I) (copy_file a b)"
  unfolding copy_file_def
  by (intro frame_syscall frame_residue_text withinI)
    (auto split: option.split node.split intro: fr.stay frame_put_file)

lemma frame_set_permissions [frame_intros]: "within (frame A I) (set_permissions p m)"
  unfolding set_permissions_def
  by (intro frame_syscall fr.stay withinI) (auto intro!: frameI)

lemma frame_read_dir [frame_intros]: "within (frame A I) (read_dir p)"
  unfolding read_dir_def
  by (intro frame_syscall fr.stay withinI) (simp add: fr.stay split: option.split node.split)

lemma frame_epoch_secs [frame_intros]: "within (frame A I) epoch_secs"
  unfolding epoch_secs_def by (intro withinI) (simp add: frame_step split: option.split)

lemma frame_instant_now [frame_intros]: "within (frame A I) instant_now"
  unfolding instant_now_def by (intro withinI) (simp add: frame_step)

lemma frame_instant_add [frame_intros]: "within (frame A I) (instant_add t d)"
  unfolding instant_add_def by (simp add: fr.within_ret fr.within_panic)

lemma frame_sleep [frame_intros]: "within (frame A I) (sleep d)"
  unfolding sleep_def
  by (intro withinI frameI) (auto simp: step_fs intro: order_trans [OF step_now])

lemma frame_run_cmd [frame_intros]: "within (frame A I) (run_cmd argv)"
  unfolding run_cmd_def
  by (intro withinI frameI) (auto simp: step_fs step_now split: sum.split sum.split_asm)

lemma frame_spawn_cmd [frame_intros]: "within (frame A I) (spawn_cmd c)"
  unfolding spawn_cmd_def
  by (intro withinI frameI) (auto simp: step_fs step_now split: sum.split sum.split_asm)

section \<open>Calls return\<close>

lemma returns_syscall [returns_intros]: "returns body \<Longrightarrow> returns (syscall residue body)"
  by (auto simp: returns_def syscall_def split: option.split)

lemma returns_calls [returns_intros]:
  "returns plain_call" "returns (create_dir_all p)" "returns (write_file p t)" "returns (open_rw p)"
  "returns (append_file p t)" "returns (set_len0 p)" "returns (open_read p)"
  "returns (read_to_string p)" "returns (rename a b)" "returns (remove_file p)"
  "returns (remove_dir_all p)" "returns (copy_file a b)" "returns (set_permissions p n)"
  "returns (read_dir p)"
  unfolding plain_call_def create_dir_all_def write_file_def open_rw_def append_file_def set_len0_def
    open_read_def read_to_string_def rename_def remove_file_def remove_dir_all_def copy_file_def
    set_permissions_def read_dir_def
  by (rule returns_syscall, simp add: returns_def split: option.split node.split)+

lemma returns_others [returns_intros]:
  "returns epoch_secs" "returns instant_now" "returns (sleep d)" "returns (run_cmd argv)"
  "returns (spawn_cmd c)" "returns (emit e)" "returns (spawn_thread t)"
  by (auto simp: returns_def epoch_secs_def instant_now_def sleep_def run_cmd_def spawn_cmd_def
      emit_def spawn_thread_def split: option.split sum.split)

lemma returns_wrappers [returns_intros]:
  "returns m \<Longrightarrow> returns (io m)" "returns m \<Longrightarrow> returns (ctx c m)"
  "returns n \<Longrightarrow> returns (det code n)"
  by (simp_all add: io_def ctx_def det_def returns_mapErr)

lemma succeeds_others [succeeds_intros]:
  "succeeds instant_now" "succeeds (sleep d)" "succeeds (emit e)" "succeeds (spawn_thread t)"
  by (simp_all add: succeeds_def instant_now_def sleep_def emit_def spawn_thread_def)

section \<open>Calm environments\<close>

definition calm :: "environ \<Rightarrow> bool" where
  "calm e \<longleftrightarrow> (\<forall>n. e_fault e n = None) \<and> (\<forall>p. \<not> e_area e p)"

lemma calm_step_fs [simp]: "calm (env s) \<Longrightarrow> fs (step s) = fs s"
  by (rule ext) (simp add: calm_def step_fs)

lemma calm_syscall [calm_simps]: "calm (env s) \<Longrightarrow> syscall residue body s = body (step s)"
  by (simp add: calm_def syscall_def)

lemma calm_plain_call [calm_simps]: "calm (env s) \<Longrightarrow> plain_call s = (Ok (), step s)"
  by (simp add: plain_call_def calm_syscall)

lemma calm_write_file [calm_simps]:
  "calm (env s) \<Longrightarrow> open_error p (fs s) = None \<Longrightarrow>
   write_file p t s = (Ok (), put_file p t (step s))"
  by (simp add: write_file_def calm_syscall)

lemma calm_append_file [calm_simps]:
  "calm (env s) \<Longrightarrow> fs s p = Some (File u) \<Longrightarrow>
   append_file p t s = (Ok (), put_file p (u @ t) (step s))"
  by (simp add: append_file_def calm_syscall)

lemma calm_open_read [calm_simps]:
  "calm (env s) \<Longrightarrow> path_exists p s \<Longrightarrow> open_read p s = (Ok (), step s)"
  by (simp add: open_read_def calm_syscall path_exists_def)

lemma calm_open_read_missing [calm_simps]:
  "calm (env s) \<Longrightarrow> \<not> path_exists p s \<Longrightarrow> open_read p s = (Err enoent, step s)"
  by (simp add: open_read_def calm_syscall path_exists_def)

lemma calm_read_to_string [calm_simps]:
  "calm (env s) \<Longrightarrow> fs s p = Some (File t) \<Longrightarrow> utf8 t \<Longrightarrow> read_to_string p s = (Ok t, step s)"
  by (simp add: read_to_string_def calm_syscall)

lemma calm_epoch_secs [calm_simps]:
  "e_system (env s) (tick s) = Some n \<Longrightarrow> epoch_secs s = (Ok n, step s)"
  by (simp add: epoch_secs_def)

lemma calm_io [calm_simps]: "m s = (Ok a, t) \<Longrightarrow> io m s = (Ok a, t)"
  by (simp add: io_def)
lemma calm_ctx [calm_simps]: "m s = (Ok a, t) \<Longrightarrow> ctx c m s = (Ok a, t)"
  by (simp add: ctx_def)
lemma calm_det [calm_simps]: "m s = (Ok a, t) \<Longrightarrow> det c m s = (Ok a, t)"
  by (simp add: det_def)

end
