(* ===== verification/Util.thy ===== *)
theory Util
  imports WorldLaws
begin

text \<open>
  \<open>cuttlefish/cfctl/src/daemon/util.rs\<close>: the bounded tail of a log file and the two ways the
  daemon runs an external command.
\<close>

section \<open>The tail of a file\<close>

definition max_tail_bytes :: nat where "max_tail_bytes = 1 * 1024 * 1024"

text \<open>\<open>File::metadata().len()\<close> and reading on from an offset, on an open file.\<close>

definition file_len :: "path \<Rightarrow> nat io" where
  "file_len p = syscall (\<lambda>f s. s)
     (\<lambda>s. case fs s p of Some (File t) \<Rightarrow> (Ok (length t), s) | _ \<Rightarrow> (Ok 0, s))"

definition read_from :: "path \<Rightarrow> nat \<Rightarrow> string io" where
  "read_from p off = syscall (\<lambda>f s. s)
     (\<lambda>s. case fs s p of
        None \<Rightarrow> (Ok [], s)
      | Some Dir \<Rightarrow> (Err eisdir, s)
      | Some (File t) \<Rightarrow> if utf8 (drop off t) then (Ok (drop off t), s) else (Err bad_utf8, s))"

text \<open>\<open>buf.find(newline)\<close>: the text after the first line break, nothing when there is none.\<close>

definition drop_partial_line :: "string \<Rightarrow> string" where
  "drop_partial_line buf = (case dropWhile (\<lambda>c. c \<noteq> newline) buf of [] \<Rightarrow> [] | _ # r \<Rightarrow> r)"

definition last_lines :: "nat \<Rightarrow> string \<Rightarrow> string" where
  "last_lines n buf = (let collected = str_lines buf in
     str_join [newline]
       (if length collected > n then drop (length collected - n) collected else collected))"

definition tail_file :: "path \<Rightarrow> nat \<Rightarrow> string res" where
  "tail_file p n =
     andThen (ctx (''opening log file '' @ show_path p) (open_read p)) (\<lambda>_.
     andThen (ctx (''stat log file '' @ show_path p) (file_len p)) (\<lambda>len.
     andThen (if len > max_tail_bytes
              then ctx (''seek tail for '' @ show_path p) plain_call
              else io plain_call) (\<lambda>_.
     andThen (io (read_from p (if len > max_tail_bytes then len - max_tail_bytes else 0))) (\<lambda>buf.
     ret (last_lines n (if len > max_tail_bytes then drop_partial_line buf else buf))))))"

section \<open>External commands\<close>

definition debug_strs :: "string list \<Rightarrow> string" where
  "debug_strs xs = ''['' @ str_join '', '' (map debug_str xs) @ '']''"

definition run_command_capture :: "string \<Rightarrow> string list \<Rightarrow> string res" where
  "run_command_capture cmd args =
     andThen (ctx (''launching '' @ cmd @ '' '' @ debug_strs args) (run_cmd (cmd # args))) (\<lambda>output.
     if \<not> status_success (out_status output)
     then raise (Msg (''command '' @ debug_str cmd @ '' '' @ debug_strs args @ '' failed: ''
            @ out_stderr output))
     else ret (out_stdout output))"

definition run_command_allow_failure :: "string \<Rightarrow> string list \<Rightarrow> unit res" where
  "run_command_allow_failure cmd args =
     andThen (io (run_cmd (cmd # args))) (\<lambda>output.
     if status_success (out_status output) then ret ()
     else (\<lambda>s. raise (Msg (''command '' @ debug_str cmd @ '' '' @ debug_strs args
            @ '' exited with '' @ e_status_text (env s) (out_status output))) s))"

section \<open>Frames\<close>

lemma frame_file_len [frame_intros]: "within (frame A I) (file_len p)"
  unfolding file_len_def
  by (intro frame_syscall fr.stay withinI) (simp add: fr.stay split: option.split node.split)

lemma frame_read_from [frame_intros]: "within (frame A I) (read_from p off)"
  unfolding read_from_def
  by (intro frame_syscall fr.stay withinI) (simp add: fr.stay split: option.split node.split)

lemma frame_tail_file [frame_intros]: "within (frame A I) (tail_file p n)"
  unfolding tail_file_def by (intro frame_intros)

lemma frame_run_command_capture [frame_intros]: "within (frame A I) (run_command_capture c as)"
  unfolding run_command_capture_def by (intro frame_intros)

lemma within_reader: "effect R \<Longrightarrow> within R (\<lambda>s. raise (f s) s)"
  by (simp add: within_def effect.stay)

lemma frame_raise_reading [frame_intros]: "within (frame A I) (\<lambda>s. raise (f s) s)"
  by (simp add: within_def fr.stay)

lemma frame_run_command_allow_failure [frame_intros]:
  "within (frame A I) (run_command_allow_failure c as)"
  unfolding run_command_allow_failure_def by (intro frame_intros)

section \<open>Returning\<close>

lemma returns_util [returns_intros]:
  "returns (file_len p)" "returns (read_from p off)" "returns (tail_file p n)"
  "returns (run_command_capture c as)" "returns (run_command_allow_failure c as)"
proof -
  show len: "returns (file_len p)" and rest: "returns (read_from p off)" for p off
    unfolding file_len_def read_from_def
    by (rule returns_syscall, simp add: returns_def split: option.split node.split)+
  show "returns (tail_file p n)"
    unfolding tail_file_def by (intro returns_intros len rest)
  show "returns (run_command_capture c as)"
    unfolding run_command_capture_def by (intro returns_intros)
  have "returns (\<lambda>s. raise (f s) s)" for f :: "sys \<Rightarrow> anyhow" by (simp add: returns_def)
  then show "returns (run_command_allow_failure c as)"
    unfolding run_command_allow_failure_def by (intro returns_intros)
qed

section \<open>What the tail holds\<close>

lemma strip_cr_subset: "set (strip_cr s) \<subseteq> set s"
  by (auto simp: strip_cr_def dest: in_set_butlastD)

lemma lines_from_no_newline:
  "newline \<notin> set cur \<Longrightarrow> l \<in> set (lines_from cur s) \<Longrightarrow> newline \<notin> set l"
proof (induction cur s rule: lines_from.induct)
  case (2 cur c cs)
  have "newline \<notin> set (strip_cr (rev cur))"
    using 2(3) strip_cr_subset [of "rev cur"] by auto
  with 2 show ?case by (auto split: if_splits)
qed (auto split: if_splits)

lemma str_lines_no_newline: "l \<in> set (str_lines s) \<Longrightarrow> newline \<notin> set l"
  unfolding str_lines_def by (rule lines_from_no_newline [of "[]"]) auto

lemma lines_from_join:
  assumes "\<And>l. l \<in> set ls \<Longrightarrow> newline \<notin> set l \<and> strip_cr l = l"
    and "ls \<noteq> []" and "last ls \<noteq> []"
  shows "lines_from [] (str_join [newline] ls) = ls"
  using assms
proof (induction ls)
  case Nil
  then show ?case by simp
next
  case (Cons l ls)
  have plain: "newline \<notin> set xs \<Longrightarrow> lines_from cur xs = (if cur @ xs = [] then [] else [rev cur @ xs])"
    for cur xs by (induction xs arbitrary: cur) auto
  show ?case
  proof (cases ls)
    case Nil
    with Cons.prems plain [of l "[]"] show ?thesis by simp
  next
    case (Cons l' ls')
    with Cons.prems have l: "newline \<notin> set l" "strip_cr l = l" by auto
    have "str_join [newline] (l # ls) = l @ newline # str_join [newline] ls"
      using Cons by simp
    moreover have "lines_from [] (str_join [newline] ls) = ls"
      using Cons.IH Cons.prems Cons by auto
    ultimately show ?thesis using l by (simp add: no_newline_lines)
  qed
qed

end
