(* ===== verification/Config.thy ===== *)
theory Config
  imports World
begin

text \<open>
  \<open>cuttlefish/cfctl/src/daemon/config.rs\<close> and the command-line arguments of
  \<open>cuttlefish/cfctl/src/bin/cfctl-daemon.rs\<close> that become the configuration.
\<close>

record config =
  socket_path :: path
  state_dir :: path
  etc_instances_dir :: path
  default_boot_image :: path
  default_init_boot_image :: path
  start_timeout :: nat
  adb_wait_timeout :: nat
  journal_lines :: nat
  adb_host :: string
  base_adb_port :: "16 word"
  cuttlefish_fhs :: path
  cuttlefish_instances_dir :: path
  cuttlefish_assembly_dir :: path
  cuttlefish_system_image_dir :: path
  disable_host_gpu :: bool
  guest_user :: string
  guest_primary_group :: string
  guest_capabilities :: "string list"

definition default_config :: config where
  "default_config = \<lparr>
     socket_path = [''run'', ''cfctl.sock''],
     state_dir = [''var'', ''lib'', ''cfctl''],
     etc_instances_dir = [''etc'', ''cuttlefish'', ''instances''],
     default_boot_image = [''var'', ''lib'', ''cuttlefish'', ''images'', ''boot.img''],
     default_init_boot_image = [''var'', ''lib'', ''cuttlefish'', ''images'', ''init_boot.img''],
     start_timeout = secs 120,
     adb_wait_timeout = secs 90,
     journal_lines = 200,
     adb_host = ''127.0.0.1'',
     base_adb_port = 6520,
     cuttlefish_fhs = [''run'', ''current-system'', ''sw'', ''bin'', ''cuttlefish-fhs''],
     cuttlefish_instances_dir = [''var'', ''lib'', ''cuttlefish'', ''instances''],
     cuttlefish_assembly_dir = [''var'', ''lib'', ''cuttlefish'', ''assembly''],
     cuttlefish_system_image_dir = [''var'', ''lib'', ''cuttlefish'', ''images''],
     disable_host_gpu = True,
     guest_user = ''justin'',
     guest_primary_group = ''cvdnetwork'',
     guest_capabilities = [''net_admin'']\<rparr>"

text \<open>The arguments as \<open>clap\<close> parses them; \<open>default_args\<close> has the defaults of the attributes.\<close>

record daemon_args =
  a_socket :: string
  a_state_dir :: string
  a_etc_instances_dir :: string
  a_default_boot_image :: string
  a_default_init_boot_image :: string
  a_start_timeout_secs :: nat
  a_adb_timeout_secs :: nat
  a_journal_lines :: nat
  a_adb_host :: string
  a_base_adb_port :: "16 word"
  a_cuttlefish_fhs :: string
  a_cuttlefish_instances_dir :: string
  a_cuttlefish_assembly_dir :: string
  a_cuttlefish_system_image_dir :: string
  a_disable_host_gpu :: bool
  a_guest_user :: string
  a_guest_primary_group :: string
  a_guest_capabilities :: "string list"

definition default_args :: daemon_args where
  "default_args = \<lparr>
     a_socket = ''/run/cfctl.sock'',
     a_state_dir = ''/var/lib/cfctl'',
     a_etc_instances_dir = ''/etc/cuttlefish/instances'',
     a_default_boot_image = ''/var/lib/cuttlefish/images/boot.img'',
     a_default_init_boot_image = ''/var/lib/cuttlefish/images/init_boot.img'',
     a_start_timeout_secs = 120,
     a_adb_timeout_secs = 90,
     a_journal_lines = 200,
     a_adb_host = ''127.0.0.1'',
     a_base_adb_port = 6520,
     a_cuttlefish_fhs = ''/run/current-system/sw/bin/cuttlefish-fhs'',
     a_cuttlefish_instances_dir = ''/var/lib/cuttlefish/instances'',
     a_cuttlefish_assembly_dir = ''/var/lib/cuttlefish/assembly'',
     a_cuttlefish_system_image_dir = ''/var/lib/cuttlefish/images'',
     a_disable_host_gpu = True,
     a_guest_user = ''justin'',
     a_guest_primary_group = ''cvdnetwork'',
     a_guest_capabilities = [''net_admin'']\<rparr>"

definition config_of_args :: "daemon_args \<Rightarrow> config" where
  "config_of_args a = \<lparr>
     socket_path = path_of (a_socket a),
     state_dir = path_of (a_state_dir a),
     etc_instances_dir = path_of (a_etc_instances_dir a),
     default_boot_image = path_of (a_default_boot_image a),
     default_init_boot_image = path_of (a_default_init_boot_image a),
     start_timeout = secs (a_start_timeout_secs a),
     adb_wait_timeout = secs (a_adb_timeout_secs a),
     journal_lines = a_journal_lines a,
     adb_host = a_adb_host a,
     base_adb_port = a_base_adb_port a,
     cuttlefish_fhs = path_of (a_cuttlefish_fhs a),
     cuttlefish_instances_dir = path_of (a_cuttlefish_instances_dir a),
     cuttlefish_assembly_dir = path_of (a_cuttlefish_assembly_dir a),
     cuttlefish_system_image_dir = path_of (a_cuttlefish_system_image_dir a),
     disable_host_gpu = a_disable_host_gpu a,
     guest_user = a_guest_user a,
     guest_primary_group = a_guest_primary_group a,
     guest_capabilities = a_guest_capabilities a\<rparr>"

lemma config_of_default_args: "config_of_args default_args = default_config"
  by (simp add: config_of_args_def default_args_def default_config_def path_of_def)

end
