(* ===== verification/Guest.thy ===== *)
theory Guest
  imports Util Config
begin

text \<open>
  \<open>cuttlefish/cfctl/src/daemon/guest.rs\<close>: the exit status of a guest, the handle that owns its
  child process behind a mutex, and the registry from instance ids to handles.

  A handle is an address (the \<open>Arc\<close>) into \<open>handles\<close>; \<open>Arc::ptr_eq\<close> is equality of addresses.
  \<open>h_locked\<close> records that the exit watcher of the handle is inside \<open>GuestHandle::wait\<close>: it holds the
  mutex until the child exits, so every other thread that locks the state waits for that exit
  (\<open>lock_state\<close>), and for ever when the child never exits.
\<close>

section \<open>Exit status\<close>

definition exit_of :: "proc_status \<Rightarrow> exit_info" where
  "exit_of st = \<lparr>x_code = status_code st, x_signal = status_signal st\<rparr>"

definition exit_success :: "exit_info \<Rightarrow> bool" where
  "exit_success x \<longleftrightarrow> x_code x = Some 0 \<and> x_signal x = None"

definition describe_exit :: "exit_info \<Rightarrow> string" where
  "describe_exit x = (case (x_code x, x_signal x) of
       (Some code, None) \<Rightarrow> ''exit code '' @ show_int code
     | (None, Some sig) \<Rightarrow> ''signal '' @ show_int sig
     | (Some code, Some sig) \<Rightarrow>
         ''exit code '' @ show_int code @ '' (signal '' @ show_int sig @ '')''
     | (None, None) \<Rightarrow> ''unknown status'')"

section \<open>Handles\<close>

definition set_handle :: "nat \<Rightarrow> guest_handle \<Rightarrow> sys \<Rightarrow> sys" where
  "set_handle a h s = s\<lparr>handles := (handles s)(a := h)\<rparr>"

definition new_handle :: "int \<Rightarrow> (sys, nat, 'e) act" where
  "new_handle pid = (\<lambda>s. (Ok (next_handle s),
     (set_handle (next_handle s)
        \<lparr>h_pid = pid, h_child = True, h_exit = None, h_locked = False\<rparr> s)
       \<lparr>next_handle := Suc (next_handle s)\<rparr>))"

definition reaped :: "exit_info option \<Rightarrow> guest_handle \<Rightarrow> guest_handle" where
  "reaped x h = h\<lparr>h_child := False, h_exit := x, h_locked := False\<rparr>"

text \<open>Locking the child state: free unless the watcher is waiting for the child.\<close>

definition lock_state :: "nat \<Rightarrow> unit res" where
  "lock_state a = (\<lambda>s.
     let h = handles s a in
     if h_locked h then
       (case e_wait (env s) (tick s) (h_pid h) of
          None \<Rightarrow> (Hang, step s)
        | Some (Inl e) \<Rightarrow> (Ok (), set_handle a (reaped None h) (step s))
        | Some (Inr st) \<Rightarrow> (Ok (), set_handle a (reaped (Some (exit_of st)) h) (step s)))
     else (Ok (), s))"

definition poll_child :: "nat \<Rightarrow> exit_info option res" where
  "poll_child a = (\<lambda>s.
     let h = handles s a in
     case h_exit h of
       Some x \<Rightarrow> (Ok (Some x), s)
     | None \<Rightarrow>
         if h_child h then
           (case e_try_wait (env s) (tick s) (h_pid h) of
              Inl e \<Rightarrow> (Err (from_io e), step s)
            | Inr None \<Rightarrow> (Ok None, step s)
            | Inr (Some st) \<Rightarrow>
                (Ok (Some (exit_of st)), set_handle a (reaped (Some (exit_of st)) h) (step s)))
         else (Ok (h_exit h), s))"

definition try_wait :: "nat \<Rightarrow> exit_info option res" where
  "try_wait a = andThen (lock_state a) (\<lambda>_. poll_child a)"

definition await_child :: "nat \<Rightarrow> exit_info res" where
  "await_child a = (\<lambda>s.
     let h = handles s a in
     case h_exit h of
       Some x \<Rightarrow> (Ok x, s)
     | None \<Rightarrow>
         if h_child h then
           (case e_wait (env s) (tick s) (h_pid h) of
              None \<Rightarrow> (Hang, step s)
            | Some (Inl e) \<Rightarrow> (Err (from_io e), set_handle a (reaped None h) (step s))
            | Some (Inr st) \<Rightarrow>
                (Ok (exit_of st), set_handle a (reaped (Some (exit_of st)) h) (step s)))
         else (Err (Msg ''guest process already awaited''), s))"

text \<open>The state while another thread is inside \<open>wait\<close>, in \<open>child.wait()\<close>: it has taken the child and
  holds the mutex.\<close>

definition watching :: "nat \<Rightarrow> sys \<Rightarrow> sys" where
  "watching a s = set_handle a ((handles s a)\<lparr>h_child := False, h_locked := True\<rparr>) s"

definition wait :: "nat \<Rightarrow> exit_info res" where
  "wait a = andThen (lock_state a) (\<lambda>_. await_child a)"

primrec wait_timeout_loop :: "nat \<Rightarrow> nat \<Rightarrow> nat \<Rightarrow> exit_info option res" where
  "wait_timeout_loop 0 deadline a = hang"
| "wait_timeout_loop (Suc fuel) deadline a =
     andThen (try_wait a) (\<lambda>r.
     case r of
       Some x \<Rightarrow> ret (Some x)
     | None \<Rightarrow>
         andThen instant_now (\<lambda>t.
         if t \<ge> deadline then ret None
         else andThen (sleep (millis 200)) (\<lambda>_. wait_timeout_loop fuel deadline a)))"

definition wait_timeout :: "nat \<Rightarrow> nat \<Rightarrow> exit_info option res" where
  "wait_timeout a timeout =
     andThen instant_now (\<lambda>t.
     andThen (instant_add t timeout) (\<lambda>deadline.
     andThen (reading (\<lambda>s. e_fuel (env s))) (\<lambda>fuel.
     wait_timeout_loop fuel deadline a)))"

definition sigterm :: int where "sigterm = 15"
definition sigkill :: int where "sigkill = 9"
definition esrch :: int where "esrch = 3"

definition signal :: "nat \<Rightarrow> int \<Rightarrow> unit res" where
  "signal a sig = (\<lambda>s.
     let pid = h_pid (handles s a); t = (step s)\<lparr>trace := trace s @ [SignalSent pid sig]\<rparr> in
     case e_kill (env s) (tick s) pid sig of
       None \<Rightarrow> (Ok (), t)
     | Some errno \<Rightarrow>
         if errno = esrch then (Ok (), t) else (Err (Msg (e_errno_text (env s) errno)), t))"

section \<open>The registry\<close>

definition registry_insert :: "nat \<Rightarrow> nat \<Rightarrow> (sys, nat option, 'e) act" where
  "registry_insert i a = (\<lambda>s. (Ok (registry s i), s\<lparr>registry := (registry s)(i := Some a)\<rparr>))"

definition registry_get :: "nat \<Rightarrow> (sys, nat option, 'e) act" where
  "registry_get i = reading (\<lambda>s. registry s i)"

definition registry_contains :: "nat \<Rightarrow> (sys, bool, 'e) act" where
  "registry_contains i = reading (\<lambda>s. registry s i \<noteq> None)"

definition remove_if_handle :: "nat \<Rightarrow> nat \<Rightarrow> (sys, nat option, 'e) act" where
  "remove_if_handle i a = (\<lambda>s.
     if registry s i = Some a then (Ok (registry s i), s\<lparr>registry := (registry s)(i := None)\<rparr>)
     else (Ok None, s))"

section \<open>Frames\<close>

lemma reaped_unlocked [simp]: "\<not> h_locked (reaped x h)"
  by (simp add: reaped_def)

lemma set_handle_simps [simp]:
  "env (set_handle a h s) = env s" "registry (set_handle a h s) = registry s"
  "next_handle (set_handle a h s) = next_handle s"
  "cache (set_handle a h s) = cache s" "trace (set_handle a h s) = trace s"
  "tick (set_handle a h s) = tick s" "now (set_handle a h s) = now s"
  "fs (set_handle a h s) = fs s" "handles (set_handle a h s) = (handles s)(a := h)"
  by (simp_all add: set_handle_def)

lemma frame_set_handle:
  "frame A I s t \<Longrightarrow> \<not> h_locked h \<Longrightarrow> frame A I s (set_handle a h t)"
  by (auto simp: frame_def)

lemma frame_new_handle [frame_intros]: "within (frame A I) (new_handle pid)"
  by (rule withinI) (auto simp: new_handle_def intro!: frameI split: if_splits)

lemma frame_lock_state [frame_intros]: "within (frame A I) (lock_state a)"
  by (rule withinI)
    (auto simp: lock_state_def Let_def fr.stay frame_step frame_set_handle
      split: option.split sum.split)

lemma frame_poll_child [frame_intros]: "within (frame A I) (poll_child a)"
  by (rule withinI)
    (auto simp: poll_child_def Let_def fr.stay frame_step frame_set_handle
      split: option.split sum.split)

lemma frame_await_child [frame_intros]: "within (frame A I) (await_child a)"
  by (rule withinI)
    (auto simp: await_child_def Let_def fr.stay frame_step frame_set_handle
      split: option.split sum.split)

lemma frame_try_wait [frame_intros]: "within (frame A I) (try_wait a)"
  unfolding try_wait_def by (intro frame_intros)

lemma frame_wait [frame_intros]: "within (frame A I) (wait a)"
  unfolding wait_def by (intro frame_intros)

lemma frame_wait_timeout_loop [frame_intros]: "within (frame A I) (wait_timeout_loop f d a)"
proof (induction f)
  case 0
  show ?case unfolding wait_timeout_loop.simps by (intro frame_intros)
next
  case (Suc f)
  then show ?case unfolding wait_timeout_loop.simps by (intro frame_intros)
qed

lemma frame_wait_timeout [frame_intros]: "within (frame A I) (wait_timeout a d)"
  unfolding wait_timeout_def by (intro frame_intros)

lemma frame_signal [frame_intros]: "within (frame A I) (signal a sig)"
  unfolding signal_def Let_def
  by (intro withinI frameI) (auto simp: step_fs step_now split: option.split option.split_asm if_splits)

lemma frame_registry_insert [frame_intros]:
  "i \<in> I \<Longrightarrow> within (frame A I) (registry_insert i a)"
  by (rule withinI) (auto simp: registry_insert_def intro!: frameI)

lemma frame_registry_get [frame_intros]: "within (frame A I) (registry_get i)"
  unfolding registry_get_def by (rule fr.within_reading)

lemma frame_registry_contains [frame_intros]: "within (frame A I) (registry_contains i)"
  unfolding registry_contains_def by (rule fr.within_reading)

lemma frame_remove_if_handle [frame_intros]:
  "i \<in> I \<Longrightarrow> within (frame A I) (remove_if_handle i a)"
  by (rule withinI) (auto simp: remove_if_handle_def fr.stay intro!: frameI)

section \<open>Behaviour of handles\<close>

text \<open>The exit status, once seen, stays: polling again asks the operating system nothing.\<close>

lemma poll_child_again:
  "h_exit (handles s a) = Some x \<Longrightarrow> poll_child a s = (Ok (Some x), s)"
  by (simp add: poll_child_def)

lemma try_wait_again:
  "h_exit (handles s a) = Some x \<Longrightarrow> \<not> h_locked (handles s a) \<Longrightarrow> try_wait a s = (Ok (Some x), s)"
  by (simp add: try_wait_def lock_state_def Let_def poll_child_again)

lemma poll_child_exit:
  "poll_child a s = (Ok (Some x), t) \<Longrightarrow>
   \<not> h_locked (handles s a) \<Longrightarrow> h_exit (handles t a) = Some x \<and> \<not> h_locked (handles t a)"
  by (auto simp: poll_child_def Let_def reaped_def split: option.splits if_splits sum.splits)

lemma lock_state_unlocked: "lock_state a s = (Ok (), t) \<Longrightarrow> \<not> h_locked (handles t a)"
  by (auto simp: lock_state_def Let_def reaped_def split: option.splits if_splits sum.splits)

lemma try_wait_sticky:
  assumes "try_wait a s = (Ok (Some x), t)"
  shows "h_exit (handles t a) = Some x" and "try_wait a t = (Ok (Some x), t)"
proof -
  obtain u where "lock_state a s = (Ok (), u)" and p: "poll_child a u = (Ok (Some x), t)"
    using assms unfolding try_wait_def by (auto elim: andThen_Ok_cases)
  then have "\<not> h_locked (handles u a)" by (simp add: lock_state_unlocked)
  with p have "h_exit (handles t a) = Some x \<and> \<not> h_locked (handles t a)"
    by (rule poll_child_exit)
  then show "h_exit (handles t a) = Some x" and "try_wait a t = (Ok (Some x), t)"
    by (simp_all add: try_wait_again)
qed

text \<open>A status of the operating system is either an exit code or a signal.\<close>

lemma describe_exit_of:
  "describe_exit (exit_of st) =
     (case st of Exited c \<Rightarrow> ''exit code '' @ show_int c | Signaled n \<Rightarrow> ''signal '' @ show_int n)"
  by (cases st) (simp_all add: describe_exit_def exit_of_def status_code_def status_signal_def)

lemma exit_success_of: "exit_success (exit_of st) \<longleftrightarrow> st = Exited 0"
  by (cases st) (simp_all add: exit_success_def exit_of_def status_code_def status_signal_def)

lemma run_remove_if_handle_self:
  "registry s i = Some a \<Longrightarrow>
   remove_if_handle i a s = (Ok (Some a), s\<lparr>registry := (registry s)(i := None)\<rparr>)"
  by (simp add: remove_if_handle_def)

lemma run_remove_if_handle_other:
  "registry s i \<noteq> Some a \<Longrightarrow> remove_if_handle i a s = (Ok None, s)"
  by (simp add: remove_if_handle_def)

section \<open>Polling loops end\<close>

text \<open>
  A loop that polls until a deadline: a round from a state that is \<open>alive\<close> comes to an end or, before
  the deadline, goes on in a state that is alive and at least \<open>pause\<close> later.  So a number of rounds
  that covers the time to the deadline, and one more, is enough.
\<close>

locale polling =
  fixes loop :: "nat \<Rightarrow> (sys, 'a, 'e) act" and alive :: "sys \<Rightarrow> bool"
    and deadline :: nat and pause :: nat
  assumes round: "alive s \<Longrightarrow> fst (loop (Suc n) s) \<noteq> Hang
    \<or> (\<exists>t. loop (Suc n) s = loop n t \<and> alive t \<and> now s + pause \<le> now t \<and> now s < deadline)"
begin

lemma ends:
  assumes "alive s" and "deadline \<le> now s + n * pause"
  shows "fst (loop (Suc n) s) \<noteq> Hang"
  using assms
proof (induction n arbitrary: s)
  case 0
  then show ?case using round [of s 0] by auto
next
  case (Suc n)
  show ?case
  proof (rule ccontr)
    assume "\<not> fst (loop (Suc (Suc n)) s) \<noteq> Hang"
    then obtain t where t: "loop (Suc (Suc n)) s = loop (Suc n) t" "alive t" "now s + pause \<le> now t"
      using round [OF Suc.prems(1)] by blast
    have "deadline \<le> now t + n * pause" using Suc.prems(2) t(3) by simp
    then have "fst (loop (Suc n) t) \<noteq> Hang" by (rule Suc.IH [OF t(2)])
    with t(1) \<open>\<not> fst (loop (Suc (Suc n)) s) \<noteq> Hang\<close> show False by simp
  qed
qed

end

lemma try_wait_unlocked:
  assumes "\<not> h_locked (handles s a)"
  shows "fst (try_wait a s) \<noteq> Hang" and "fst (try_wait a s) \<noteq> Panic"
  using assms
  by (auto simp: try_wait_def lock_state_def Let_def poll_child_def
      split: option.split sum.split)

lemma wait_timeout_round:
  assumes "\<not> h_locked (handles s a)"
  shows "fst (wait_timeout_loop (Suc n) deadline a s) \<notin> {Hang, Panic}
    \<or> (\<exists>t. wait_timeout_loop (Suc n) deadline a s = wait_timeout_loop n deadline a t
       \<and> \<not> h_locked (handles t a) \<and> now s + millis 200 \<le> now t \<and> now s < deadline)"
proof -
  obtain r u where tw: "try_wait a s = (r, u)" by (cases "try_wait a s")
  have f: "frame {} {} s u" using frame_try_wait tw by (rule withinD)
  define v where "v = step u"
  define w where "w = (step v)\<lparr>now := now (step v) + millis 200, trace := trace v @ [Slept (millis 200)]\<rparr>"
  have unfold: "r = Ok None \<Longrightarrow> wait_timeout_loop (Suc n) deadline a s =
      (if now v \<ge> deadline then (Ok None, v) else wait_timeout_loop n deadline a w)"
    using tw by (simp add: instant_now_def sleep_def v_def w_def run_andThen)
  show ?thesis
  proof (cases "r = Ok None \<and> now v < deadline")
    case True
    have "now s \<le> now v" using frame_now [OF f] step_now [of u] by (simp add: v_def)
    moreover have "now v + millis 200 \<le> now w" "\<not> h_locked (handles w a)"
      using frame_locked [OF f assms] step_now [of v] by (simp_all add: w_def v_def)
    ultimately show ?thesis using True unfold by (intro disjI2 exI [of _ w]) simp
  next
    case False
    show ?thesis
    proof (cases r)
      case (Ok x)
      with False unfold tw show ?thesis by (cases x) auto
    qed (use try_wait_unlocked [OF assms] tw in auto)
  qed
qed

interpretation wt: polling "\<lambda>n. wait_timeout_loop n deadline a" "\<lambda>s. \<not> h_locked (handles s a)"
    deadline "millis 200"
  for deadline a
  by unfold_locales (use wait_timeout_round in blast)

lemma wait_timeout_returns:
  assumes "\<not> h_locked (handles s a)" and "d \<le> (e_fuel (env s) - 1) * millis 200"
    and "0 < e_fuel (env s)"
  shows "fst (wait_timeout a d s) \<noteq> Hang"
proof -
  obtain n where n: "e_fuel (env s) = Suc n" using assms(3) by (cases "e_fuel (env s)") auto
  have "fst (wait_timeout_loop (Suc n) (now (step s) + d) a (step s)) \<noteq> Hang"
    using assms n by (intro wt.ends) simp_all
  then show ?thesis
    using n by (simp add: wait_timeout_def instant_now_def instant_add_def)
qed

end
