(* ===== verification/Wire.thy ===== *)
theory Wire
  imports WorldLaws "HOL-Library.Countable"
begin

text \<open>
  The contract between an encoder and its decoder.  The metadata file, the request line and the
  response line are all written by a serde \<open>Serialize\<close> and read back by the \<open>Deserialize\<close> of the
  same type, through JSON text; the locale \<open>codec\<close> states the one law they rely on, and its lemmas
  carry it through \<open>serde_json\<close>.  It is interpreted on the three message types.
\<close>

locale codec =
  fixes enc :: "'a \<Rightarrow> json" and dec :: "json \<Rightarrow> 'a option" and wf :: "'a \<Rightarrow> bool"
  assumes round: "wf x \<Longrightarrow> dec (enc x) = Some x"
begin

lemma enc_inj: "wf x \<Longrightarrow> wf y \<Longrightarrow> enc x = enc y \<Longrightarrow> x = y"
  by (metis option.inject round)

lemma from_pretty: "codec_ok e \<Longrightarrow> wf x \<Longrightarrow> from_str e dec (e_print e (enc x)) = Inr x"
  by (simp add: codec_ok_def from_str_def round)

lemma from_line:
  "codec_ok e \<Longrightarrow> wf x \<Longrightarrow> from_str e dec (e_compact e (enc x) @ [newline]) = Inr x"
  by (simp add: codec_ok_def from_str_def round)

lemma print_inj:
  assumes "codec_ok e" and "wf x" and "wf y" and "e_print e (enc x) = e_print e (enc y)"
  shows "x = y"
proof -
  have "(Inr x :: string + 'a) = Inr y"
    unfolding from_pretty [OF assms(1,2), symmetric] assms(4) by (rule from_pretty [OF assms(1,3)])
  then show ?thesis by simp
qed

end

interpretation rq: codec enc_request dec_request wf_request
  by unfold_locales (rule dec_request_enc)

interpretation rp: codec enc_response dec_response wf_response
  by unfold_locales (rule dec_response_enc)

interpretation md: codec enc_metadata dec_metadata wf_metadata
  by unfold_locales simp

section \<open>A law-abiding printer\<close>

text \<open>
  The law of \<open>serde_json\<close> can hold: JSON documents are countable, so a document can be printed as
  its number in unary.  Witnesses of theorems about text use this environment.
\<close>

instance json :: countable by countable_datatype

definition unary :: "json \<Rightarrow> string" where "unary j = replicate (Suc (to_nat j)) (CHR ''x'')"

definition read_unary :: "string \<Rightarrow> string + json" where
  "read_unary t = Inr (from_nat (length (filter (\<lambda>c. c = CHR ''x'') t) - 1))"

lemma filter_x_unary: "filter (\<lambda>c. c = CHR ''x'') (unary j) = unary j"
  by (simp add: unary_def)

lemma ascii_unary: "ascii (unary j)"
  by (auto simp: unary_def ascii_def byte_def)

lemma codec_ok_unary:
  assumes "e_print e = unary" and "e_compact e = unary" and "e_parse e = read_unary"
  shows "codec_ok e"
proof -
  have "read_unary (unary j) = Inr j" and "read_unary (unary j @ [newline]) = Inr j" for j
    by (simp_all add: read_unary_def unary_def)
  moreover have "newline \<notin> set (unary j)" and "trim (unary j) \<noteq> []" for j
    by (auto simp: unary_def trim_empty_iff is_space_def byte_def)
  ultimately show ?thesis
    using assms ascii_utf8 [OF ascii_unary] by (simp add: codec_ok_def)
qed

section \<open>A sample environment\<close>

text \<open>An undisturbed machine on which every command succeeds; the theorems' instances use it.\<close>

definition quiet :: environ where
  "quiet = \<lparr>e_fault = \<lambda>_. None, e_area = \<lambda>_. False, e_outside = \<lambda>_ _. None, e_lag = \<lambda>_. 0,
     e_system = \<lambda>_. Some 1000, e_fuel = 1000, e_listing = \<lambda>_ _. [],
     e_command = \<lambda>_ _. Inr \<lparr>out_status = Exited 0, out_stdout = [], out_stderr = []\<rparr>,
     e_spawn = \<lambda>_ _. Inr 4242, e_try_wait = \<lambda>_ _. Inr None, e_wait = \<lambda>_ _. None,
     e_kill = \<lambda>_ _ _. None, e_status_text = \<lambda>_. ''exit status'', e_errno_text = \<lambda>_. ''errno'',
     e_user = \<lambda>_. Some 1000, e_group = \<lambda>_. Some 100, e_pid = 77, e_early = \<lambda>_. False,
     e_print = unary, e_compact = unary, e_parse = read_unary, e_decode_text = \<lambda>_. ''decode'', e_join_text = \<lambda>_. ''panicked'',
     e_overflow = False\<rparr>"

definition machine :: "environ \<Rightarrow> filesystem \<Rightarrow> sys" where
  "machine e f = \<lparr>env = e, fs = f, tick = 0, now = 0, registry = \<lambda>_. None,
     handles = \<lambda>_. \<lparr>h_pid = 0, h_child = False, h_exit = None, h_locked = False\<rparr>,
     next_handle = 0, cache = \<lambda>_. None, trace = []\<rparr>"

lemma machine_simps [simp]:
  "env (machine e f) = e" "fs (machine e f) = f" "tick (machine e f) = 0"
  "now (machine e f) = 0" "registry (machine e f) i = None" "cache (machine e f) i = None"
  "trace (machine e f) = []" "next_handle (machine e f) = 0"
  by (simp_all add: machine_def)

lemma quiet_codec [simp]: "codec_ok quiet"
  by (rule codec_ok_unary) (simp_all add: quiet_def)

lemma quiet_calm [simp]: "calm quiet"
  by (simp add: calm_def quiet_def)

section \<open>Messages survive the wire\<close>

text \<open>C9: A request the client can build, printed compactly on one line as the client sends it,
  is read back by the daemon as the same request.\<close>

theorem request_survives:
  assumes "codec_ok e" and "wf_request q"
  shows "from_str e dec_request (e_compact e (enc_request q) @ [newline]) = Inr q"
  using assms by (rule rq.from_line)

lemma request_survives_witness:
  "from_str quiet dec_request (e_compact quiet (enc_request (Deploy
     \<lparr>dr_id = 7, dr_boot_image = Some ''/tmp/boot.img'', dr_init_boot_image = None\<rparr>)) @ [newline])
   = Inr (Deploy \<lparr>dr_id = 7, dr_boot_image = Some ''/tmp/boot.img'', dr_init_boot_image = None\<rparr>)"
  by (rule request_survives [OF quiet_codec]) (simp add: u64_def)

text \<open>C10: A response the daemon writes, as one line, is read back by the client as the same
  response: no field is lost or confused, whatever fields are skipped because they are empty.\<close>

theorem response_survives:
  assumes "codec_ok e" and "wf_response r"
  shows "from_str e dec_response (e_compact e (enc_response r) @ [newline]) = Inr r"
  using assms by (rule rp.from_line)

lemma response_survives_witness:
  "from_str quiet dec_response (e_compact quiet (enc_response (error_with_detail
     \<lparr>ed_code = ''stop_failed'', ed_message = Some ''no such instance''\<rparr>)) @ [newline])
   = Inr (error_with_detail \<lparr>ed_code = ''stop_failed'', ed_message = Some ''no such instance''\<rparr>)"
  by (rule response_survives [OF quiet_codec]) (simp add: wf_response_def error_with_detail_def)

end
