(* ===== verification/Instances.thy ===== *)
theory Instances
  imports Guest Wire
begin

text \<open>
  The persistent state of the instances in \<open>cuttlefish/cfctl/src/daemon/manager.rs\<close>: the paths of
  an instance, the metadata file with its atomic replacement, the environment file, and the
  allocation of instance ids from the file \<open>control/next_id\<close>.

  \<open>stored cfg s\<close> is the abstract view of the disk: the metadata each id has there.
\<close>

section \<open>Paths\<close>

record instance_paths =
  ip_root :: path
  ip_artifacts :: path
  ip_metadata :: path
  ip_run_log :: path

definition paths :: "config \<Rightarrow> instance_id \<Rightarrow> instance_paths" where
  "paths cfg i = (let root = state_dir cfg @ [''instances'', show_nat i] in
     \<lparr>ip_root = root, ip_artifacts = root @ [''artifacts''],
      ip_metadata = root @ [''metadata.json''], ip_run_log = root @ [''cfctl-run.log'']\<rparr>)"

definition instances_dir :: "config \<Rightarrow> path" where
  "instances_dir cfg = state_dir cfg @ [''instances'']"

definition id_string :: "instance_paths \<Rightarrow> string" where
  "id_string p = (if ip_root p = [] then [] else last (ip_root p))"

definition env_file :: "config \<Rightarrow> instance_paths \<Rightarrow> path" where
  "env_file cfg p = etc_instances_dir cfg @ [id_string p @ ''.env'']"

definition with_extension :: "path \<Rightarrow> string \<Rightarrow> path" where
  "with_extension p e = (if p = [] then [] else butlast p @ [with_ext (last p) e])"

section \<open>Metadata file\<close>

definition write_metadata :: "instance_paths \<Rightarrow> instance_metadata \<Rightarrow> unit res" where
  "write_metadata p m =
     andThen (io (create_dir_all (butlast (ip_metadata p)))) (\<lambda>_.
     let tmp = with_extension (ip_metadata p) ''json.tmp'' in
     andThen (reading (\<lambda>s. e_print (env s) (enc_metadata m))) (\<lambda>text.
     andThen (ctx (''writing metadata tmp '' @ show_path tmp) (write_file tmp text)) (\<lambda>_.
     ctx (''renaming metadata '' @ show_path (ip_metadata p)) (rename tmp (ip_metadata p)))))"

definition decode_metadata :: "environ \<Rightarrow> string \<Rightarrow> anyhow + instance_metadata" where
  "decode_metadata e text = (case from_str e dec_metadata text of
       Inl msg \<Rightarrow> Inl (Ctx ''parsing metadata JSON'' (Msg msg))
     | Inr m \<Rightarrow> Inr m)"

definition metadata :: "config \<Rightarrow> instance_id \<Rightarrow> instance_metadata res" where
  "metadata cfg i =
     andThen (reading (\<lambda>s. cache s i)) (\<lambda>cached.
     case cached of
       Some m \<Rightarrow> ret m
     | None \<Rightarrow>
         let p = ip_metadata (paths cfg i) in
         andThen (ctx (''opening metadata file '' @ show_path p) (open_read p)) (\<lambda>_.
         andThen (io (read_to_string p)) (\<lambda>buf.
         andThen (reading (\<lambda>s. decode_metadata (env s) buf)) (\<lambda>r.
         case r of Inl e \<Rightarrow> raise e | Inr m \<Rightarrow> ret m))))"

definition cache_insert :: "instance_id \<Rightarrow> instance_metadata \<Rightarrow> (sys, unit, 'e) act" where
  "cache_insert i m = modify (\<lambda>s. s\<lparr>cache := (cache s)(i := Some m)\<rparr>)"

definition cache_remove :: "instance_id \<Rightarrow> (sys, unit, 'e) act" where
  "cache_remove i = modify (\<lambda>s. s\<lparr>cache := (cache s)(i := None)\<rparr>)"

text \<open>\<open>InstanceManager::new\<close> for the duration of a body: an empty cache over the same registry.\<close>

definition new_manager :: "(sys, 'a, 'e) act \<Rightarrow> (sys, 'a, 'e) act" where
  "new_manager m = (\<lambda>s. case m (s\<lparr>cache := \<lambda>_. None\<rparr>) of (r, t) \<Rightarrow> (r, t\<lparr>cache := cache s\<rparr>))"

section \<open>Environment file\<close>

definition write_env_file :: "config \<Rightarrow> instance_paths \<Rightarrow> instance_metadata \<Rightarrow> unit res" where
  "write_env_file cfg p m =
     (let env_path = env_file cfg p; tmp = with_extension env_path ''tmp'' in
     andThen (io (write_file tmp [])) (\<lambda>_.
     andThen epoch_secs (\<lambda>t.
     andThen (io (append_file tmp
       (''# Autogenerated by cfctl at '' @ show_nat t @ [newline]))) (\<lambda>_.
     andThen (io (append_file tmp
       (''CUTTLEFISH_BOOT_IMAGE='' @ show_path (im_boot_image m) @ [newline]))) (\<lambda>_.
     andThen (io (append_file tmp
       (''CUTTLEFISH_INIT_BOOT_IMAGE='' @ show_path (im_init_boot_image m) @ [newline]))) (\<lambda>_.
     andThen (io (append_file tmp
       (''CUTTLEFISH_BASE_INSTANCE_NUM='' @ show_nat (im_id m) @ [newline]))) (\<lambda>_.
     andThen (io (append_file tmp
       (''CUTTLEFISH_ADB_TCP_PORT='' @ show_nat (unat (im_adb_port m)) @ [newline]))) (\<lambda>_.
     andThen (io plain_call) (\<lambda>_.
     andThen (io (rename tmp env_path)) (\<lambda>_.
     io (set_permissions env_path 416)))))))))))"

section \<open>Allocation of ids\<close>

definition slot_free :: "config \<Rightarrow> sys \<Rightarrow> instance_id \<Rightarrow> bool" where
  "slot_free cfg s i \<longleftrightarrow>
     \<not> path_exists (ip_metadata (paths cfg i)) s \<and> \<not> path_exists (ip_root (paths cfg i)) s"

text \<open>The search loop: the slot found, and the candidate the loop ends with.\<close>

fun pick_slot :: "nat \<Rightarrow> (nat \<Rightarrow> bool) \<Rightarrow> nat \<Rightarrow> nat option \<times> nat" where
  "pick_slot 0 free c = (None, c)"
| "pick_slot (Suc n) free c =
     (let c' = (if c = 0 \<or> c > 99 then 1 else c) in
      if free c' then (Some c', c' mod 99 + 1) else pick_slot n free (c' mod 99 + 1))"

definition first_candidate :: "string \<Rightarrow> nat" where
  "first_candidate buf =
     (let next = (case parse_u64 (trim buf) of None \<Rightarrow> 1 | Some n \<Rightarrow> n) in
      if next = 0 then 1 else next)"

definition id_alloc_file :: "config \<Rightarrow> path" where
  "id_alloc_file cfg = state_dir cfg @ [''control'', ''next_id'']"

definition allocate_id :: "config \<Rightarrow> instance_id res" where
  "allocate_id cfg =
     (let path = id_alloc_file cfg in
     andThen (io (create_dir_all (state_dir cfg @ [''control'']))) (\<lambda>_.
     andThen (io (open_rw path)) (\<lambda>_.
     andThen (io plain_call) (\<lambda>_.
     andThen (io (read_to_string path)) (\<lambda>buf.
     andThen (reading (\<lambda>s. pick_slot 99 (slot_free cfg s) (first_candidate buf))) (\<lambda>r.
     case r of (selected, candidate) \<Rightarrow>
     (case selected of
        None \<Rightarrow> raise (Msg ''no available instance slots (1-99)'')
      | Some i \<Rightarrow>
          andThen (io (set_len0 path)) (\<lambda>_.
          andThen (io plain_call) (\<lambda>_.
          andThen (io (append_file path (show_nat candidate))) (\<lambda>_.
          andThen (io plain_call) (\<lambda>_.
          andThen (io plain_call) (\<lambda>_.
          ret i))))))))))))"

text \<open>\<open>self.config.base_adb_port + id as u16 - 1\<close>, on 16 bits.\<close>

definition adb_port_for :: "config \<Rightarrow> instance_id \<Rightarrow> (sys, 16 word, 'e) act" where
  "adb_port_for cfg i = (\<lambda>s.
     let a = base_adb_port cfg; b = (word_of_nat i :: 16 word) in
     if e_overflow (env s) \<and> (unat a + unat b \<ge> 2 ^ 16 \<or> a + b = 0) then (Panic, s)
     else (Ok (a + b - 1), s))"

section \<open>Whose paths are whose\<close>

text \<open>
  \<open>tree cfg i\<close> is the directory of instance \<open>i\<close> with everything below it; \<open>away cfg i\<close> is every
  path outside the directories of the other instances.  An operation that stays within
  \<open>away cfg i\<close> leaves the files of all other instances as they are.
\<close>

definition tree :: "config \<Rightarrow> instance_id \<Rightarrow> path set" where
  "tree cfg i = {q. prefix (ip_root (paths cfg i)) q}"

definition away :: "config \<Rightarrow> instance_id \<Rightarrow> path set" where
  "away cfg i = {q. \<forall>j. j \<noteq> i \<longrightarrow> q \<notin> tree cfg j}"

lemma paths_simps [simp]:
  "ip_root (paths cfg i) = state_dir cfg @ [''instances'', show_nat i]"
  "ip_artifacts (paths cfg i) = state_dir cfg @ [''instances'', show_nat i, ''artifacts'']"
  "ip_metadata (paths cfg i) = state_dir cfg @ [''instances'', show_nat i, ''metadata.json'']"
  "ip_run_log (paths cfg i) = state_dir cfg @ [''instances'', show_nat i, ''cfctl-run.log'']"
  by (simp_all add: paths_def Let_def)

lemma id_string_paths [simp]: "id_string (paths cfg i) = show_nat i"
  by (simp add: id_string_def)

lemma tree_root_below: "prefix (ip_root (paths cfg i)) q \<Longrightarrow> q \<in> tree cfg i"
  by (simp add: tree_def)

lemma trees_disjoint:
  assumes "q \<in> tree cfg i" and "q \<in> tree cfg j" shows "i = j"
proof -
  have "prefix ((state_dir cfg @ [''instances'']) @ [show_nat i]) q"
    and "prefix ((state_dir cfg @ [''instances'']) @ [show_nat j]) q"
    using assms by (simp_all add: tree_def)
  then have "show_nat i = show_nat j" by (rule prefix_disjoint_last)
  then show ?thesis by simp
qed

lemma tree_subset_away: "tree cfg i \<subseteq> away cfg i"
  using trees_disjoint by (auto simp: away_def)

lemma tree_away_iff: "q \<in> tree cfg j \<Longrightarrow> q \<in> away cfg i \<longleftrightarrow> i = j"
  unfolding away_def mem_Collect_eq by (metis trees_disjoint)

lemma tree_paths:
  "prefix (ip_metadata (paths cfg i)) q \<Longrightarrow> q \<in> tree cfg i"
  "prefix (ip_artifacts (paths cfg i)) q \<Longrightarrow> q \<in> tree cfg i"
  "prefix (ip_run_log (paths cfg i)) q \<Longrightarrow> q \<in> tree cfg i"
  by (auto simp: tree_def prefix_def)

lemma above_root_away: "prefix q (ip_root (paths cfg i)) \<Longrightarrow> q \<in> away cfg i"
proof -
  assume q: "prefix q (ip_root (paths cfg i))"
  have "i = j" if "q \<in> tree cfg j" for j
  proof -
    from that q have "ip_root (paths cfg i) \<in> tree cfg j"
      unfolding tree_def using prefix_order.order_trans by blast
    moreover have "ip_root (paths cfg i) \<in> tree cfg i" by (simp add: tree_def)
    ultimately show ?thesis by (rule trees_disjoint [symmetric])
  qed
  then show "q \<in> away cfg i" by (auto simp: away_def)
qed

lemma metadata_tmp [simp]:
  "with_extension (ip_metadata (paths cfg i)) ''json.tmp'' =
   state_dir cfg @ [''instances'', show_nat i, ''metadata.json.tmp'']"
proof -
  have "with_ext ''metadata.json'' ''json.tmp'' = ''metadata.json.tmp''" by code_simp
  then show ?thesis by (simp add: with_extension_def butlast_append)
qed

lemma metadata_parent [simp]:
  "butlast (ip_metadata (paths cfg i)) = ip_root (paths cfg i)"
  by (simp add: butlast_append)

lemma env_tmp [simp]:
  "with_extension (env_file cfg (paths cfg i)) ''tmp'' =
   etc_instances_dir cfg @ [show_nat i @ ''.tmp'']"
  using file_stem_dot [of "show_nat i" "''env''"]
  by (simp add: with_extension_def env_file_def with_ext_def)

text \<open>
  A configuration keeps the directories the daemon uses for other purposes apart from the
  directory of its instances: neither contains the other.  The default configuration does.
\<close>

definition outside_dirs :: "config \<Rightarrow> path list" where
  "outside_dirs cfg = [etc_instances_dir cfg, cuttlefish_instances_dir cfg,
     cuttlefish_assembly_dir cfg, [''tmp''], [''var'', ''lib'', ''cuttlefish'']]"

definition apart :: "config \<Rightarrow> bool" where
  "apart cfg \<longleftrightarrow> (\<forall>d \<in> set (outside_dirs cfg).
     \<not> prefix d (instances_dir cfg) \<and> \<not> prefix (instances_dir cfg) d)"

lemma apart_default [simp]: "apart default_config"
  by (simp add: apart_def outside_dirs_def instances_dir_def default_config_def)

lemma tree_below_instances: "q \<in> tree cfg j \<Longrightarrow> prefix (instances_dir cfg) q"
  by (auto simp: tree_def instances_dir_def prefix_def)

text \<open>\<open>outside cfg\<close>: the paths of no instance.\<close>

definition outside :: "config \<Rightarrow> path set" where
  "outside cfg = {q. \<forall>j. q \<notin> tree cfg j}"

lemma outside_away: "outside cfg \<subseteq> away cfg i"
  by (auto simp: outside_def away_def)

lemma comparable_outside:
  assumes "apart cfg" and "d \<in> set (outside_dirs cfg)" and "prefix d q \<or> prefix q d"
  shows "q \<in> outside cfg"
proof -
  have d: "\<not> prefix d (instances_dir cfg)" "\<not> prefix (instances_dir cfg) d"
    using assms(1,2) by (auto simp: apart_def)
  have "q \<notin> tree cfg j" for j
  proof
    assume "q \<in> tree cfg j"
    then have "prefix (instances_dir cfg) q" by (rule tree_below_instances)
    with assms(3) d show False
      by (meson prefix_order.order_trans prefix_same_cases)
  qed
  then show ?thesis by (simp add: outside_def)
qed

lemma outside_in:
  "outside cfg \<subseteq> A \<Longrightarrow> apart cfg \<Longrightarrow> d \<in> set (outside_dirs cfg) \<Longrightarrow> prefix d p \<Longrightarrow> p \<in> A"
  by (blast intro: comparable_outside)

lemma outside_below:
  assumes "outside cfg \<subseteq> A" and "apart cfg" and "d \<in> set (outside_dirs cfg)" and "prefix d p"
  shows "{q. prefix p q} \<subseteq> A"
  using assms prefix_order.order_trans [OF assms(4)] by (blast intro: comparable_outside)

lemma outside_above:
  assumes "outside cfg \<subseteq> A" and "apart cfg" and "d \<in> set (outside_dirs cfg)" and "prefix d p"
  shows "{q. prefix q p} \<subseteq> A"
proof
  fix q
  assume "q \<in> {q. prefix q p}"
  with assms(4) have "prefix d q \<or> prefix q d" using prefix_same_cases [of q p d] by blast
  with assms(1-3) show "q \<in> A" by (blast intro: comparable_outside)
qed

text \<open>The members of \<open>outside_dirs\<close>, and the paths below an instance's own directory.\<close>

lemma outside_members:
  "etc_instances_dir cfg \<in> set (outside_dirs cfg)"
  "cuttlefish_instances_dir cfg \<in> set (outside_dirs cfg)"
  "cuttlefish_assembly_dir cfg \<in> set (outside_dirs cfg)"
  "[''tmp''] \<in> set (outside_dirs cfg)"
  "[''var'', ''lib'', ''cuttlefish''] \<in> set (outside_dirs cfg)"
  by (simp_all add: outside_dirs_def)

lemma own_in: "prefix (ip_root (paths cfg i)) p \<Longrightarrow> p \<in> away cfg i"
  using tree_root_below tree_subset_away by blast

lemma own_below: "prefix (ip_root (paths cfg i)) p \<Longrightarrow> {q. prefix p q} \<subseteq> away cfg i"
  using own_in prefix_order.order_trans by blast

lemma own_above: "prefix (ip_root (paths cfg i)) p \<Longrightarrow> {q. prefix q p} \<subseteq> away cfg i"
  using own_in above_root_away prefix_same_cases by blast

section \<open>Frames\<close>

lemma away_mono: "q \<in> tree cfg i \<Longrightarrow> q \<in> away cfg i"
  using tree_subset_away by blast

lemma frame_write_metadata [frame_intros]:
  "within (frame (away cfg i) I) (write_metadata (paths cfg i) m)"
proof -
  have "{q. prefix (state_dir cfg @ [''instances'', show_nat i, ''metadata.json.tmp'']) q} \<subseteq> away cfg i"
    by (auto simp: tree_def prefix_def intro!: away_mono)
  moreover have "{q. prefix (ip_metadata (paths cfg i)) q} \<subseteq> away cfg i"
    using tree_paths(1) away_mono by blast
  moreover have "{q. prefix q (ip_root (paths cfg i))} \<subseteq> away cfg i"
    using above_root_away by blast
  ultimately show ?thesis
    unfolding write_metadata_def metadata_tmp metadata_parent Let_def
    by (intro frame_intros) auto
qed

lemma frame_metadata [frame_intros]: "within (frame A I) (metadata cfg i)"
  unfolding metadata_def Let_def by (intro frame_intros)

lemma frame_cache_insert [frame_intros]: "i \<in> I \<Longrightarrow> within (frame A I) (cache_insert i m)"
  unfolding cache_insert_def by (intro fr.within_modify frameI) auto

lemma frame_cache_remove [frame_intros]: "i \<in> I \<Longrightarrow> within (frame A I) (cache_remove i)"
  unfolding cache_remove_def by (intro fr.within_modify frameI) auto

lemma frame_new_manager [frame_intros]:
  assumes "within (frame A I) m" shows "within (frame A I) (new_manager m)"
proof (rule withinI)
  fix s
  obtain r t where m: "m (s\<lparr>cache := \<lambda>_. None\<rparr>) = (r, t)" by (cases "m (s\<lparr>cache := \<lambda>_. None\<rparr>)")
  have "frame A I (s\<lparr>cache := \<lambda>_. None\<rparr>) t" using assms m by (rule withinD)
  then show "frame A I s (snd (new_manager m s))" using m by (simp add: new_manager_def frame_def)
qed

lemma frame_adb_port_for [frame_intros]: "within (frame A I) (adb_port_for cfg i)"
  unfolding adb_port_for_def by (rule withinI) (simp add: fr.stay Let_def)

lemma frame_write_env_file [frame_intros]:
  assumes "outside cfg \<subseteq> A" and "apart cfg"
  shows "within (frame A I) (write_env_file cfg (paths cfg i) m)"
proof -
  let ?tmp = "etc_instances_dir cfg @ [show_nat i @ ''.tmp'']"
  let ?env = "env_file cfg (paths cfg i)"
  have pre: "prefix (etc_instances_dir cfg) ?tmp" "prefix (etc_instances_dir cfg) ?env"
    by (simp_all add: env_file_def)
  note o = outside_in [OF assms outside_members(1) pre(1)]
    outside_in [OF assms outside_members(1) pre(2)]
    outside_below [OF assms outside_members(1) pre(1)]
    outside_below [OF assms outside_members(1) pre(2)]
  show ?thesis
    unfolding write_env_file_def Let_def env_tmp by (intro frame_intros o)
qed

text \<open>The allocation touches the control directory only.\<close>

definition control_area :: "config \<Rightarrow> path set" where
  "control_area cfg = {q. prefix q (id_alloc_file cfg)}"

lemma frame_allocate_id [frame_intros]: "within (frame (control_area cfg) I) (allocate_id cfg)"
proof -
  have "prefix (state_dir cfg @ [''control'']) (id_alloc_file cfg)"
    by (simp add: id_alloc_file_def)
  then have "{q. prefix q (state_dir cfg @ [''control''])} \<subseteq> control_area cfg"
    unfolding control_area_def using prefix_order.order_trans by blast
  moreover have "id_alloc_file cfg \<in> control_area cfg" by (simp add: control_area_def)
  ultimately show ?thesis
    unfolding allocate_id_def Let_def by (intro frame_intros)
qed

lemma control_area_outside: "control_area cfg \<subseteq> outside cfg"
proof
  fix q
  assume "q \<in> control_area cfg"
  then have "q \<notin> tree cfg j" for j
    by (auto simp: control_area_def tree_def id_alloc_file_def dest: prefix_order.order_trans)
  then show "q \<in> outside cfg" by (simp add: outside_def)
qed

lemmas [frame_intros] = outside_away

section \<open>Returning\<close>

lemma returns_cache [returns_intros]: "returns (cache_insert i m)" "returns (cache_remove i)"
  by (simp_all add: cache_insert_def cache_remove_def returns_modify)

lemma returns_write_metadata [returns_intros]: "returns (write_metadata p m)"
  unfolding write_metadata_def Let_def by (intro returns_intros)

lemma returns_metadata [returns_intros]: "returns (metadata cfg i)"
  unfolding metadata_def Let_def by (intro returns_intros)

lemma returns_write_env_file [returns_intros]: "returns (write_env_file cfg p m)"
  unfolding write_env_file_def Let_def by (intro returns_intros)

lemma returns_allocate_id [returns_intros]: "returns (allocate_id cfg)"
  unfolding allocate_id_def Let_def by (intro returns_intros)

lemma returns_new_manager [returns_intros]: assumes "returns m" shows "returns (new_manager m)"
proof (rule returnsI)
  fix s
  show "fst (new_manager m s) \<noteq> Panic \<and> fst (new_manager m s) \<noteq> Hang"
    by (cases rule: returns_cases [OF assms, of "s\<lparr>cache := \<lambda>_. None\<rparr>"]) (simp_all add: new_manager_def)
qed

lemma succeeds_cache [succeeds_intros]: "succeeds (cache_insert i m)" "succeeds (cache_remove i)"
  by (simp_all add: cache_insert_def cache_remove_def succeeds_modify)

end
