(* ===== verification/Store.thy ===== *)
theory Store
  imports Instances
begin

text \<open>
  The metadata files as a store.  \<open>stored cfg s i\<close> is the metadata of instance \<open>i\<close> on disk.  The
  locale \<open>record_store\<close> states what the handlers of the manager rely on: a load returns what is
  stored, a save stores it, a failed save leaves the old record or the new one and nothing else,
  and neither touches the record of another key.  It is interpreted on \<open>metadata\<close> and on
  \<open>write_metadata\<close> followed by the update of the cache.
\<close>

section \<open>The contract\<close>

locale record_store =
  fixes load :: "'k \<Rightarrow> ('s, 'v, 'e) act"
    and save :: "'k \<Rightarrow> 'v \<Rightarrow> ('s, unit, 'e) act"
    and view :: "'s \<Rightarrow> 'k \<Rightarrow> 'v option"
    and good :: "'s \<Rightarrow> bool"
    and proper :: "'v \<Rightarrow> bool"
  assumes load_keeps: "good s \<Longrightarrow> load k s = (r, t) \<Longrightarrow> good t \<and> view t = view s"
    and load_Ok: "good s \<Longrightarrow> load k s = (Ok v, t) \<Longrightarrow> view s k = Some v \<and> proper v"
    and save_Ok: "good s \<Longrightarrow> proper v \<Longrightarrow> save k v s = (Ok (), t) \<Longrightarrow>
      good t \<and> view t = (view s)(k := Some v)"
    and save_Err: "good s \<Longrightarrow> proper v \<Longrightarrow> save k v s = (Err e, t) \<Longrightarrow>
      view t = view s \<or> view t = (view s)(k := Some v)"
begin

text \<open>Reading, changing and writing a record.\<close>

lemma update_Ok:
  assumes "good s" and "andThen (load k) (\<lambda>v. save k (f v)) s = (Ok (), t)"
    and "\<And>v. proper v \<Longrightarrow> proper (f v)"
  shows "\<exists>v. view s k = Some v \<and> view t = (view s)(k := Some (f v)) \<and> good t"
proof -
  obtain v u where l: "load k s = (Ok v, u)" and w: "save k (f v) u = (Ok (), t)"
    using assms(2) by (rule andThen_Ok_cases)
  have "good u" and "view u = view s" using load_keeps [OF assms(1) l] by simp_all
  moreover have "view s k = Some v" and "proper v" using load_Ok [OF assms(1) l] by simp_all
  ultimately show ?thesis using save_Ok [OF _ _ w] assms(3) by auto
qed

text \<open>Whatever happens, no other record changes.\<close>

lemma save_other:
  assumes "good s" and "proper v" and "save k v s = (r, t)" and "r = Ok () \<or> (\<exists>e. r = Err e)"
    and "k' \<noteq> k"
  shows "view t k' = view s k'"
  using assms(4)
proof
  assume "r = Ok ()"
  with assms show ?thesis using save_Ok by auto
next
  assume "\<exists>e. r = Err e"
  then obtain e where "r = Err e" by blast
  with assms show ?thesis using save_Err [of s v k e t] by auto
qed

lemma load_after_save:
  assumes "good s" and "proper v" and "save k v s = (Ok (), t)" and "load k t = (Ok v', u)"
  shows "v' = v"
  using save_Ok [OF assms(1-3)] load_Ok [OF _ assms(4)] by auto

lemma load_after_save_other:
  assumes "good s" and "proper v" and "save k v s = (Ok (), t)" and "k' \<noteq> k"
    and "load k' t = (Ok v', u)"
  shows "view s k' = Some v'"
  using save_Ok [OF assms(1-3)] load_Ok [OF _ assms(5)] assms(4) by auto

end

section \<open>The metadata on disk\<close>

definition read_back :: "environ \<Rightarrow> node option \<Rightarrow> instance_metadata option" where
  "read_back e n = (case n of
       Some (File t) \<Rightarrow>
         if utf8 t then (case decode_metadata e t of Inr m \<Rightarrow> Some m | Inl _ \<Rightarrow> None) else None
     | _ \<Rightarrow> None)"

definition stored :: "config \<Rightarrow> sys \<Rightarrow> instance_id \<Rightarrow> instance_metadata option" where
  "stored cfg s i = read_back (env s) (fs s (ip_metadata (paths cfg i)))"

definition tmp_metadata :: "config \<Rightarrow> instance_id \<Rightarrow> path" where
  "tmp_metadata cfg i = state_dir cfg @ [''instances'', show_nat i, ''metadata.json.tmp'']"

text \<open>Only the daemon writes the metadata files, their temporary files and the instance roots.\<close>

definition undisturbed :: "config \<Rightarrow> environ \<Rightarrow> bool" where
  "undisturbed cfg e \<longleftrightarrow> (\<forall>i. \<not> e_area e (ip_metadata (paths cfg i)) \<and> \<not> e_area e (tmp_metadata cfg i)
     \<and> \<not> e_area e (ip_root (paths cfg i)))"

definition clock_ok :: "environ \<Rightarrow> bool" where
  "clock_ok e \<longleftrightarrow> (\<forall>n t. e_system e n = Some t \<longrightarrow> u64 t)"

definition lawful :: "config \<Rightarrow> environ \<Rightarrow> bool" where
  "lawful cfg e \<longleftrightarrow> codec_ok e \<and> clock_ok e \<and> undisturbed cfg e"

definition coherent :: "config \<Rightarrow> sys \<Rightarrow> bool" where
  "coherent cfg s \<longleftrightarrow> (\<forall>i m. cache s i = Some m \<longrightarrow> stored cfg s i = Some m)"

definition good :: "config \<Rightarrow> sys \<Rightarrow> bool" where
  "good cfg s \<longleftrightarrow> lawful cfg (env s) \<and> coherent cfg s"

lemma calm_undisturbed: "calm e \<Longrightarrow> undisturbed cfg e"
  by (simp add: calm_def undisturbed_def)

lemma undisturbed_simps:
  assumes "undisturbed cfg e"
  shows "\<not> e_area e (ip_metadata (paths cfg i))" "\<not> e_area e (tmp_metadata cfg i)"
    "\<not> e_area e (ip_root (paths cfg i))"
  using assms by (auto simp: undisturbed_def simp del: paths_simps)

lemma good_lawful: "good cfg s \<Longrightarrow> lawful cfg (env s)"
  by (simp add: good_def)

lemma good_undisturbed: "good cfg s \<Longrightarrow> undisturbed cfg (env s)"
  by (simp add: good_def lawful_def)

lemma epoch_u64: "clock_ok (env s) \<Longrightarrow> epoch_secs s = (Ok t, u) \<Longrightarrow> u64 t"
  by (auto simp: epoch_secs_def clock_ok_def split: option.splits)

lemma stored_frame:
  assumes "frame A I s t" and "undisturbed cfg (env s)" and "ip_metadata (paths cfg i) \<notin> A"
  shows "stored cfg t i = stored cfg s i"
  using assms undisturbed_simps(1) [OF assms(2)]
  by (simp add: stored_def frame_env frame_fs del: paths_simps)

lemma metadata_not_away: "j \<noteq> i \<Longrightarrow> ip_metadata (paths cfg j) \<notin> away cfg i"
  using tree_away_iff [OF tree_paths(1) [OF prefix_order.order_refl]] by simp

lemma stored_away:
  "frame (away cfg i) I s t \<Longrightarrow> undisturbed cfg (env s) \<Longrightarrow> j \<noteq> i \<Longrightarrow> stored cfg t j = stored cfg s j"
  by (rule stored_frame [OF _ _ metadata_not_away])

section \<open>Decoded metadata are well-formed\<close>

lemma path_from_wf: "CHR ''/'' \<notin> set cur \<Longrightarrow> wf_path (path_from cur s)"
  by (induction cur s rule: path_from.induct) (auto simp: component_def split: if_splits)

lemma wf_path_of [simp]: "wf_path (path_of s)"
  by (simp add: path_of_def path_from_wf)

lemma dec_path_wf: "dec_path j = Some p \<Longrightarrow> wf_path p"
  by (auto simp: dec_path_def)

lemma dec_u64_bound: "dec_u64 j = Some n \<Longrightarrow> u64 n"
  by (auto simp: dec_u64_def dec_range_def u64_def split: json.splits if_splits)

lemma req_u64: "req k dec_u64 r = Some n \<Longrightarrow> u64 n"
  by (auto simp: req_def dec_u64_bound split: option.splits)

lemma dflt_u64: "dflt 0 k dec_u64 r = Some n \<Longrightarrow> u64 n"
  by (auto simp: dflt_def dec_u64_bound u64_def [of 0] split: option.splits)

lemma dflt_path: "dflt [] k dec_path r = Some q \<Longrightarrow> wf_path q"
  by (auto simp: dflt_def dec_path_wf split: option.splits)

lemma dec_struct_Some: "dec_struct known f j = Some x \<Longrightarrow> \<exists>r. f r = Some x"
  by (auto simp: dec_struct_def split: json.splits if_splits)

lemma dec_metadata_wf:
  assumes "dec_metadata j = Some m"
  shows "wf_metadata m"
  using dec_struct_Some [OF assms [unfolded dec_metadata_def]]
  unfolding wf_metadata_def bind_eq_Some_conv
  by (auto dest!: req_u64 dflt_u64 dflt_path)

lemma decode_metadata_wf: "decode_metadata e t = Inr m \<Longrightarrow> wf_metadata m"
  by (auto simp: decode_metadata_def from_str_def dec_metadata_wf split: sum.splits option.splits)

section \<open>Writing\<close>

lemma write_file_Ok:
  "write_file p t s = (Ok (), u) \<Longrightarrow> u = put_file p t (step s)"
  by (auto simp: write_file_def syscall_def split: option.splits)

lemma rename_file_cases:
  assumes "fs (step s) a = Some (File t)" and "rename a b s = (r, u)"
  shows "r = Ok () \<and> u = (step s)\<lparr>fs := (fs (step s))(a := None, b := Some (File t))\<rparr>
    \<or> (\<exists>e. r = Err e \<and> u = step s)"
  using assms by (auto simp: rename_def syscall_def split: option.splits)

lemma io_cases: "io m s = (Ok a, t) \<longleftrightarrow> m s = (Ok a, t)"
  by (simp add: io_def)

lemma ctx_cases: "ctx c m s = (Ok a, t) \<longleftrightarrow> m s = (Ok a, t)"
  by (simp add: ctx_def)

lemma ctx_Err: "ctx c m s = (Err e, t) \<Longrightarrow> \<exists>e'. m s = (Err e', t)"
  by (auto simp: ctx_def mapErr_def split: prod.splits outcome.splits)

lemma tmp_not_metadata [simp]: "tmp_metadata cfg i \<noteq> ip_metadata (paths cfg j)"
  by (simp add: tmp_metadata_def)

lemma metadata_not_above: "\<not> prefix (ip_metadata (paths cfg i)) (ip_root (paths cfg i))"
  by (auto simp: prefix_def)

text \<open>What each stage of a write leaves at the metadata path.\<close>

lemma write_stage_dir:
  assumes "undisturbed cfg (env s)" and "io (create_dir_all (ip_root (paths cfg i))) s = (r, u)"
  shows "env u = env s \<and> fs u (ip_metadata (paths cfg i)) = fs s (ip_metadata (paths cfg i))"
proof -
  have "within (frame {q. prefix q (ip_root (paths cfg i))} {})
      (io (create_dir_all (ip_root (paths cfg i))))"
    by (intro frame_intros) (rule subset_refl)
  then have "frame {q. prefix q (ip_root (paths cfg i))} {} s u" using assms(2) by (rule withinD)
  then show ?thesis
    using undisturbed_simps(1) [OF assms(1)] metadata_not_above
    by (simp add: frame_env frame_fs del: paths_simps)
qed

lemma write_stage_tmp:
  assumes "undisturbed cfg (env s)" and "ctx c (write_file (tmp_metadata cfg i) x) s = (r, u)"
  shows "env u = env s \<and> fs u (ip_metadata (paths cfg i)) = fs s (ip_metadata (paths cfg i))
    \<and> (r = Ok () \<longrightarrow> fs (step u) (tmp_metadata cfg i) = Some (File x))"
proof -
  have "within (frame {tmp_metadata cfg i} {}) (ctx c (write_file (tmp_metadata cfg i) x))"
    by (intro frame_intros) simp
  then have "frame {tmp_metadata cfg i} {} s u" using assms(2) by (rule withinD)
  moreover have "fs (step u) (tmp_metadata cfg i) = Some (File x)" if "r = Ok ()"
    using assms that undisturbed_simps(2) [OF assms(1)]
    by (auto simp: ctx_cases step_fs dest!: write_file_Ok)
  ultimately show ?thesis
    using undisturbed_simps(1) [OF assms(1)]
    using tmp_not_metadata [of cfg i i, symmetric]
    by (auto simp: frame_env frame_fs simp del: paths_simps tmp_not_metadata)
qed

lemma write_stage_rename:
  assumes "undisturbed cfg (env s)" and "fs (step s) (tmp_metadata cfg i) = Some (File x)"
    and "ctx c (rename (tmp_metadata cfg i) (ip_metadata (paths cfg i))) s = (r, u)"
  shows "r = Ok () \<and> fs u (ip_metadata (paths cfg i)) = Some (File x)
    \<or> (\<exists>e. r = Err e) \<and> fs u (ip_metadata (paths cfg i)) = fs s (ip_metadata (paths cfg i))"
proof -
  obtain q v where q: "rename (tmp_metadata cfg i) (ip_metadata (paths cfg i)) s = (q, v)"
    by fastforce
  from rename_file_cases [OF assms(2) q] undisturbed_simps(1) [OF assms(1)] assms(3) q
  show ?thesis by (auto simp: ctx_def mapErr_def step_fs simp del: paths_simps)
qed

lemma write_metadata_unfold:
  "write_metadata (paths cfg i) m = andThen (io (create_dir_all (ip_root (paths cfg i)))) (\<lambda>_.
     andThen (reading (\<lambda>s. e_print (env s) (enc_metadata m))) (\<lambda>text.
     andThen (ctx (''writing metadata tmp '' @ show_path (tmp_metadata cfg i))
       (write_file (tmp_metadata cfg i) text)) (\<lambda>_.
     ctx (''renaming metadata '' @ show_path (ip_metadata (paths cfg i)))
       (rename (tmp_metadata cfg i) (ip_metadata (paths cfg i))))))"
  unfolding write_metadata_def Let_def metadata_tmp metadata_parent tmp_metadata_def ..

text \<open>The old content or the new one, and the new one when the write reports success.\<close>

lemma write_metadata_cases:
  assumes un: "undisturbed cfg (env s)" and w: "write_metadata (paths cfg i) m s = (r, t)"
  shows "fs t (ip_metadata (paths cfg i)) = Some (File (e_print (env s) (enc_metadata m)))
      \<and> r = Ok ()
    \<or> fs t (ip_metadata (paths cfg i)) = fs s (ip_metadata (paths cfg i)) \<and> r \<noteq> Ok ()"
proof -
  let ?text = "e_print (env s) (enc_metadata m)"
  obtain r1 s1 where d: "io (create_dir_all (ip_root (paths cfg i))) s = (r1, s1)" by fastforce
  note d' = write_stage_dir [OF un d]
  show ?thesis
  proof (cases "r1 = Ok ()")
    case False
    then show ?thesis using d d' w
      by (cases r1) (auto simp: write_metadata_unfold simp del: paths_simps)
  next
    case True
    obtain r2 s2 where wt: "ctx (''writing metadata tmp '' @ show_path (tmp_metadata cfg i))
        (write_file (tmp_metadata cfg i) ?text) s1 = (r2, s2)" by fastforce
    have un1: "undisturbed cfg (env s1)" using un d' by simp
    note w' = write_stage_tmp [OF un1 wt]
    show ?thesis
    proof (cases "r2 = Ok ()")
      case False
      then show ?thesis using d d' w True wt w'
        by (cases r2) (auto simp: write_metadata_unfold simp del: paths_simps)
    next
      case Ok2: True
      have un2: "undisturbed cfg (env s2)" using un1 w' by simp
      have "ctx (''renaming metadata '' @ show_path (ip_metadata (paths cfg i)))
          (rename (tmp_metadata cfg i) (ip_metadata (paths cfg i))) s2 = (r, t)"
        using w d d' True wt w' Ok2 by (simp add: write_metadata_unfold del: paths_simps)
      from write_stage_rename [OF un2 _ this] w' d' Ok2 show ?thesis by auto
    qed
  qed
qed

section \<open>The store laws of the metadata files\<close>

lemma decode_printed:
  "codec_ok e \<Longrightarrow> wf_metadata m \<Longrightarrow> decode_metadata e (e_print e (enc_metadata m)) = Inr m"
  by (simp add: decode_metadata_def md.from_pretty)

lemma read_back_printed:
  "codec_ok e \<Longrightarrow> wf_metadata m \<Longrightarrow>
   read_back e (Some (File (e_print e (enc_metadata m)))) = Some m"
  by (simp add: read_back_def decode_printed) (simp add: codec_ok_def)

lemma write_metadata_frame:
  "write_metadata (paths cfg i) m s = (r, t) \<Longrightarrow> frame (away cfg i) {} s t"
  by (rule withinD [OF frame_write_metadata])

lemma write_metadata_env: "write_metadata (paths cfg i) m s = (r, t) \<Longrightarrow> env t = env s"
  by (rule frame_env [OF write_metadata_frame])

lemma write_metadata_cache: "write_metadata (paths cfg i) m s = (r, t) \<Longrightarrow> cache t = cache s"
  using frame_cache [OF write_metadata_frame] by blast

lemma write_metadata_other:
  "lawful cfg (env s) \<Longrightarrow> write_metadata (paths cfg i) m s = (r, t) \<Longrightarrow> j \<noteq> i \<Longrightarrow>
   stored cfg t j = stored cfg s j"
  using stored_away [OF write_metadata_frame] by (simp add: lawful_def)

lemma write_metadata_Ok:
  assumes "lawful cfg (env s)" and "wf_metadata m"
    and "write_metadata (paths cfg i) m s = (Ok (), t)"
  shows "stored cfg t = (stored cfg s)(i := Some m)"
proof (rule ext)
  fix j
  have law: "codec_ok (env s)" "undisturbed cfg (env s)" using assms(1) by (simp_all add: lawful_def)
  show "stored cfg t j = ((stored cfg s)(i := Some m)) j"
  proof (cases "j = i")
    case True
    from write_metadata_cases [OF law(2) assms(3)]
    have "fs t (ip_metadata (paths cfg i)) = Some (File (e_print (env s) (enc_metadata m)))"
      by (simp del: paths_simps)
    with True show ?thesis
      using read_back_printed [OF law(1) assms(2)] write_metadata_env [OF assms(3)]
      by (simp add: stored_def del: paths_simps)
  next
    case False
    then show ?thesis using write_metadata_other [OF assms(1,3)] by simp
  qed
qed

lemma write_metadata_not_Ok:
  assumes "lawful cfg (env s)" and "write_metadata (paths cfg i) m s = (r, t)" and "r \<noteq> Ok ()"
  shows "stored cfg t = stored cfg s"
proof (rule ext)
  fix j
  have un: "undisturbed cfg (env s)" using assms(1) by (simp add: lawful_def)
  show "stored cfg t j = stored cfg s j"
  proof (cases "j = i")
    case True
    from write_metadata_cases [OF un assms(2)] assms(3)
    have "fs t (ip_metadata (paths cfg i)) = fs s (ip_metadata (paths cfg i))"
      by (simp del: paths_simps)
    with True show ?thesis
      using write_metadata_env [OF assms(2)] by (simp add: stored_def del: paths_simps)
  next
    case False
    then show ?thesis using write_metadata_other [OF assms(1,2)] by simp
  qed
qed

definition save_metadata :: "config \<Rightarrow> instance_id \<Rightarrow> instance_metadata \<Rightarrow> unit res" where
  "save_metadata cfg i m = andThen (write_metadata (paths cfg i) m) (\<lambda>_. cache_insert i m)"

lemma stored_cache [simp]: "stored cfg (s\<lparr>cache := c\<rparr>) = stored cfg s"
  by (rule ext) (simp add: stored_def)

lemma save_metadata_Ok:
  assumes "good cfg s" and "wf_metadata m" and "save_metadata cfg i m s = (Ok (), t)"
  shows "good cfg t \<and> stored cfg t = (stored cfg s)(i := Some m)"
proof -
  obtain u where w: "write_metadata (paths cfg i) m s = (Ok (), u)"
    and t: "t = u\<lparr>cache := (cache u)(i := Some m)\<rparr>"
    using assms(3) by (auto simp: save_metadata_def cache_insert_def elim!: andThen_Ok_cases)
  have st: "stored cfg t = (stored cfg s)(i := Some m)"
    using write_metadata_Ok [OF good_lawful [OF assms(1)] assms(2) w]
    by (simp add: t stored_cache)
  moreover have "good cfg t"
    using assms(1) st write_metadata_env [OF w] write_metadata_cache [OF w]
    by (auto simp: good_def coherent_def t)
  ultimately show ?thesis by simp
qed

lemma save_metadata_Err:
  assumes "good cfg s" and "save_metadata cfg i m s = (Err e, t)"
  shows "stored cfg t = stored cfg s"
proof -
  have "write_metadata (paths cfg i) m s = (Err e, t)"
    using assms(2) by (auto simp: save_metadata_def cache_insert_def elim!: andThen_Err_cases)
  then show ?thesis using write_metadata_not_Ok [OF good_lawful [OF assms(1)]] by blast
qed

section \<open>Reading\<close>

lemma metadata_frame: "metadata cfg i s = (r, t) \<Longrightarrow> frame {} {} s t"
  by (rule withinD [OF frame_metadata])

lemma stored_step:
  "undisturbed cfg (env s) \<Longrightarrow> stored cfg (step s) i = stored cfg s i"
  by (rule stored_frame [OF frame_step]) (auto intro: frame_step)

lemma stored_still:
  assumes "frame {} {} s t" and "undisturbed cfg (env s)"
  shows "stored cfg t = stored cfg s"
  using stored_frame [OF assms] by (intro ext) simp

lemma read_to_string_Ok:
  "read_to_string p s = (Ok x, t) \<Longrightarrow> fs (step s) p = Some (File x) \<and> utf8 x \<and> t = step s"
  by (auto simp: read_to_string_def syscall_def split: option.splits node.splits if_splits)

lemma metadata_keeps:
  assumes "good cfg s" and "metadata cfg i s = (r, t)"
  shows "good cfg t" and "stored cfg t = stored cfg s"
proof -
  note f = metadata_frame [OF assms(2)]
  show st: "stored cfg t = stored cfg s"
    using stored_still [OF f good_undisturbed [OF assms(1)]] .
  show "good cfg t"
    using assms(1) st frame_env [OF f] frame_cache [OF f]
    by (simp add: good_def coherent_def)
qed

lemma metadata_Ok_at:
  assumes "undisturbed cfg (env s)" and "\<forall>c. cache s i = Some c \<longrightarrow> stored cfg s i = Some c"
    and "metadata cfg i s = (Ok m, t)"
  shows "stored cfg s i = Some m"
proof (cases "cache s i")
  case (Some c)
  then have "m = c" using assms(3) by (simp add: metadata_def)
  with Some assms(2) show ?thesis by simp
next
  case None
  let ?p = "ip_metadata (paths cfg i)"
  obtain u buf v where o: "ctx (''opening metadata file '' @ show_path ?p) (open_read ?p) s = (Ok (), u)"
    and r: "read_to_string ?p u = (Ok buf, v)" and d: "decode_metadata (env v) buf = Inr m"
    using None assms(3)
    by (auto simp: metadata_def Let_def io_cases split: sum.splits simp del: paths_simps
        elim!: andThen_Ok_cases)
  have fu: "frame {} {} s u" by (rule withinD [OF frame_ctx [OF frame_open_read] o])
  have un: "undisturbed cfg (env u)" using frame_env [OF fu] assms(1) by simp
  have "fs u ?p = Some (File buf)" and "utf8 buf" and "env v = env u"
    using read_to_string_Ok [OF r] undisturbed_simps(1) [OF un]
    by (simp_all add: step_fs del: paths_simps)
  with d have "stored cfg u i = Some m" by (simp add: stored_def read_back_def del: paths_simps)
  then show ?thesis using stored_still [OF fu assms(1)] by simp
qed

lemma metadata_Ok: "good cfg s \<Longrightarrow> metadata cfg i s = (Ok m, t) \<Longrightarrow> stored cfg s i = Some m"
  by (rule metadata_Ok_at) (auto simp: good_undisturbed good_def coherent_def)

lemma stored_wf: "stored cfg s i = Some m \<Longrightarrow> wf_metadata m"
  by (auto simp: stored_def read_back_def decode_metadata_wf
      split: option.splits node.splits if_splits sum.splits)

interpretation ms: record_store "metadata cfg" "save_metadata cfg" "stored cfg" "good cfg" wf_metadata
  for cfg
proof
  fix s i r t
  assume "good cfg s" and "metadata cfg i s = (r, t)"
  then show "good cfg t \<and> stored cfg t = stored cfg s" by (simp add: metadata_keeps)
next
  fix s i m t
  assume "good cfg s" and "metadata cfg i s = (Ok m, t)"
  then have "stored cfg s i = Some m" by (rule metadata_Ok)
  then show "stored cfg s i = Some m \<and> wf_metadata m" by (simp add: stored_wf)
next
  fix s i m t
  assume "good cfg s" and "wf_metadata m" and "save_metadata cfg i m s = (Ok (), t)"
  then show "good cfg t \<and> stored cfg t = (stored cfg s)(i \<mapsto> m)" by (rule save_metadata_Ok)
next
  fix s i m e t
  assume "good cfg s" and "save_metadata cfg i m s = (Err e, t)"
  then have "stored cfg t = stored cfg s" by (rule save_metadata_Err)
  then show "stored cfg t = stored cfg s \<or> stored cfg t = (stored cfg s)(i \<mapsto> m)" ..
qed

section \<open>Writing on an undisturbed machine\<close>

lemma calm_create_dir_all:
  "calm (env s) \<Longrightarrow> \<forall>q \<in> set (prefixes p). \<not> is_file (fs s q) \<Longrightarrow>
   create_dir_all p s = (Ok (), (step s)\<lparr>fs := mkdirs (\<lambda>_. True) p (fs s)\<rparr>)"
  by (auto simp: create_dir_all_def calm_syscall)

lemma mkdirs_there:
  "\<not> is_file (f p) \<Longrightarrow> mkdirs (\<lambda>_. True) p f p = Some Dir"
  by (cases "f p") (auto simp: mkdirs_def is_file_def split: option.splits node.splits)

lemma mkdirs_below: "\<not> prefix q p \<Longrightarrow> mkdirs pick p f q = f q"
  by (simp add: mkdirs_def)

text \<open>The directory of the instance can be created and nothing is in the way of the two files.\<close>

definition writable :: "config \<Rightarrow> sys \<Rightarrow> instance_id \<Rightarrow> bool" where
  "writable cfg s i \<longleftrightarrow> (\<forall>q \<in> set (prefixes (ip_root (paths cfg i))). \<not> is_file (fs s q))
     \<and> fs s (ip_metadata (paths cfg i)) \<noteq> Some Dir \<and> fs s (tmp_metadata cfg i) \<noteq> Some Dir"

lemma calm_write_metadata:
  assumes "calm (env s)" and "writable cfg s i"
  shows "\<exists>t. write_metadata (paths cfg i) m s = (Ok (), t)"
proof -
  let ?R = "ip_root (paths cfg i)" and ?M = "ip_metadata (paths cfg i)" and ?T = "tmp_metadata cfg i"
  let ?x = "e_print (env s) (enc_metadata m)"
  define s1 where "s1 = (step s)\<lparr>fs := mkdirs (\<lambda>_. True) ?R (fs s)\<rparr>"
  define s2 where "s2 = put_file ?T ?x (step s1)"
  have p: "\<not> prefix ?M ?R" "\<not> prefix ?T ?R" "butlast ?M = ?R" "butlast ?T = ?R" "?M \<noteq> []" "?T \<noteq> []"
    "?R \<noteq> ?T" "?M \<noteq> ?T"
    by (auto simp: prefix_def tmp_metadata_def butlast_append)
  have mk: "create_dir_all ?R s = (Ok (), s1)"
    using assms by (simp add: s1_def calm_create_dir_all writable_def del: paths_simps)
  have c1: "calm (env s1)" "env s1 = env s" using assms(1) by (simp_all add: s1_def)
  have dir: "fs s1 ?R = Some Dir"
    using assms(2) by (auto simp: s1_def writable_def simp del: paths_simps intro!: mkdirs_there)
  have old: "fs s1 ?M = fs s ?M" "fs s1 ?T = fs s ?T" using p by (simp_all add: s1_def mkdirs_below del: paths_simps)
  have "open_error ?T (fs s1) = None"
    using p dir old assms(2) by (simp add: open_error_def writable_def del: paths_simps)
  with c1 have wr: "write_file ?T ?x s1 = (Ok (), s2)"
    by (simp add: s2_def calm_write_file)
  have c2: "calm (env s2)" using c1 by (simp add: s2_def)
  have f2: "fs s2 = (fs s1)(?T := Some (File ?x))" using c1 by (simp add: s2_def)
  have "open_error ?M (fs s2) = None"
    using p dir old assms(2) by (simp add: open_error_def writable_def f2 del: paths_simps)
  then have "\<exists>t. rename ?T ?M s2 = (Ok (), t)"
    using c2 by (simp add: rename_def calm_syscall f2 del: paths_simps)
  then show ?thesis
    using mk wr c1(2) by (auto simp: write_metadata_unfold calm_io calm_ctx simp del: paths_simps)
qed

lemma metadata_fresh:
  assumes "calm (env s)" and "cache s i = None" and "utf8 x"
    and "fs s (ip_metadata (paths cfg i)) = Some (File x)" and "decode_metadata (env s) x = Inr m"
  shows "\<exists>t. metadata cfg i s = (Ok m, t) \<and> t = step (step s)"
proof -
  have "ip_metadata (paths cfg i) \<noteq> []" by simp
  then show ?thesis
    using assms
    by (simp add: metadata_def Let_def calm_ctx calm_io calm_open_read calm_read_to_string
        path_exists_def del: paths_simps)
qed

text \<open>A manager made later, with nothing cached: it loads what is on disk, and on a calm machine it
  does load it.\<close>

lemma new_manager_Ok: "new_manager m s = (Ok a, t) \<Longrightarrow> \<exists>u. m (s\<lparr>cache := \<lambda>_. None\<rparr>) = (Ok a, u)"
  by (auto simp: new_manager_def split: prod.splits)

lemma new_manager_loads:
  assumes "undisturbed cfg (env s)" and "new_manager (metadata cfg i) s = (Ok m, t)"
  shows "stored cfg s i = Some m"
proof -
  obtain u where "metadata cfg i (s\<lparr>cache := \<lambda>_. None\<rparr>) = (Ok m, u)"
    using new_manager_Ok [OF assms(2)] ..
  from metadata_Ok_at [OF _ _ this] assms(1) show ?thesis by (simp add: stored_def)
qed

lemma new_manager_finds:
  assumes "calm (env s)" and "stored cfg s i = Some m"
  shows "\<exists>t. new_manager (metadata cfg i) s = (Ok m, t)"
proof -
  let ?s = "s\<lparr>cache := \<lambda>_. None\<rparr>"
  obtain x where x: "fs s (ip_metadata (paths cfg i)) = Some (File x)" "utf8 x" "decode_metadata (env s) x = Inr m"
    using assms(2) by (auto simp: stored_def read_back_def simp del: paths_simps
      split: option.splits node.splits if_splits sum.splits)
  then have "\<exists>t. metadata cfg i ?s = (Ok m, t) \<and> t = step (step ?s)"
    using assms(1) by (intro metadata_fresh [where x = x]) simp_all
  then show ?thesis by (auto simp: new_manager_def)
qed

section \<open>Properties\<close>

definition sample_metadata :: "instance_id \<Rightarrow> instance_metadata" where
  "sample_metadata i = \<lparr>im_id = i, im_purpose = Some ''ci'', im_adb_port = 6520, im_state = Created,
     im_boot_image = [''images'', ''boot.img''], im_init_boot_image = [], im_created_at = 5,
     im_updated_at = 5, im_held = False\<rparr>"

lemma sample_wf: "i < 2 ^ 64 \<Longrightarrow> wf_metadata (sample_metadata i)"
  by (simp add: wf_metadata_def sample_metadata_def u64_def component_def)

lemma quiet_lawful [simp]: "lawful cfg quiet"
  by (simp add: lawful_def calm_undisturbed) (simp add: clock_ok_def quiet_def u64_def)

text \<open>C2: Replacing a metadata file is atomic.  Whatever call fails on the way, the disk has
  either the old metadata of every instance or the new metadata of this one and the old metadata
  of the others, and it has the new metadata exactly when the write reports success.\<close>

theorem metadata_write_atomic:
  assumes "lawful cfg (env s)" and "wf_metadata m" and "write_metadata (paths cfg i) m s = (r, t)"
  shows "stored cfg t = (if r = Ok () then (stored cfg s)(i := Some m) else stored cfg s)"
  using write_metadata_Ok [OF assms(1,2)] write_metadata_not_Ok [OF assms(1,3)] assms(3) by auto

lemma metadata_write_atomic_witness:
  "\<exists>r t. write_metadata (paths default_config 3) (sample_metadata 3) (machine quiet (\<lambda>_. None)) = (r, t)
    \<and> (if r = Ok () then stored default_config t 3 = Some (sample_metadata 3)
       else stored default_config t 3 = None)"
proof -
  let ?s = "machine quiet (\<lambda>_. None)"
  obtain r t where w: "write_metadata (paths default_config 3) (sample_metadata 3) ?s = (r, t)"
    by fastforce
  have "lawful default_config (env ?s)" and "wf_metadata (sample_metadata 3)"
    by (simp_all add: sample_wf)
  from metadata_write_atomic [OF this w] w show ?thesis
    by (auto simp: stored_def read_back_def)
qed

text \<open>C32: Metadata survive the request that wrote them.  When a write reports success, the disk holds
  exactly the metadata written for that instance, and for every other instance what it held before.  A
  manager made later for another request, which has nothing cached, loads nothing but what the disk
  holds, and on a machine without faults it does load it, for every instance that has metadata.\<close>

theorem metadata_load_after_save:
  assumes "lawful cfg (env s)" and "wf_metadata m" and "write_metadata (paths cfg i) m s = (Ok (), t)"
  shows "stored cfg t = (stored cfg s)(i := Some m)
    \<and> (\<forall>j m' u. new_manager (metadata cfg j) t = (Ok m', u) \<longrightarrow> ((stored cfg s)(i := Some m)) j = Some m')
    \<and> (calm (env s) \<longrightarrow> (\<forall>j m'. ((stored cfg s)(i := Some m)) j = Some m' \<longrightarrow>
        (\<exists>u. new_manager (metadata cfg j) t = (Ok m', u))))"
proof -
  have st: "stored cfg t = (stored cfg s)(i := Some m)" by (rule write_metadata_Ok [OF assms])
  have e: "env t = env s" by (rule write_metadata_env [OF assms(3)])
  have un: "undisturbed cfg (env t)" using assms(1) e by (simp add: lawful_def)
  show ?thesis
  proof (intro conjI allI impI)
    fix j m' u
    assume "new_manager (metadata cfg j) t = (Ok m', u)"
    from new_manager_loads [OF un this] st show "((stored cfg s)(i := Some m)) j = Some m'" by simp
  next
    fix j m'
    assume "calm (env s)" and "((stored cfg s)(i := Some m)) j = Some m'"
    then show "\<exists>u. new_manager (metadata cfg j) t = (Ok m', u)"
      using new_manager_finds [of t cfg j m'] st e by simp
  qed (rule st)
qed

lemma metadata_load_after_save_witness:
  "\<exists>t u. write_metadata (paths default_config 3) (sample_metadata 3) (machine quiet (\<lambda>_. None)) = (Ok (), t)
    \<and> stored default_config t 3 = Some (sample_metadata 3)
    \<and> new_manager (metadata default_config 3) t = (Ok (sample_metadata 3), u)"
proof -
  let ?s = "machine quiet (\<lambda>_. None)"
  have w: "writable default_config ?s 3" by (simp add: writable_def is_file_def)
  obtain t where t: "write_metadata (paths default_config 3) (sample_metadata 3) ?s = (Ok (), t)"
    using calm_write_metadata [OF _ w] by auto
  have "lawful default_config (env ?s)" and "wf_metadata (sample_metadata 3)" by (simp_all add: sample_wf)
  note r = metadata_load_after_save [OF this t]
  then have "\<exists>u. new_manager (metadata default_config 3) t = (Ok (sample_metadata 3), u)" by simp
  with t r show ?thesis by auto
qed

end
