(* ===== verification/HostCleanup.thy ===== *)
theory HostCleanup
  imports Store
begin

text \<open>
  What the daemon removes from the host: the guest processes of an instance and the processes that
  hold its files, its network devices, its temporary directories, its instance and assembly
  directories (renamed to a trash name at once and purged by a thread), and the termination of a
  guest through its handle.  The functions of \<open>manager.rs\<close> from \<open>terminate_guest\<close> to
  \<open>snapshot_console_on_failure\<close>.
\<close>

section \<open>Guest processes\<close>

definition guest_process_patterns :: "instance_id \<Rightarrow> string list" where
  "guest_process_patterns i =
     [''--instance_dir=/var/lib/cuttlefish/instances/'' @ show_nat i,
      ''--assembly_dir=/var/lib/cuttlefish/assembly/'' @ show_nat i,
      ''/var/lib/cuttlefish/instances/'' @ show_nat i @ ''/'',
      ''/var/lib/cuttlefish/assembly/'' @ show_nat i @ ''/'',
      ''cvd-'' @ show_nat i]"

definition pids_of_output :: "string \<Rightarrow> int list" where
  "pids_of_output out = List.map_filter (\<lambda>line. parse_i32 (trim line)) (str_lines out)"

definition pgrep :: "int list \<Rightarrow> string \<Rightarrow> (sys, int list, 'e) act" where
  "pgrep seen pattern =
     andThen (attempt (run_cmd [''pgrep'', ''-f'', pattern])) (\<lambda>r.
     case r of
       Inr output \<Rightarrow>
         if status_success (out_status output) then ret (seen @ pids_of_output (out_stdout output))
         else ret seen
     | Inl err \<Rightarrow> ret seen)"

text \<open>The set of pids collected, in ascending order.\<close>

definition collect_guest_pids :: "instance_id \<Rightarrow> (sys, int list, 'e) act" where
  "collect_guest_pids i =
     andThen (foldM pgrep [] (guest_process_patterns i)) (\<lambda>seen.
     ret (sort (remdups seen)))"

definition pkill_pattern :: "string \<Rightarrow> string option \<Rightarrow> bool res" where
  "pkill_pattern pattern sig =
     andThen (ctx (''invoking pkill '' @ (case sig of None \<Rightarrow> '''' | Some g \<Rightarrow> g @ '' ''))
       (run_cmd (''pkill'' # (case sig of None \<Rightarrow> [] | Some g \<Rightarrow> [g]) @ [''-f'', pattern])))
     (\<lambda>output.
     case status_code (out_status output) of
       Some code \<Rightarrow>
         if code = 0 then ret True
         else if code = 1 then ret False
         else raise (Msg (''pkill -f '' @ pattern @ '' exited with '' @ show_int code))
     | None \<Rightarrow> raise (Msg (''pkill -f '' @ pattern @ '' terminated by signal'')))"

definition kill_pid :: "string \<Rightarrow> (sys, unit, 'e) act" where
  "kill_pid pid = ignoring (run_command_allow_failure ''kill'' [''-9'', pid])"

definition kill_guest_processes :: "instance_id \<Rightarrow> (sys, bool, 'e) act" where
  "kill_guest_processes i =
     andThen (forEach (\<lambda>pattern. ignoring (pkill_pattern pattern (Some ''-9'')))
       (guest_process_patterns i)) (\<lambda>_.
     andThen (sleep (millis 200)) (\<lambda>_.
     andThen (collect_guest_pids i) (\<lambda>remaining.
     if remaining = [] then ret True
     else
       andThen (forEach (\<lambda>pid. kill_pid (show_int pid)) remaining) (\<lambda>_.
       andThen (sleep (millis 200)) (\<lambda>_.
       andThen (collect_guest_pids i) (\<lambda>remaining.
       ret (remaining = [])))))))"

definition holder_pids :: "string \<Rightarrow> string list" where
  "holder_pids out = filter (\<lambda>s. trim s \<noteq> []) (str_lines out)"

definition kill_open_file_holders :: "string list \<Rightarrow> (sys, unit, 'e) act" where
  "kill_open_file_holders files =
     forEach (\<lambda>path.
       andThen (attempt (run_command_capture ''lsof'' [''-t'', path])) (\<lambda>r.
       case r of
         Inr output \<Rightarrow> forEach kill_pid (holder_pids output)
       | Inl err \<Rightarrow> ret ())) files"

section \<open>Devices and directories\<close>

definition remove_network_devices :: "instance_id \<Rightarrow> (sys, unit, 'e) act" where
  "remove_network_devices i =
     andThen (forEach (\<lambda>tap. ignoring (run_command_allow_failure ''ip'' [''tuntap'', ''del'', ''dev'', tap]))
       [''cvd-mtap-'' @ pad2 i, ''cvd-tap-'' @ pad2 i]) (\<lambda>_.
     ignoring (run_command_allow_failure ''ip'' [''link'', ''del'', ''cvd-eth-'' @ pad2 i]))"

definition ephemeral_dirs :: "instance_id \<Rightarrow> path list" where
  "ephemeral_dirs i =
     [[''tmp'', ''cf_avd_0'', ''cvd-'' @ show_nat i],
      [''tmp'', ''cf_env_0'', ''env-'' @ show_nat i],
      [''tmp'', ''cf_img_0'', ''cvd-'' @ show_nat i]]"

definition remove_ephemeral_dirs :: "instance_id \<Rightarrow> (sys, unit, 'e) act" where
  "remove_ephemeral_dirs i = forEach (\<lambda>d. ignoring (remove_dir_all d)) (ephemeral_dirs i)"

definition cuttlefish_config_link :: path where
  "cuttlefish_config_link = [''var'', ''lib'', ''cuttlefish'', ''.cuttlefish_config.json'']"

definition remove_cuttlefish_config_symlink :: "(sys, unit, 'e) act" where
  "remove_cuttlefish_config_symlink = ignoring (remove_file cuttlefish_config_link)"

definition host_instance_dir :: "config \<Rightarrow> instance_id \<Rightarrow> path" where
  "host_instance_dir cfg i = cuttlefish_instances_dir cfg @ [show_nat i]"

definition host_assembly_dir :: "config \<Rightarrow> instance_id \<Rightarrow> path" where
  "host_assembly_dir cfg i = cuttlefish_assembly_dir cfg @ [show_nat i]"

section \<open>Trash\<close>

definition make_trash_path :: "path \<Rightarrow> (sys, path, 'e) act" where
  "make_trash_path p =
     andThen (attempt epoch_secs) (\<lambda>r.
     andThen (reading (\<lambda>s. e_pid (env s))) (\<lambda>pid.
     let name = (if p = [] then ''trash'' else last p);
         epoch = (case r of Inr n \<Rightarrow> n | Inl _ \<Rightarrow> 0) in
     ret (butlast p @ [name @ ''.__trash__.'' @ show_nat epoch @ ''.'' @ show_nat pid])))"

text \<open>\<open>fs::symlink_metadata(p).is_err()\<close>: no such file, or the call failed.\<close>

definition stat_fails :: "path \<Rightarrow> (sys, bool, 'e) act" where
  "stat_fails p =
     andThen (attempt (syscall (\<lambda>f s. s)
       (\<lambda>s. if path_exists p s then (Ok (), s) else (Err enoent, s)))) (\<lambda>r.
     ret (case r of Inl _ \<Rightarrow> True | Inr _ \<Rightarrow> False))"

definition trash_then_purge_async :: "path \<Rightarrow> unit res" where
  "trash_then_purge_async p =
     andThen (stat_fails p) (\<lambda>missing.
     if missing then ret ()
     else
       andThen (make_trash_path p) (\<lambda>trash.
       andThen (ctx (''renaming '' @ show_path p @ '' -> '' @ show_path trash
           @ '' before async purge'') (rename p trash)) (\<lambda>_.
       spawn_thread (PurgeTrash trash))))"

text \<open>The bodies of the background threads.\<close>

definition purge_trash :: "path \<Rightarrow> (sys, unit, 'e) act" where
  "purge_trash p = ignoring (remove_dir_all p)"

definition reset_cuttlefish_permissions :: "(sys, unit, 'e) act" where
  "reset_cuttlefish_permissions =
     andThen (ignoring (run_command_allow_failure ''chown''
       [''-R'', ''justin:cvdnetwork'', ''/var/lib/cuttlefish''])) (\<lambda>_.
     ignoring (run_command_allow_failure ''chmod'' [''-R'', ''g+rwX'', ''/var/lib/cuttlefish'']))"

section \<open>Whole cleanups\<close>

definition preflight_cleanup :: "instance_id \<Rightarrow> unit res" where
  "preflight_cleanup i =
     andThen (kill_guest_processes i) (\<lambda>guests_gone.
     andThen (remove_network_devices i) (\<lambda>_.
     andThen (remove_ephemeral_dirs i) (\<lambda>_.
     andThen remove_cuttlefish_config_symlink (\<lambda>_.
     ret ()))))"

definition trash_host_dirs :: "config \<Rightarrow> instance_id \<Rightarrow> string list \<Rightarrow> (sys, string list, 'e) act" where
  "trash_host_dirs cfg i steps =
     andThen (ignoring (trash_then_purge_async (host_instance_dir cfg i))) (\<lambda>_.
     let steps = steps @ [''trash_instance_dir''] in
     andThen (ignoring (trash_then_purge_async (host_assembly_dir cfg i))) (\<lambda>_.
     ret (steps @ [''trash_assembly_dir''])))"

text \<open>The second half, from the collection of the surviving processes on.\<close>

definition cleanup_survivors ::
  "config \<Rightarrow> instance_id \<Rightarrow> string list \<Rightarrow> (sys, cleanup_outcome, 'e) act"
where
  "cleanup_survivors cfg i steps =
     andThen (collect_guest_pids i) (\<lambda>remaining.
     let steps = steps @ [''collect_guest_pids''] in
     andThen (if remaining = [] then trash_host_dirs cfg i steps else ret steps) (\<lambda>steps.
     andThen (spawn_thread ResetPermissions) (\<lambda>_.
     let steps = steps @ [''reset_permissions''] in
     ret (from_parts remaining steps))))"

definition cleanup_host_state :: "config \<Rightarrow> instance_id \<Rightarrow> (sys, cleanup_outcome, 'e) act" where
  "cleanup_host_state cfg i =
     andThen (kill_guest_processes i) (\<lambda>_.
     let steps = [''kill_guest_processes''] in
     andThen (remove_network_devices i) (\<lambda>_.
     let steps = steps @ [''remove_network_devices''] in
     andThen (remove_ephemeral_dirs i) (\<lambda>_.
     let steps = steps @ [''remove_ephemeral_dirs''] in
     andThen remove_cuttlefish_config_symlink (\<lambda>_.
     let steps = steps @ [''remove_cuttlefish_config_symlink''] in
     andThen (kill_open_file_holders
       [''/var/lib/cuttlefish/instances/'' @ show_nat i,
        ''/var/lib/cuttlefish/assembly/'' @ show_nat i]) (\<lambda>_.
     let steps = steps @ [''kill_open_file_holders''] in
     cleanup_survivors cfg i steps)))))"

section \<open>Termination through the handle\<close>

definition terminate_guest :: "instance_id \<Rightarrow> nat \<Rightarrow> exit_info option res" where
  "terminate_guest i grace =
     andThen (registry_get i) (\<lambda>h.
     case h of
       None \<Rightarrow> ret None
     | Some a \<Rightarrow>
         andThen (signal a sigterm) (\<lambda>_.
         andThen (wait_timeout a grace) (\<lambda>r.
         case r of
           Some exit \<Rightarrow> andThen (remove_if_handle i a) (\<lambda>_. ret (Some exit))
         | None \<Rightarrow>
             andThen (signal a sigkill) (\<lambda>_.
             andThen (wait_timeout a (secs 5)) (\<lambda>r.
             case r of
               Some exit \<Rightarrow> andThen (remove_if_handle i a) (\<lambda>_. ret (Some exit))
             | None \<Rightarrow> andThen (remove_if_handle i a) (\<lambda>_. ret None))))))"

section \<open>Logs of the guest\<close>

definition guest_log_tail :: "config \<Rightarrow> instance_id \<Rightarrow> nat \<Rightarrow> string option res" where
  "guest_log_tail cfg i n =
     (let p = ip_run_log (paths cfg i) in
     andThen (reading (path_exists p)) (\<lambda>there.
     if \<not> there then ret None
     else andThen (tail_file p n) (\<lambda>content. ret (Some content))))"

definition console_log_path :: "config \<Rightarrow> instance_id \<Rightarrow> path" where
  "console_log_path cfg i =
     cuttlefish_instances_dir cfg @ [show_nat i, ''instances'', ''cvd-'' @ show_nat i, ''console_log'']"

definition snapshot_console_on_failure :: "config \<Rightarrow> instance_id \<Rightarrow> instance_paths \<Rightarrow> unit res" where
  "snapshot_console_on_failure cfg i p =
     (let log = console_log_path cfg i; snap = ip_root p @ [''console_snapshot.log''] in
     andThen (reading (path_exists log)) (\<lambda>there.
     if \<not> there then ret ()
     else ctx (''copying console log '' @ show_path log @ '' to '' @ show_path snap)
       (copy_file log snap)))"

section \<open>Frames\<close>

text \<open>
  The cleanup of instance \<open>i\<close> touches no file of another instance and at most the registry entry
  of \<open>i\<close>.
\<close>

lemma frame_pgrep [frame_intros]: "within (frame A I) (pgrep seen pattern)"
  unfolding pgrep_def by (intro frame_intros)

lemma frame_collect_guest_pids [frame_intros]: "within (frame A I) (collect_guest_pids i)"
  unfolding collect_guest_pids_def by (intro frame_intros)

lemma frame_pkill_pattern [frame_intros]: "within (frame A I) (pkill_pattern pattern sig)"
  unfolding pkill_pattern_def by (intro frame_intros)

lemma frame_kill_pid [frame_intros]: "within (frame A I) (kill_pid pid)"
  unfolding kill_pid_def by (intro frame_intros)

lemma frame_kill_guest_processes [frame_intros]: "within (frame A I) (kill_guest_processes i)"
  unfolding kill_guest_processes_def by (intro frame_intros)

lemma frame_kill_open_file_holders [frame_intros]: "within (frame A I) (kill_open_file_holders ps)"
  unfolding kill_open_file_holders_def by (intro frame_intros)

lemma frame_remove_network_devices [frame_intros]: "within (frame A I) (remove_network_devices i)"
  unfolding remove_network_devices_def by (intro frame_intros)

lemma frame_remove_ephemeral_dirs:
  assumes "outside cfg \<subseteq> A" and "apart cfg"
  shows "within (frame A I) (remove_ephemeral_dirs i)"
proof -
  have "{q. prefix d q} \<subseteq> A" if "d \<in> set (ephemeral_dirs i)" for d
    using that by (intro outside_below [OF assms outside_members(4)]) (auto simp: ephemeral_dirs_def)
  then show ?thesis unfolding remove_ephemeral_dirs_def by (intro frame_intros)
qed

lemma frame_remove_cuttlefish_config_symlink:
  assumes "outside cfg \<subseteq> A" and "apart cfg"
  shows "within (frame A I) remove_cuttlefish_config_symlink"
proof -
  have "cuttlefish_config_link \<in> A"
    by (rule outside_in [OF assms outside_members(5)]) (simp add: cuttlefish_config_link_def)
  then show ?thesis unfolding remove_cuttlefish_config_symlink_def by (intro frame_intros)
qed

lemma frame_stat_fails [frame_intros]: "within (frame A I) (stat_fails p)"
  unfolding stat_fails_def
  by (intro frame_intros frame_syscall fr.stay withinI) (simp add: fr.stay)

text \<open>A trash path is a sibling of the path it replaces.\<close>

definition sibling_area :: "path \<Rightarrow> path set" where
  "sibling_area p = {q. prefix (butlast p) q}"

lemma make_trash_path_sibling:
  "make_trash_path p s = (Ok q, t) \<Longrightarrow> \<exists>x. q = butlast p @ [x]"
  by (auto simp: make_trash_path_def Let_def elim!: andThen_Ok_cases)

lemma frame_trash:
  assumes "sibling_area p \<subseteq> A" and "p \<noteq> []"
  shows "within (frame A I) (trash_then_purge_async p)"
proof -
  have own: "{q. prefix p q} \<subseteq> A"
    using assms prefixeq_butlast prefix_order.order_trans
    by (force simp: sibling_area_def)
  have sib: "{q. prefix (butlast p @ [x]) q} \<subseteq> A" for x
    using assms by (auto simp: sibling_area_def dest: append_prefixD)
  have "within (frame A I) (make_trash_path p)"
    unfolding make_trash_path_def Let_def by (intro frame_intros)
  then have "within (frame A I)
      (andThen (make_trash_path p) (\<lambda>trash.
       andThen (ctx (''renaming '' @ show_path p @ '' -> '' @ show_path trash
           @ '' before async purge'') (rename p trash)) (\<lambda>_.
       spawn_thread (PurgeTrash trash))))"
    using make_trash_path_sibling
    by (rule fr.within_andThen_post) (auto intro!: frame_intros own sib)
  then show ?thesis
    unfolding trash_then_purge_async_def
    by (intro fr.within_andThen [OF frame_stat_fails] fr.within_if fr.within_ret)
qed

text \<open>The host directories of an instance.\<close>

lemma host_dirs_simps [simp]:
  "butlast (host_instance_dir cfg i) = cuttlefish_instances_dir cfg"
  "butlast (host_assembly_dir cfg i) = cuttlefish_assembly_dir cfg"
  "host_instance_dir cfg i \<noteq> []" "host_assembly_dir cfg i \<noteq> []"
  by (simp_all add: host_instance_dir_def host_assembly_dir_def)

lemma frame_trash_host [frame_intros]:
  assumes "outside cfg \<subseteq> A" and "apart cfg"
  shows "within (frame A I) (trash_then_purge_async (host_instance_dir cfg i))"
    and "within (frame A I) (trash_then_purge_async (host_assembly_dir cfg i))"
proof -
  have "sibling_area (host_instance_dir cfg i) \<subseteq> A"
    unfolding sibling_area_def host_dirs_simps
    by (rule outside_below [OF assms outside_members(2)]) simp
  then show "within (frame A I) (trash_then_purge_async (host_instance_dir cfg i))"
    by (rule frame_trash) simp
  have "sibling_area (host_assembly_dir cfg i) \<subseteq> A"
    unfolding sibling_area_def host_dirs_simps
    by (rule outside_below [OF assms outside_members(3)]) simp
  then show "within (frame A I) (trash_then_purge_async (host_assembly_dir cfg i))"
    by (rule frame_trash) simp
qed

lemma frame_cleanup_host_state [frame_intros]:
  assumes "outside cfg \<subseteq> A" and "apart cfg" shows "within (frame A I) (cleanup_host_state cfg i)"
  unfolding cleanup_host_state_def cleanup_survivors_def trash_host_dirs_def Let_def
  by (intro frame_remove_ephemeral_dirs [OF assms] frame_remove_cuttlefish_config_symlink [OF assms]
      frame_trash_host [OF assms] frame_intros)

lemma frame_preflight_cleanup:
  assumes "outside cfg \<subseteq> A" and "apart cfg" shows "within (frame A I) (preflight_cleanup i)"
  unfolding preflight_cleanup_def
  by (intro frame_remove_ephemeral_dirs [OF assms] frame_remove_cuttlefish_config_symlink [OF assms]
      frame_intros)

lemma frame_reset_permissions [frame_intros]:
  "within (frame A I) reset_cuttlefish_permissions"
  unfolding reset_cuttlefish_permissions_def by (intro frame_intros)

lemma frame_terminate_guest [frame_intros]: "i \<in> I \<Longrightarrow> within (frame A I) (terminate_guest i d)"
  unfolding terminate_guest_def by (intro frame_intros)

lemma frame_guest_log_tail [frame_intros]: "within (frame A I) (guest_log_tail cfg i n)"
  unfolding guest_log_tail_def Let_def by (intro frame_intros)

lemma frame_snapshot_console [frame_intros]:
  "within (frame (away cfg i) I) (snapshot_console_on_failure cfg i (paths cfg i))"
  unfolding snapshot_console_on_failure_def Let_def
  by (intro frame_intros own_in) simp

section \<open>The cleanup never fails\<close>

lemma returns_pkill_pattern [returns_intros]: "returns (pkill_pattern pattern sig)"
  unfolding pkill_pattern_def by (intro returns_intros)

lemma succeeds_pgrep [succeeds_intros]: "succeeds (pgrep seen pattern)"
  unfolding pgrep_def by (intro succeeds_intros returns_intros)

lemma succeeds_collect_guest_pids [succeeds_intros]: "succeeds (collect_guest_pids i)"
  unfolding collect_guest_pids_def by (intro succeeds_intros)

lemma succeeds_kill_pid [succeeds_intros]: "succeeds (kill_pid pid)"
  unfolding kill_pid_def by (intro succeeds_intros returns_intros)

lemma succeeds_kill_guest_processes [succeeds_intros]: "succeeds (kill_guest_processes i)"
  unfolding kill_guest_processes_def by (intro succeeds_intros returns_intros)

lemma succeeds_kill_open_file_holders [succeeds_intros]: "succeeds (kill_open_file_holders ps)"
  unfolding kill_open_file_holders_def by (intro succeeds_intros returns_intros)

lemma succeeds_remove_network_devices [succeeds_intros]: "succeeds (remove_network_devices i)"
  unfolding remove_network_devices_def by (intro succeeds_intros returns_intros)

lemma succeeds_remove_ephemeral_dirs [succeeds_intros]: "succeeds (remove_ephemeral_dirs i)"
  unfolding remove_ephemeral_dirs_def by (intro succeeds_intros returns_intros)

lemma succeeds_remove_symlink [succeeds_intros]: "succeeds remove_cuttlefish_config_symlink"
  unfolding remove_cuttlefish_config_symlink_def by (intro succeeds_intros returns_intros)

lemma succeeds_stat_fails [succeeds_intros]: "succeeds (stat_fails p)"
  unfolding stat_fails_def
  by (intro succeeds_intros returns_syscall) (simp add: returns_def)

lemma succeeds_make_trash_path [succeeds_intros]: "succeeds (make_trash_path p)"
  unfolding make_trash_path_def Let_def by (intro succeeds_intros returns_intros)

lemma returns_trash [returns_intros]: "returns (trash_then_purge_async p)"
  unfolding trash_then_purge_async_def
  by (intro returns_intros succeeds_returns [OF succeeds_stat_fails]
      succeeds_returns [OF succeeds_make_trash_path])

lemma succeeds_cleanup_host_state [succeeds_intros]: "succeeds (cleanup_host_state cfg i)"
  unfolding cleanup_host_state_def cleanup_survivors_def trash_host_dirs_def Let_def
  by (intro succeeds_intros returns_intros)

lemma succeeds_preflight_cleanup [succeeds_intros]: "succeeds (preflight_cleanup i)"
  unfolding preflight_cleanup_def by (intro succeeds_intros)

lemma returns_guest_log_tail [returns_intros]: "returns (guest_log_tail cfg i n)"
  unfolding guest_log_tail_def Let_def by (intro returns_intros)

lemma returns_snapshot_console [returns_intros]: "returns (snapshot_console_on_failure cfg i p)"
  unfolding snapshot_console_on_failure_def Let_def by (intro returns_intros)

section \<open>What the cleanup reports\<close>

text \<open>The steps from the collection of the surviving processes on.\<close>

definition last_steps :: "int list \<Rightarrow> string list" where
  "last_steps ps = [''collect_guest_pids'']
     @ (if ps = [] then [''trash_instance_dir'', ''trash_assembly_dir''] else [])
     @ [''reset_permissions'']"

definition cleanup_steps :: "int list \<Rightarrow> string list" where
  "cleanup_steps ps = [''kill_guest_processes'', ''remove_network_devices'',
     ''remove_ephemeral_dirs'', ''remove_cuttlefish_config_symlink'', ''kill_open_file_holders'']
     @ last_steps ps"

lemma collect_guest_pids_sorted: "yields (collect_guest_pids i) (\<lambda>ps. sorted ps \<and> distinct ps)"
  unfolding collect_guest_pids_def by (intro yields_then yields_ret) simp

lemma trash_host_dirs_yields:
  "yields (trash_host_dirs cfg i steps)
    (\<lambda>st. st = steps @ [''trash_instance_dir'', ''trash_assembly_dir''])"
  unfolding trash_host_dirs_def Let_def by (intro yields_then yields_ret) simp

lemma cleanup_survivors_yields:
  "yields (cleanup_survivors cfg i steps)
    (\<lambda>c. \<exists>ps. sorted ps \<and> distinct ps \<and> c = from_parts ps (steps @ last_steps ps))"
  unfolding cleanup_survivors_def Let_def
proof (rule yields_andThen [OF collect_guest_pids_sorted])
  fix ps :: "int list"
  assume ps: "sorted ps \<and> distinct ps"
  let ?steps = "steps @ [''collect_guest_pids'']"
  have "yields (if ps = [] then trash_host_dirs cfg i ?steps else ret ?steps)
      (\<lambda>st. st @ [''reset_permissions''] = steps @ last_steps ps)"
  proof (rule yields_if)
    assume "ps = []"
    then show "yields (trash_host_dirs cfg i ?steps)
        (\<lambda>st. st @ [''reset_permissions''] = steps @ last_steps ps)"
      using trash_host_dirs_yields [of cfg i ?steps] by (simp add: yields_def last_steps_def)
  qed (rule yields_ret, simp add: last_steps_def)
  then show "yields (andThen (if ps = [] then trash_host_dirs cfg i ?steps else ret ?steps) (\<lambda>steps.
      andThen (spawn_thread ResetPermissions) (\<lambda>_.
      ret (from_parts ps (steps @ [''reset_permissions'']))))) (\<lambda>c. \<exists>ps.
      sorted ps \<and> distinct ps \<and> c = from_parts ps (steps @ last_steps ps))"
    by (rule yields_andThen) (intro yields_then yields_ret exI conjI; use ps in simp)
qed

lemma cleanup_host_state_yields:
  "yields (cleanup_host_state cfg i)
    (\<lambda>c. \<exists>ps. sorted ps \<and> distinct ps \<and> c = from_parts ps (cleanup_steps ps))"
  unfolding cleanup_host_state_def Let_def cleanup_steps_def append_Cons append_Nil
  by (intro yields_then)
    (rule cleanup_survivors_yields [where steps = "[''kill_guest_processes'',
      ''remove_network_devices'', ''remove_ephemeral_dirs'', ''remove_cuttlefish_config_symlink'',
      ''kill_open_file_holders'']", unfolded append_Cons append_Nil])

lemma cleanup_killed_iff:
  "cleanup_host_state cfg i s = (Ok c, t) \<Longrightarrow>
   co_guest_processes_killed c \<longleftrightarrow> co_remaining_pids c = []"
  using yieldsD [OF cleanup_host_state_yields] by (fastforce simp: from_parts_def)

section \<open>Properties\<close>

text \<open>The arguments of a launch command, searched by \<open>pkill -f\<close> and \<open>pgrep -f\<close>.\<close>

lemma pattern_in_longer:
  assumes "prefix (show_nat i) (show_nat j)"
  shows "str_contains (a @ ''cvd-'' @ show_nat j @ b) (''cvd-'' @ show_nat i)"
proof -
  obtain r where "show_nat j = show_nat i @ r" using assms by (auto simp: prefix_def)
  then have "a @ ''cvd-'' @ show_nat j @ b = a @ (''cvd-'' @ show_nat i) @ (r @ b)" by simp
  then show ?thesis unfolding str_contains_iff by blast
qed

text \<open>C34: The patterns of instance \<open>i\<close> match every process of instance \<open>i\<close> whose command line
  names its runtime directory \<open>cvd-i\<close>, and also every such process of an instance whose number
  merely starts with the digits of \<open>i\<close>: killing the processes of instance 1 kills those of
  instances 10 to 19.\<close>

theorem patterns_match_longer_ids:
  assumes "prefix (show_nat i) (show_nat j)"
  shows "\<exists>p \<in> set (guest_process_patterns i). str_contains (a @ ''cvd-'' @ show_nat j @ b) p"
  using pattern_in_longer [OF assms] by (auto simp: guest_process_patterns_def)

lemma patterns_match_longer_ids_witness:
  "\<exists>p \<in> set (guest_process_patterns 1).
     str_contains (''crosvm --socket=/tmp/cf_avd_0/'' @ ''cvd-'' @ show_nat 12 @ ''/control'') p"
proof -
  have "prefix (show_nat 1) (show_nat 12)" by code_simp
  then show ?thesis by (rule patterns_match_longer_ids)
qed

end
