(* ===== verification/Launch.thy ===== *)
theory Launch
  imports HostCleanup
begin

text \<open>
  Launching a guest, from \<open>manager.rs\<close>: fresh host directories, the run log, the QEMU data
  directory, the credentials, and the command line and environment of the guest process
  (\<open>prepare_host_directories\<close>, \<open>prepare_run_log\<close>, \<open>ensure_qemu_datadir\<close>, \<open>resolve_uid\<close>,
  \<open>resolve_gid\<close>, \<open>spawn_guest_process\<close>).
\<close>

section \<open>Directories and the run log\<close>

definition prepare_host_directories :: "config \<Rightarrow> instance_id \<Rightarrow> unit res" where
  "prepare_host_directories cfg i =
     (let instance_dir = host_instance_dir cfg i; assembly_dir = host_assembly_dir cfg i in
     andThen (ctx (''creating instances root '' @ show_path (butlast instance_dir))
       (create_dir_all (butlast instance_dir))) (\<lambda>_.
     andThen (ctx (''creating assembly root '' @ show_path (butlast assembly_dir))
       (create_dir_all (butlast assembly_dir))) (\<lambda>_.
     andThen (stat_fails instance_dir) (\<lambda>missing.
     andThen (whenever (\<not> missing) (trash_then_purge_async instance_dir)) (\<lambda>_.
     andThen (stat_fails assembly_dir) (\<lambda>missing.
     andThen (whenever (\<not> missing) (trash_then_purge_async assembly_dir)) (\<lambda>_.
     andThen (ctx (''creating instance dir '' @ show_path instance_dir)
       (create_dir_all instance_dir)) (\<lambda>_.
     ctx (''creating assembly dir '' @ show_path assembly_dir)
       (create_dir_all assembly_dir)))))))))"

text \<open>The run log, created or emptied; the open file is named by its path.\<close>

definition prepare_run_log :: "instance_paths \<Rightarrow> path res" where
  "prepare_run_log p =
     andThen (io (create_dir_all (butlast (ip_run_log p)))) (\<lambda>_.
     andThen (ctx (''opening run log '' @ show_path (ip_run_log p)) (write_file (ip_run_log p) []))
       (\<lambda>_. ret (ip_run_log p)))"

definition qemu_datadir :: path where
  "qemu_datadir = [''var'', ''lib'', ''cuttlefish'', ''usr'', ''share'', ''qemu'', ''x86_64-linux-gnu'']"

definition ensure_qemu_datadir :: "config \<Rightarrow> unit res" where
  "ensure_qemu_datadir cfg =
     (let target = qemu_datadir @ [''kvmvapic.bin'']; fhs = show_path (cuttlefish_fhs cfg) in
     andThen (ctx (''creating qemu datadir '' @ show_path qemu_datadir)
       (create_dir_all qemu_datadir)) (\<lambda>_.
     andThen (reading (path_exists target)) (\<lambda>there.
     if there then ret ()
     else
       andThen (ctx (''ensure_qemu_datadir: invoking '' @ fhs @ '' to read kvmvapic.bin'')
         (run_cmd [fhs, ''--'', ''cat'', ''/usr/share/qemu/kvmvapic.bin''])) (\<lambda>output.
       if \<not> status_success (out_status output) then ret ()
       else
         andThen (ctx (''ensure_qemu_datadir: writing '' @ show_path target)
           (write_file target (out_stdout output))) (\<lambda>_.
         ctx (''ensure_qemu_datadir: setting permissions on '' @ show_path target)
           (set_permissions target 420))))))"

section \<open>Credentials and capabilities\<close>

definition quoted :: "string \<Rightarrow> string" where
  "quoted s = [CHR 0x27] @ s @ [CHR 0x27]"

definition nul_error :: "string \<Rightarrow> string" where
  "nul_error s = ''nul byte found in provided data at position: ''
     @ show_nat (length (takeWhile (\<lambda>c. c \<noteq> CHR 0x00) s))"

definition resolve_uid :: "string \<Rightarrow> nat res" where
  "resolve_uid user =
     (if CHR 0x00 \<in> set user then raise (Ctx (''invalid username: '' @ user) (Msg (nul_error user)))
      else andThen (reading (\<lambda>s. e_user (env s) user)) (\<lambda>r.
      case r of
        None \<Rightarrow> raise (Msg (''user '' @ quoted user @ '' not found''))
      | Some uid \<Rightarrow> ret uid))"

definition resolve_gid :: "string \<Rightarrow> nat res" where
  "resolve_gid grp =
     (if CHR 0x00 \<in> set grp then raise (Ctx (''invalid group name: '' @ grp) (Msg (nul_error grp)))
      else andThen (reading (\<lambda>s. e_group (env s) grp)) (\<lambda>r.
      case r of
        None \<Rightarrow> raise (Msg (''group '' @ quoted grp @ '' not found''))
      | Some gid \<Rightarrow> ret gid))"

definition signed_capability :: "string \<Rightarrow> string" where
  "signed_capability c =
     (if prefix ''+'' c \<or> prefix ''-'' c then c else ''+'' @ c)"

definition capability_args :: "string list \<Rightarrow> string list" where
  "capability_args cs = map signed_capability (filter (\<lambda>c. c \<noteq> []) (map trim cs))"

section \<open>The guest command\<close>

definition preserve_vars :: "string list" where
  "preserve_vars = [''CUTTLEFISH_INSTANCE'', ''CUTTLEFISH_INSTANCE_NUM'', ''CUTTLEFISH_ADB_TCP_PORT'',
     ''CUTTLEFISH_DISABLE_HOST_GPU'', ''GFXSTREAM_DISABLE_GRAPHICS_DETECTOR'', ''GFXSTREAM_HEADLESS'']"

definition bool_text :: "bool \<Rightarrow> string" where
  "bool_text b = (if b then ''true'' else ''false'')"

definition sudo_args :: "config \<Rightarrow> string list" where
  "sudo_args cfg = [''sudo'', ''-u'', guest_user cfg, ''-g'', guest_primary_group cfg]
     @ map (\<lambda>v. ''--preserve-env='' @ v) preserve_vars @ [''--'']"

definition setpriv_args :: "config \<Rightarrow> string list" where
  "setpriv_args cfg = (let caps = capability_args (guest_capabilities cfg) in
     if caps \<noteq> [] then [''setpriv'', ''--ambient-caps'', str_join '','' caps, ''--''] else [])"

definition wrapper_args :: "config \<Rightarrow> string option \<Rightarrow> string list" where
  "wrapper_args cfg track = (case track of
       Some t \<Rightarrow> [''cfenv'', ''-t'', t, ''--'']
     | None \<Rightarrow> [show_path (cuttlefish_fhs cfg), ''--''])"

definition launch_args :: "config \<Rightarrow> instance_id \<Rightarrow> bool \<Rightarrow> string list" where
  "launch_args cfg i webrtc =
     [''launch_cvd'',
      ''--system_image_dir='' @ show_path (cuttlefish_system_image_dir cfg),
      ''--instance_dir='' @ show_path (host_instance_dir cfg i),
      ''--assembly_dir='' @ show_path (host_assembly_dir cfg i),
      ''--vm_manager=qemu_cli'', ''--enable_wifi=false'', ''--enable_host_bluetooth=false'',
      ''--enable_modem_simulator=false'', ''--start_webrtc='' @ bool_text webrtc,
      ''--start_webrtc_sig_server='' @ bool_text webrtc, ''--report_anonymous_usage_stats=n'',
      ''--daemon=false'', ''--console=true'', ''--extra_kernel_cmdline=console=ttyS0,115200'',
      ''--verbosity=DEBUG'', ''--resume=false'']"

definition image_args :: "instance_metadata \<Rightarrow> sys \<Rightarrow> string list" where
  "image_args m s =
     (if path_exists (im_boot_image m) s
      then [''--boot_image='' @ show_path (im_boot_image m)] else [])
     @ (if path_exists (im_init_boot_image m) s
        then [''--init_boot_image='' @ show_path (im_init_boot_image m)] else [])"

definition guest_env :: "config \<Rightarrow> instance_id \<Rightarrow> instance_metadata \<Rightarrow> (string \<times> string) list" where
  "guest_env cfg i m =
     (if disable_host_gpu cfg then [(''CUTTLEFISH_DISABLE_HOST_GPU'', ''1'')] else [])
     @ [(''GFXSTREAM_DISABLE_GRAPHICS_DETECTOR'', ''1''), (''GFXSTREAM_HEADLESS'', ''1''),
        (''CUTTLEFISH_INSTANCE'', show_nat i), (''CUTTLEFISH_INSTANCE_NUM'', show_nat i),
        (''CUTTLEFISH_ADB_TCP_PORT'', show_nat (unat (im_adb_port m)))]"

definition spawn_guest_process ::
  "config \<Rightarrow> instance_id \<Rightarrow> instance_metadata \<Rightarrow> path \<Rightarrow> bool \<Rightarrow> string option \<Rightarrow> int res"
where
  "spawn_guest_process cfg i m log webrtc track =
     andThen (ctx ''cloning run log file for stderr'' plain_call) (\<lambda>_.
     andThen (resolve_uid (guest_user cfg)) (\<lambda>uid.
     andThen (resolve_gid (guest_primary_group cfg)) (\<lambda>gid.
     andThen (reading (image_args m)) (\<lambda>images.
     ctx (''spawning cuttlefish guest '' @ show_nat i @ '' via '' @ show_path (cuttlefish_fhs cfg))
       (spawn_cmd \<lparr>cmd_argv = sudo_args cfg @ setpriv_args cfg @ wrapper_args cfg track
            @ launch_args cfg i webrtc @ images,
          cmd_env = guest_env cfg i m,
          cmd_dir = Some (butlast (host_instance_dir cfg i)),
          cmd_log = log\<rparr>)))))"

section \<open>Frames\<close>

lemma qemu_datadir_below: "prefix [''var'', ''lib'', ''cuttlefish''] qemu_datadir"
  by (simp add: qemu_datadir_def)

lemma frame_ensure_qemu_datadir [frame_intros]:
  assumes "outside cfg \<subseteq> A" and "apart cfg" shows "within (frame A I) (ensure_qemu_datadir cfg)"
proof -
  have "prefix [''var'', ''lib'', ''cuttlefish''] (qemu_datadir @ [''kvmvapic.bin''])"
    using qemu_datadir_below by (rule prefix_prefix)
  note o = outside_in [OF assms outside_members(5) this]
    outside_above [OF assms outside_members(5) qemu_datadir_below]
  show ?thesis unfolding ensure_qemu_datadir_def Let_def by (intro frame_intros o)
qed

lemma frame_prepare_host_directories [frame_intros]:
  assumes "outside cfg \<subseteq> A" and "apart cfg" shows "within (frame A I) (prepare_host_directories cfg i)"
proof -
  note o = outside_above [OF assms outside_members(2)] outside_above [OF assms outside_members(3)]
  have "prefix (cuttlefish_instances_dir cfg) (host_instance_dir cfg i)"
    and "prefix (cuttlefish_assembly_dir cfg) (host_assembly_dir cfg i)"
    by (simp_all add: host_instance_dir_def host_assembly_dir_def)
  then show ?thesis
    unfolding prepare_host_directories_def Let_def host_dirs_simps
    by (intro frame_intros frame_trash_host assms o prefix_order.order_refl)
qed

lemma frame_prepare_run_log [frame_intros]:
  "within (frame (away cfg i) I) (prepare_run_log (paths cfg i))"
proof -
  have "butlast (ip_run_log (paths cfg i)) = ip_root (paths cfg i)" by (simp add: butlast_append)
  then show ?thesis
    unfolding prepare_run_log_def
    by (simp only:) (intro frame_intros own_in own_above; simp)
qed

lemma frame_resolve_uid [frame_intros]: "within (frame A I) (resolve_uid u)"
  unfolding resolve_uid_def by (intro frame_intros)

lemma frame_resolve_gid [frame_intros]: "within (frame A I) (resolve_gid u)"
  unfolding resolve_gid_def by (intro frame_intros)

lemma frame_spawn_guest_process [frame_intros]:
  "within (frame A I) (spawn_guest_process cfg i m log w track)"
  unfolding spawn_guest_process_def by (intro frame_intros)

end
