(* ===== verification/GuestStop.thy ===== *)
theory GuestStop
  imports HostCleanup
begin

text \<open>
  The termination of a guest (\<open>terminate_guest\<close>): the order of its signals, the registry entry it
  removes, the time it takes, and what happens while the exit watcher of the guest holds the
  handle's mutex.
\<close>

section \<open>Signals sent\<close>

definition is_signal :: "event \<Rightarrow> bool" where
  "is_signal e \<longleftrightarrow> (case e of SignalSent _ _ \<Rightarrow> True | _ \<Rightarrow> False)"

definition sent :: "sys \<Rightarrow> event list" where
  "sent s = filter is_signal (trace s)"

text \<open>An operation that sends no signal, and keeps the registry and the process ids of handles.\<close>

definition silent :: "sys \<Rightarrow> sys \<Rightarrow> bool" where
  "silent s t \<longleftrightarrow> sent t = sent s \<and> registry t = registry s \<and> env t = env s
     \<and> (\<forall>a. h_pid (handles t a) = h_pid (handles s a))"

interpretation sl: effect silent
  by unfold_locales (simp_all add: silent_def)

lemma silent_step [simp]: "silent s (step s)"
  by (simp add: silent_def sent_def)

lemma silent_lock_state: "within silent (lock_state a)"
  by (rule withinI)
    (simp add: lock_state_def Let_def silent_def sent_def reaped_def split: option.split sum.split)

lemma silent_poll_child: "within silent (poll_child a)"
  by (rule withinI)
    (simp add: poll_child_def Let_def silent_def sent_def reaped_def split: option.split sum.split)

lemma silent_instant_now: "within silent instant_now"
  by (rule withinI) (simp add: instant_now_def)

lemma silent_instant_add: "within silent (instant_add t d)"
  by (simp add: instant_add_def sl.within_ret sl.within_panic)

lemma silent_sleep: "within silent (sleep d)"
  by (rule withinI) (simp add: sleep_def silent_def sent_def is_signal_def)

lemmas silent_intros = sl.within_intros silent_lock_state silent_poll_child silent_instant_now
  silent_instant_add silent_sleep

lemma silent_try_wait: "within silent (try_wait a)"
  unfolding try_wait_def by (intro silent_intros)

lemma silent_wait_timeout_loop: "within silent (wait_timeout_loop n d a)"
proof (induction n)
  case 0
  show ?case unfolding wait_timeout_loop.simps by (intro silent_intros)
next
  case (Suc n)
  then show ?case unfolding wait_timeout_loop.simps by (intro silent_intros silent_try_wait)
qed

lemma silent_wait_timeout: "within silent (wait_timeout a d)"
  unfolding wait_timeout_def by (intro silent_intros silent_wait_timeout_loop)

lemma signal_effect:
  assumes "signal a sig s = (r, t)"
  shows "sent t = sent s @ [SignalSent (h_pid (handles s a)) sig]" and "registry t = registry s"
    and "env t = env s" and "handles t = handles s" and "now s \<le> now t"
    and "r = Ok () \<or> (\<exists>e. r = Err e)"
  using assms
  by (auto simp: signal_def Let_def sent_def is_signal_def step_now split: option.splits if_splits)

section \<open>Order of the signals\<close>

lemma terminate_guest_None: "registry s i = None \<Longrightarrow> terminate_guest i d s = (Ok None, s)"
  by (simp add: terminate_guest_def registry_get_def)

definition drop_handle :: "instance_id \<Rightarrow> nat \<Rightarrow> exit_info option \<Rightarrow> exit_info option res" where
  "drop_handle i a z = andThen (remove_if_handle i a) (\<lambda>_. ret z)"

lemma run_drop_handle [simp]:
  "drop_handle i a z q = (Ok z,
     if registry q i = Some a then q\<lparr>registry := (registry q)(i := None)\<rparr> else q)"
  by (simp add: drop_handle_def remove_if_handle_def run_andThen)

lemma terminate_guest_Some:
  assumes "registry s i = Some a"
  shows "terminate_guest i d s =
    andThen (signal a sigterm) (\<lambda>_. andThen (wait_timeout a d) (\<lambda>y. case y of
       Some e \<Rightarrow> drop_handle i a (Some e)
     | None \<Rightarrow> andThen (signal a sigkill) (\<lambda>_.
         andThen (wait_timeout a (secs 5)) (drop_handle i a)))) s"
proof -
  have "(\<lambda>r. case r of Some e \<Rightarrow> drop_handle i a (Some e) | None \<Rightarrow> drop_handle i a None)
      = drop_handle i a"
    by (rule ext) (simp split: option.split)
  then show ?thesis
    using assms by (simp add: terminate_guest_def registry_get_def flip: drop_handle_def)
qed

section \<open>The grace period\<close>

text \<open>A guest that the process \<open>p\<close> of handle \<open>a\<close> runs, and whose end \<open>st\<close> is seen by the polls from call
  \<open>n\<close> on; the calls themselves take no time.\<close>

definition ends_at :: "nat \<Rightarrow> proc_status \<Rightarrow> nat \<Rightarrow> sys \<Rightarrow> bool" where
  "ends_at n st a s \<longleftrightarrow> handles s a = \<lparr>h_pid = h_pid (handles s a), h_child = True, h_exit = None, h_locked = False\<rparr>
     \<and> (\<forall>k. e_lag (env s) k = 0)
     \<and> (\<forall>k. e_try_wait (env s) k (h_pid (handles s a)) = Inr (if k < n then None else Some st))"

text \<open>The rounds of 200 ms a wait of \<open>d\<close> goes through, and the polls, three calls apart and the first at
  call \<open>k\<close>, that come before call \<open>n\<close>.\<close>

definition rounds :: "nat \<Rightarrow> nat" where
  "rounds d = (d + (millis 200 - 1)) div millis 200"

definition polls_before :: "nat \<Rightarrow> nat \<Rightarrow> nat" where
  "polls_before n k = (n - k + 2) div 3"

lemma rounds_0 [simp]: "rounds 0 = 0"
  by (simp add: rounds_def millis_def)

lemma rounds_Suc: assumes "0 < d" shows "rounds d = Suc (rounds (d - millis 200))"
proof (cases "millis 200 \<le> d")
  case True
  then obtain x where "d = x + millis 200" by (metis le_add_diff_inverse2)
  then show ?thesis by (simp add: rounds_def millis_def)
next
  case False
  with assms have "d + (millis 200 - 1) = (d - 1) + millis 200" "d - 1 < millis 200"
    by (simp_all add: millis_def)
  then have "rounds d = Suc 0" by (simp add: rounds_def millis_def)
  with False show ?thesis by simp
qed

lemma polls_before_0: "n \<le> k \<Longrightarrow> polls_before n k = 0"
  by (simp add: polls_before_def)

lemma polls_before_Suc: "k < n \<Longrightarrow> polls_before n k = Suc (polls_before n (k + 3))"
proof -
  assume "k < n"
  show "polls_before n k = Suc (polls_before n (k + 3))"
  proof (cases "k + 3 \<le> n")
    case True
    then obtain d where "n = k + 3 + d" by (metis le_add_diff_inverse)
    then show ?thesis by (simp add: polls_before_def)
  next
    case False
    with \<open>k < n\<close> have "n - k = 1 \<or> n - k = 2" by arith
    with False show ?thesis by (auto simp: polls_before_def)
  qed
qed

definition naps :: "nat \<Rightarrow> event list" where
  "naps m = replicate m (Slept (millis 200))"

text \<open>What a wait does: it sees the end of the guest in the poll after \<open>m\<close> naps, or gives up after
  all its rounds.\<close>

lemma wait_timeout_loop_exact:
  assumes "ends_at n st a s" and "rounds (dl - now s) < fuel"
  shows "\<exists>t. wait_timeout_loop fuel dl a s =
      (Ok (if polls_before n (tick s) \<le> rounds (dl - now s) then Some (exit_of st) else None), t)
    \<and> env t = env s \<and> registry t = registry s
    \<and> trace t = trace s @ naps (min (polls_before n (tick s)) (rounds (dl - now s)))
    \<and> (rounds (dl - now s) < polls_before n (tick s) \<longrightarrow> handles t = handles s
        \<and> tick t = tick s + 3 * rounds (dl - now s) + 2 \<and> now t = now s + millis 200 * rounds (dl - now s))"
  using assms
proof (induction fuel arbitrary: s)
  case (Suc k)
  let ?p = "h_pid (handles s a)"
  have h: "handles s a = \<lparr>h_pid = ?p, h_child = True, h_exit = None, h_locked = False\<rparr>"
    and lag: "\<And>j. e_lag (env s) j = 0"
    and tw: "\<And>j. e_try_wait (env s) j ?p = Inr (if j < n then None else Some st)"
    using Suc.prems(1) by (simp_all add: ends_at_def)
  have ch: "\<not> h_locked (handles s a)" "h_exit (handles s a) = None" "h_child (handles s a)"
    by (subst h, simp)+
  show ?case
  proof (cases "tick s < n")
    case False
    then have "wait_timeout_loop (Suc k) dl a s
        = (Ok (Some (exit_of st)), set_handle a (reaped (Some (exit_of st)) (handles s a)) (step s))"
      using ch tw by (simp add: try_wait_def lock_state_def poll_child_def Let_def run_andThen)
    with False show ?thesis
      by (simp add: polls_before_0 naps_def set_handle_def)
  next
    case True
    have poll: "try_wait a s = (Ok None, step s)"
      using ch tw True by (simp add: try_wait_def lock_state_def poll_child_def Let_def run_andThen)
    let ?v = "step (step s)"
    have v: "now ?v = now s" "env ?v = env s" "tick ?v = tick s + 2" "registry ?v = registry s"
      "handles ?v = handles s" "trace ?v = trace s"
      using lag by (simp_all add: step_def)
    show ?thesis
    proof (cases "dl \<le> now s")
      case True
      then have "wait_timeout_loop (Suc k) dl a s = (Ok None, ?v)"
        using poll v by (simp add: instant_now_def run_andThen)
      with True \<open>tick s < n\<close> v show ?thesis by (simp add: polls_before_Suc naps_def)
    next
      case False
      define w where "w = (step ?v)\<lparr>now := now (step ?v) + millis 200, trace := trace ?v @ [Slept (millis 200)]\<rparr>"
      have w: "now w = now s + millis 200" "env w = env s" "tick w = tick s + 3" "registry w = registry s"
        "handles w = handles s" "trace w = trace s @ [Slept (millis 200)]"
        using lag by (simp_all add: w_def step_def)
      have go: "wait_timeout_loop (Suc k) dl a s = wait_timeout_loop k dl a w"
        using poll v False by (simp add: instant_now_def sleep_def w_def run_andThen)
      have r: "rounds (dl - now s) = Suc (rounds (dl - now w))"
        using rounds_Suc [of "dl - now s"] False w(1) by simp
      have p: "polls_before n (tick s) = Suc (polls_before n (tick w))"
        using polls_before_Suc [OF \<open>tick s < n\<close>] w(3) by simp
      have "ends_at n st a w" using Suc.prems(1) w by (simp add: ends_at_def)
      moreover have "rounds (dl - now w) < k" using Suc.prems(2) r by simp
      ultimately have "\<exists>t. wait_timeout_loop k dl a w =
          (Ok (if polls_before n (tick w) \<le> rounds (dl - now w) then Some (exit_of st) else None), t)
        \<and> env t = env w \<and> registry t = registry w
        \<and> trace t = trace w @ naps (min (polls_before n (tick w)) (rounds (dl - now w)))
        \<and> (rounds (dl - now w) < polls_before n (tick w) \<longrightarrow> handles t = handles w
            \<and> tick t = tick w + 3 * rounds (dl - now w) + 2 \<and> now t = now w + millis 200 * rounds (dl - now w))"
        by (rule Suc.IH)
      then show ?thesis unfolding go r p using w by (elim exE) (rule exI, auto simp: naps_def)
    qed
  qed
qed simp

lemma rounds_time: "millis 200 * rounds d < d + millis 200"
proof -
  have "millis 200 * rounds d \<le> d + (millis 200 - 1)" by (simp add: rounds_def)
  moreover have "d + (millis 200 - 1) < d + millis 200" by (simp add: millis_def)
  ultimately show ?thesis by simp
qed

lemma rounds_five [simp]: "rounds (secs 5) = 25"
  by (simp add: rounds_def secs_def millis_def)

lemma run_signal:
  assumes "\<forall>k g. e_kill (env s) k (h_pid (handles s a)) g = None"
  shows "signal a g s = (Ok (), (step s)\<lparr>trace := trace s @ [SignalSent (h_pid (handles s a)) g]\<rparr>)"
  using assms by (simp add: signal_def Let_def)

lemma wait_timeout_exact:
  assumes "ends_at n st a s" and "rounds d < e_fuel (env s)" and "now s + d < secs (2 ^ 63)"
  shows "\<exists>t. wait_timeout a d s =
      (Ok (if polls_before n (Suc (tick s)) \<le> rounds d then Some (exit_of st) else None), t)
    \<and> env t = env s \<and> registry t = registry s
    \<and> trace t = trace s @ naps (min (polls_before n (Suc (tick s))) (rounds d))
    \<and> (rounds d < polls_before n (Suc (tick s)) \<longrightarrow> handles t = handles s
        \<and> tick t = tick s + 3 * rounds d + 3 \<and> now t = now s + millis 200 * rounds d)"
proof -
  have v: "now (step s) = now s" "tick (step s) = Suc (tick s)" "env (step s) = env s"
    "registry (step s) = registry s" "handles (step s) = handles s" "trace (step s) = trace s"
    using assms(1) by (simp_all add: step_def ends_at_def)
  have "wait_timeout a d s = wait_timeout_loop (e_fuel (env s)) (now s + d) a (step s)"
    using assms(3) v by (simp add: wait_timeout_def instant_now_def instant_add_def)
  moreover have "ends_at n st a (step s)" using assms(1) v by (simp add: ends_at_def)
  moreover have "rounds (now s + d - now (step s)) < e_fuel (env s)" using assms(2) v by simp
  ultimately have "\<exists>t. wait_timeout a d s =
      (Ok (if polls_before n (tick (step s)) \<le> rounds (now s + d - now (step s)) then Some (exit_of st) else None), t)
    \<and> env t = env (step s) \<and> registry t = registry (step s)
    \<and> trace t = trace (step s) @ naps (min (polls_before n (tick (step s))) (rounds (now s + d - now (step s))))
    \<and> (rounds (now s + d - now (step s)) < polls_before n (tick (step s)) \<longrightarrow> handles t = handles (step s)
      \<and> tick t = tick (step s) + 3 * rounds (now s + d - now (step s)) + 2
      \<and> now t = now (step s) + millis 200 * rounds (now s + d - now (step s)))"
    by (simp only: wait_timeout_loop_exact)
  then show ?thesis by (rule ex_forward) (use v in simp)
qed

text \<open>A signal that is delivered, and the wait that follows it.\<close>

lemma signal_then_wait:
  assumes "ends_at n st a s" and "\<forall>k g. e_kill (env s) k (h_pid (handles s a)) g = None"
    and "rounds d < e_fuel (env s)" and "now s + d < secs (2 ^ 63)"
  shows "\<exists>t. andThen (signal a g) (\<lambda>_. wait_timeout a d) s =
      (Ok (if polls_before n (tick s + 2) \<le> rounds d then Some (exit_of st) else None), t)
    \<and> env t = env s \<and> registry t = registry s
    \<and> trace t = trace s @ SignalSent (h_pid (handles s a)) g # naps (min (polls_before n (tick s + 2)) (rounds d))
    \<and> (rounds d < polls_before n (tick s + 2) \<longrightarrow> handles t = handles s
        \<and> tick t = tick s + 3 * rounds d + 4 \<and> now t = now s + millis 200 * rounds d)"
proof -
  define u where "u = (step s)\<lparr>trace := trace s @ [SignalSent (h_pid (handles s a)) g]\<rparr>"
  have u: "now u = now s" "tick u = Suc (tick s)" "env u = env s" "registry u = registry s"
    "handles u = handles s" "trace u = trace s @ [SignalSent (h_pid (handles s a)) g]"
    using assms(1) by (simp_all add: u_def ends_at_def step_def)
  have "ends_at n st a u" using assms(1) u by (simp add: ends_at_def)
  moreover have "rounds d < e_fuel (env u)" "now u + d < secs (2 ^ 63)" using assms(3,4) u by simp_all
  moreover have "signal a g s = (Ok (), u)" using assms(2) by (simp add: run_signal u_def)
  ultimately show ?thesis
    by (intro ex_forward [OF wait_timeout_exact [of n st a u d]]) (simp_all add: u)
qed

text \<open>C16: A guest is asked to end with SIGTERM, and it is killed with SIGKILL only when the grace
  period has passed.  Take a guest whose end the polls see from call \<open>n\<close> on, and a machine whose calls
  take no time and deliver every signal.  The termination polls every 200 ms.  When a poll of the
  grace period sees the guest ended, only SIGTERM has been sent, and the naps taken are those before
  that poll.  Otherwise all the naps of the grace period come between SIGTERM and SIGKILL, and at most
  25 of them (five seconds) after it.  The exit status is reported whenever a poll saw it, and the
  instance leaves the registry, and no other one does.\<close>

theorem terminate_guest_escalates:
  assumes "registry s i = Some a" and "ends_at n st a s"
    and "\<forall>k g. e_kill (env s) k (h_pid (handles s a)) g = None"
    and "rounds d < e_fuel (env s)" and "25 < e_fuel (env s)" and "now s + d + secs 6 < secs (2 ^ 63)"
  shows "\<exists>t. terminate_guest i d s =
      (Ok (if polls_before n (tick s + 2) \<le> rounds d
             \<or> polls_before n (tick s + 3 * rounds d + 6) \<le> 25 then Some (exit_of st) else None), t)
    \<and> registry t = (registry s)(i := None)
    \<and> trace t = trace s @ SignalSent (h_pid (handles s a)) sigterm #
        (if polls_before n (tick s + 2) \<le> rounds d then naps (polls_before n (tick s + 2))
         else naps (rounds d) @ SignalSent (h_pid (handles s a)) sigkill #
           naps (min (polls_before n (tick s + 3 * rounds d + 6)) 25))"
proof -
  let ?p = "h_pid (handles s a)"
  let ?stop = "\<lambda>g d. andThen (signal a g) (\<lambda>_. wait_timeout a d)"
  have run: "terminate_guest i d s = andThen (?stop sigterm d) (\<lambda>y. case y of
       Some e \<Rightarrow> drop_handle i a (Some e) | None \<Rightarrow> andThen (?stop sigkill (secs 5)) (drop_handle i a)) s"
    unfolding terminate_guest_Some [OF assms(1)] andThen_assoc ..
  have "now s + d < secs (2 ^ 63)" using assms(6) by simp
  from signal_then_wait [OF assms(2,3,4) this, of sigterm] obtain v
    where v: "?stop sigterm d s = (Ok (if polls_before n (tick s + 2) \<le> rounds d then Some (exit_of st) else None), v)"
      "env v = env s" "registry v = registry s"
      "trace v = trace s @ SignalSent ?p sigterm # naps (min (polls_before n (tick s + 2)) (rounds d))"
      "rounds d < polls_before n (tick s + 2) \<longrightarrow> handles v = handles s \<and> tick v = tick s + 3 * rounds d + 4
        \<and> now v = now s + millis 200 * rounds d"
    by (elim exE conjE) (rule that)
  show ?thesis
  proof (cases "polls_before n (tick s + 2) \<le> rounds d")
    case True
    with v assms(1) show ?thesis by (simp add: run min_def)
  next
    case False
    then have v': "handles v = handles s" "tick v = tick s + 3 * rounds d + 4" "now v = now s + millis 200 * rounds d"
      using v(5) by simp_all
    have ev: "ends_at n st a v" using assms(2) v(2) v'(1) by (simp add: ends_at_def)
    have kv: "\<forall>k g. e_kill (env v) k (h_pid (handles v a)) g = None" using assms(3) v(2) v'(1) by simp
    have fv: "rounds (secs 5) < e_fuel (env v)" using assms(5) v(2) by simp
    have clock: "now v + secs 5 < secs (2 ^ 63)" using assms(6) rounds_time [of d] v'(3) by (simp add: secs_def millis_def)
    have call: "tick v + 2 = tick s + 3 * rounds d + 6" using v'(2) by simp
    obtain q
      where "?stop sigkill (secs 5) v = (Ok (if polls_before n (tick s + 3 * rounds d + 6) \<le> 25 then Some (exit_of st) else None), q)"
        "registry q = registry s"
        "trace q = trace v @ SignalSent ?p sigkill # naps (min (polls_before n (tick s + 3 * rounds d + 6)) 25)"
      using signal_then_wait [OF ev kv fv clock, of sigkill, unfolded call rounds_five v(3) v'(1)]
      by (elim exE conjE) (rule that)
    with False v assms(1) show ?thesis by (simp add: run min_def)
  qed
qed

text \<open>A guest with a grace period of two seconds that ends only with call 40, after SIGKILL.\<close>

definition stubborn :: "nat \<Rightarrow> sys" where
  "stubborn n = (machine (quiet\<lparr>e_lag := \<lambda>_. 0,
       e_try_wait := \<lambda>k p. Inr (if k < n then None else Some (Signaled 9))\<rparr>) (\<lambda>_. None))
     \<lparr>registry := [3 \<mapsto> 0],
      handles := \<lambda>_. \<lparr>h_pid = 4242, h_child = True, h_exit = None, h_locked = False\<rparr>\<rparr>"

lemma stubborn_simps:
  "tick (stubborn n) = 0" "now (stubborn n) = 0" "trace (stubborn n) = []" "registry (stubborn n) = [3 \<mapsto> 0]"
  "h_pid (handles (stubborn n) 0) = 4242" "e_fuel (env (stubborn n)) = 1000" "e_kill (env (stubborn n)) k p g = None"
  "ends_at n (Signaled 9) 0 (stubborn n)"
  by (simp_all add: stubborn_def ends_at_def quiet_def)

lemma terminate_guest_escalates_witness:
  "\<exists>t. terminate_guest 3 (secs 2) (stubborn 40) = (Ok (Some \<lparr>x_code = None, x_signal = Some 9\<rparr>), t)
    \<and> registry t 3 = None
    \<and> trace t = SignalSent 4242 sigterm # naps 10 @ SignalSent 4242 sigkill # naps 2"
proof -
  have ten: "rounds (secs 2) = 10" by (simp add: rounds_def secs_def millis_def)
  have polls: "polls_before 40 (0 + 2) = 13" "polls_before 40 (0 + 3 * 10 + 6) = 2"
    by (simp_all add: polls_before_def)
  have dead: "exit_of (Signaled 9) = \<lparr>x_code = None, x_signal = Some 9\<rparr>"
    by (simp add: exit_of_def status_code_def status_signal_def)
  have some: "registry (stubborn 40) 3 = Some 0" by (simp add: stubborn_simps)
  have fits: "0 + secs 2 + secs 6 < secs (2 ^ 63)" by (simp add: secs_def)
  have "\<exists>t. terminate_guest 3 (secs 2) (stubborn 40) =
      (Ok (if polls_before 40 (0 + 2) \<le> 10 \<or> polls_before 40 (0 + 3 * 10 + 6) \<le> 25
        then Some (exit_of (Signaled 9)) else None), t)
    \<and> registry t = [3 \<mapsto> 0](3 := None)
    \<and> trace t = [] @ SignalSent 4242 sigterm #
        (if polls_before 40 (0 + 2) \<le> 10 then naps (polls_before 40 (0 + 2))
         else naps 10 @ SignalSent 4242 sigkill # naps (min (polls_before 40 (0 + 3 * 10 + 6)) 25))"
    by (rule terminate_guest_escalates [OF some, of 40 "Signaled 9" "secs 2", unfolded stubborn_simps(1-7) ten])
      (use fits stubborn_simps(8) in simp_all)
  then show ?thesis unfolding polls dead by (rule ex_forward) simp
qed

section \<open>Time\<close>

lemma terminate_guest_in_time:
  assumes "\<forall>a. registry s i = Some a \<longrightarrow> \<not> h_locked (handles s a)"
    and "d \<le> (e_fuel (env s) - 1) * millis 200" and "26 \<le> e_fuel (env s)"
  shows "fst (terminate_guest i d s) \<noteq> Hang"
proof (cases "registry s i")
  case None
  then show ?thesis by (simp add: terminate_guest_None)
next
  case (Some a)
  have free: "\<not> h_locked (handles s a)" using assms(1) Some by blast
  have five: "secs 5 \<le> (e_fuel (env s) - 1) * millis 200"
    using assms(3) by (simp add: secs_def millis_def)
  obtain r1 u where u: "signal a sigterm s = (r1, u)" by fastforce
  note su = signal_effect [OF u]
  obtain r2 v where v: "wait_timeout a d u = (r2, v)" by fastforce
  have fv: "frame {} {} u v" using frame_wait_timeout v by (rule withinD)
  have r2: "r2 \<noteq> Hang"
    using wait_timeout_returns [of u a d] free assms(2,3) su v by simp
  obtain r3 w where w: "signal a sigkill v = (r3, w)" by fastforce
  note sw = signal_effect [OF w]
  have "\<not> h_locked (handles w a)" "env w = env s"
    using frame_locked [OF fv] frame_env [OF fv] free su sw by simp_all
  then have r4: "fst (wait_timeout a (secs 5) w) \<noteq> Hang"
    using wait_timeout_returns [of w a "secs 5"] five assms(3) by simp
  show ?thesis
    using Some u v w r2 r4 su(6) sw(6)
    by (auto simp: terminate_guest_Some run_andThen
        split: prod.splits outcome.splits option.splits)
qed

text \<open>C18: As long as no other thread holds the handle, terminating a guest returns: a poll every
  200 ms for the grace period and for five seconds after SIGKILL.\<close>

theorem terminate_guest_returns:
  assumes "\<forall>a. registry s i = Some a \<longrightarrow> \<not> h_locked (handles s a)"
    and "d \<le> (e_fuel (env s) - 1) * millis 200" and "26 \<le> e_fuel (env s)"
  shows "fst (terminate_guest i d s) \<noteq> Hang"
  using assms by (rule terminate_guest_in_time)

lemma terminate_guest_returns_witness:
  "fst (terminate_guest 3 (secs 10) ((machine quiet (\<lambda>_. None))\<lparr>registry := [3 \<mapsto> 0]\<rparr>)) \<noteq> Hang"
  by (rule terminate_guest_returns)
    (simp_all add: machine_def quiet_def secs_def millis_def)

section \<open>The exit watcher holds the handle\<close>

text \<open>C19: While the exit watcher is inside \<open>GuestHandle::wait\<close> for a guest that does not end, it
  holds the mutex of the handle.  Terminating that guest then sends SIGTERM and blocks on the mutex
  in the first poll: the grace period does not pass, SIGKILL is never sent, the call never comes
  back.\<close>

theorem terminate_guest_blocked_by_watcher:
  assumes "registry s i = Some a" and "\<forall>n. e_wait (env s) n (h_pid (handles s a)) = None"
    and "e_kill (env s) (tick s) (h_pid (handles s a)) sigterm = None"
    and "now s + e_lag (env s) (tick s) + e_lag (env s) (Suc (tick s)) + d < secs (2 ^ 63)"
  shows "fst (terminate_guest i d (watching a s)) = Hang
    \<and> sent (snd (terminate_guest i d (watching a s)))
      = sent s @ [SignalSent (h_pid (handles s a)) sigterm]"
proof -
  let ?w = "watching a s" and ?p = "h_pid (handles s a)"
  define u where "u = (step ?w)\<lparr>trace := trace s @ [SignalSent ?p sigterm]\<rparr>"
  have w: "registry ?w = registry s" "env ?w = env s" "tick ?w = tick s" "trace ?w = trace s"
    "h_pid (handles ?w a) = ?p" "h_locked (handles ?w a)" "now ?w = now s"
    by (simp_all add: watching_def)
  have sig: "signal a sigterm ?w = (Ok (), u)"
    using w assms(3) by (simp add: signal_def Let_def u_def)
  have lock: "fst (try_wait a v) = Hang" if "handles v = handles ?w" "env v = env s" for v
    using that w assms(2) by (simp add: try_wait_def lock_state_def Let_def run_andThen)
  have loop: "fst (wait_timeout_loop n dl a v) = Hang"
    if "handles v = handles ?w" "env v = env s" for n dl v
  proof (cases n)
    case (Suc k)
    then show ?thesis using lock [OF that] by (cases "try_wait a v") (simp add: run_andThen)
  qed simp
  have time: "now (step u) + d < secs (2 ^ 63)"
    using assms(4) w by (simp add: u_def step_def)
  have wt: "fst (wait_timeout a d u) = Hang"
    using time loop [of "step u"] w
    by (simp add: wait_timeout_def instant_now_def instant_add_def u_def)
  then obtain v where v: "wait_timeout a d u = (Hang, v)" by (cases "wait_timeout a d u") auto
  have "silent u v" using silent_wait_timeout v by (rule withinD)
  then have "sent v = sent s @ [SignalSent ?p sigterm]"
    by (simp add: silent_def u_def sent_def is_signal_def)
  with sig v assms(1) w(1) show ?thesis
    by (simp add: terminate_guest_def registry_get_def)
qed

lemma terminate_guest_blocked_by_watcher_witness:
  "fst (terminate_guest 3 (secs 10) (watching 0 ((machine quiet (\<lambda>_. None))\<lparr>registry := [3 \<mapsto> 0]\<rparr>)))
   = Hang"
  using terminate_guest_blocked_by_watcher
    [of "(machine quiet (\<lambda>_. None))\<lparr>registry := [3 \<mapsto> 0]\<rparr>" 3 0 "secs 10"]
  by (simp add: quiet_def machine_def secs_def)

end
