(* ===== verification/Adb.thy ===== *)
theory Adb
  imports Launch GuestStop
begin

text \<open>
  The daemon's view of a booting guest through \<open>adb\<close>: connecting, finding the active device,
  waiting until the device is there, and verifying that the boot completed (\<open>wait_for_adb\<close>,
  \<open>verify_boot_completed\<close> and their helpers in \<open>manager.rs\<close>).  Both loops poll until a deadline;
  a loop that is out of fuel blocks, and the lemmas show how much fuel a deadline needs.
\<close>

section \<open>Commands\<close>

definition adb_command :: "config \<Rightarrow> string list \<Rightarrow> string list" where
  "adb_command cfg args = show_path (cuttlefish_fhs cfg) # ''--'' # ''adb'' # args"

text \<open>A command whose failure is an error with its status and its error output.\<close>

definition adb_output :: "string \<Rightarrow> string \<Rightarrow> string list \<Rightarrow> string res" where
  "adb_output context what argv =
     andThen (ctx context (run_cmd argv)) (\<lambda>output.
     if \<not> status_success (out_status output)
     then andThen (reading (\<lambda>s. e_status_text (env s) (out_status output))) (\<lambda>status.
       raise (Msg (what @ '' returned '' @ status @ '': '' @ out_stderr output)))
     else ret (out_stdout output))"

definition adb_shell_getprop :: "config \<Rightarrow> string \<Rightarrow> string \<Rightarrow> string res" where
  "adb_shell_getprop cfg serial property =
     adb_output (''invoking adb getprop '' @ property @ '' for '' @ serial) ''adb''
       (adb_command cfg [''-s'', serial, ''shell'', ''getprop'', property])"

definition adb_connect :: "config \<Rightarrow> string \<Rightarrow> unit res" where
  "adb_connect cfg serial =
     andThen (adb_output (''invoking adb connect '' @ serial) ''adb connect''
       (adb_command cfg [''connect'', serial])) (\<lambda>_. ret ())"

text \<open>The first line with one of the two serials and the status \<open>device\<close>, the header skipped.\<close>

fun active_entry :: "string \<Rightarrow> string \<Rightarrow> string list \<Rightarrow> string option" where
  "active_entry a b [] = None"
| "active_entry a b (line # rest) =
     (case split_whitespace line of
        [] \<Rightarrow> active_entry a b rest
      | entry # parts \<Rightarrow>
          let status = (case parts of [] \<Rightarrow> '''' | st # _ \<Rightarrow> st) in
          if (entry = a \<or> entry = b) \<and> status = ''device'' then Some entry
          else active_entry a b rest)"

definition resolve_active_adb_serial :: "config \<Rightarrow> string \<Rightarrow> string \<Rightarrow> string option res" where
  "resolve_active_adb_serial cfg a b =
     andThen (adb_output ''invoking adb devices'' ''adb devices'' (adb_command cfg [''devices''])) (\<lambda>out.
     ret (active_entry a b (drop 1 (str_lines out))))"

section \<open>Boot markers in the logs\<close>

definition boot_marker :: string where "boot_marker = ''VIRTUAL_DEVICE_BOOT_COMPLETED''"

definition log_has_boot_marker :: "config \<Rightarrow> path \<Rightarrow> (sys, bool, 'e) act" where
  "log_has_boot_marker cfg p =
     andThen (reading (path_exists p)) (\<lambda>there.
     if \<not> there then ret False
     else
       andThen (attempt (tail_file p (journal_lines cfg))) (\<lambda>r.
       case r of Inr content \<Rightarrow> ret (str_contains content boot_marker) | Inl err \<Rightarrow> ret False))"

definition console_log_has_boot_marker :: "config \<Rightarrow> instance_id \<Rightarrow> (sys, bool, 'e) act" where
  "console_log_has_boot_marker cfg i = log_has_boot_marker cfg (console_log_path cfg i)"

definition run_log_has_boot_marker :: "config \<Rightarrow> instance_id \<Rightarrow> (sys, bool, 'e) act" where
  "run_log_has_boot_marker cfg i = log_has_boot_marker cfg (ip_run_log (paths cfg i))"

section \<open>Waiting for the device\<close>

definition plain_action :: "instance_summary \<Rightarrow> action_response" where
  "plain_action x = \<lparr>ar_summary = x, ar_journal_tail = None, ar_verification = None,
     ar_cleanup = None, ar_run_log_tail = None, ar_console_snapshot_path = None\<rparr>"

definition record_launch_failure ::
  "config \<Rightarrow> instance_id \<Rightarrow> instance_metadata \<Rightarrow> anyhow \<Rightarrow> anyhow res"
where
  "record_launch_failure cfg i m err =
     andThen epoch_secs (\<lambda>t.
     let m = m\<lparr>im_state := Failed, im_updated_at := t\<rparr>; p = paths cfg i in
     andThen (write_metadata p m) (\<lambda>_.
     andThen (write_env_file cfg p m) (\<lambda>_.
     andThen (cache_insert i m) (\<lambda>_.
     andThen (guest_log_tail cfg i (journal_lines cfg)) (\<lambda>tail.
     ret (case tail of
            Some t \<Rightarrow> Ctx (''cfctl-run.log tail:'' @ [newline] @ t) err
          | None \<Rightarrow> err))))))"

text \<open>The error of a failed start: the failure recorded, or why recording it failed.\<close>

definition launch_failure ::
  "config \<Rightarrow> instance_id \<Rightarrow> instance_metadata \<Rightarrow> string \<Rightarrow> anyhow \<Rightarrow> string \<Rightarrow> 'a det"
where
  "launch_failure cfg i m code err unrecorded =
     andThen (attempt (record_launch_failure cfg i m err)) (\<lambda>r.
     raise (mk_error code (case r of
         Inr e \<Rightarrow> err_chain e
       | Inl e \<Rightarrow> unrecorded @ err_chain e)))"

text \<open>A poll that did not succeed: past the deadline the guest is terminated and the failure
  recorded, before it the loop goes on after a second.\<close>

definition adb_retry ::
  "config \<Rightarrow> instance_id \<Rightarrow> instance_metadata \<Rightarrow> nat \<Rightarrow> anyhow \<Rightarrow> string \<Rightarrow> 'a det \<Rightarrow> 'a det"
where
  "adb_retry cfg i m deadline err unrecorded continue =
     andThen instant_now (\<lambda>t.
     if t \<ge> deadline then
       andThen (ignoring (terminate_guest i (secs 2))) (\<lambda>_.
       launch_failure cfg i m ''wait_for_adb_timeout'' err unrecorded)
     else andThen (sleep (secs 1)) (\<lambda>_. continue))"

definition adb_serial :: "config \<Rightarrow> instance_metadata \<Rightarrow> string" where
  "adb_serial cfg m = adb_host cfg @ '':'' @ show_nat (unat (im_adb_port m))"

definition adb_connect_serial :: "instance_metadata \<Rightarrow> string" where
  "adb_connect_serial m = ''0.0.0.0:'' @ show_nat (unat (im_adb_port m))"

primrec wait_for_adb_loop ::
  "nat \<Rightarrow> config \<Rightarrow> instance_id \<Rightarrow> instance_metadata \<Rightarrow> nat \<Rightarrow> action_response det"
where
  "wait_for_adb_loop 0 cfg i m deadline = hang"
| "wait_for_adb_loop (Suc fuel) cfg i m deadline =
     andThen (registry_get i) (\<lambda>h.
     case h of
       None \<Rightarrow> launch_failure cfg i m ''wait_for_adb_handle_lost''
           (Msg (''instance '' @ show_nat i @ '' lost guest handle before adb became ready''))
           (''instance '' @ show_nat i @ '' lost guest handle and record failed: '')
     | Some a \<Rightarrow>
     andThen (det ''wait_for_adb_wait'' (try_wait a)) (\<lambda>exited.
     case exited of
       Some exit \<Rightarrow>
         andThen (remove_if_handle i a) (\<lambda>_.
         launch_failure cfg i m ''wait_for_adb_guest_exit''
           (Msg (''instance '' @ show_nat i @ '' exited before adb became ready (''
              @ describe_exit exit @ '')''))
           (''instance '' @ show_nat i @ '' exited before adb and record failed: ''))
     | None \<Rightarrow>
     andThen (attempt (adb_connect cfg (adb_connect_serial m))) (\<lambda>connected.
     case connected of
       Inl err \<Rightarrow>
         adb_retry cfg i m deadline
           (Msg (''timeout waiting for adb on '' @ adb_serial cfg m @ '': '' @ err_string err))
           (''timeout waiting for adb on '' @ adb_serial cfg m @ '' and record failed: '')
           (wait_for_adb_loop fuel cfg i m deadline)
     | Inr _ \<Rightarrow>
     andThen (attempt (resolve_active_adb_serial cfg (adb_serial cfg m) (adb_connect_serial m)))
       (\<lambda>resolved.
     case resolved of
       Inr (Some active) \<Rightarrow>
         andThen (det ''wait_for_adb_time'' epoch_secs) (\<lambda>t.
         let m = m\<lparr>im_state := Running, im_updated_at := t\<rparr> in
         andThen (det ''wait_for_adb_write_metadata'' (write_metadata (paths cfg i) m)) (\<lambda>_.
         andThen (cache_insert i m) (\<lambda>_.
         ret (plain_action (summary m (adb_host cfg))))))
     | Inr None \<Rightarrow>
         adb_retry cfg i m deadline
           (Msg (''timeout waiting for adb device '' @ adb_serial cfg m))
           (''timeout waiting for adb device '' @ adb_serial cfg m @ '' and record failed: '')
           (wait_for_adb_loop fuel cfg i m deadline)
     | Inl err \<Rightarrow>
         adb_retry cfg i m deadline
           (Msg (''adb devices never succeeded for '' @ adb_serial cfg m @ '': '' @ err_chain err))
           (''adb devices failed for '' @ adb_serial cfg m @ '' and record failed: '')
           (wait_for_adb_loop fuel cfg i m deadline)))))"

definition wait_for_adb :: "config \<Rightarrow> instance_id \<Rightarrow> nat option \<Rightarrow> action_response det" where
  "wait_for_adb cfg i timeout_secs =
     andThen (det ''wait_for_adb_metadata'' (metadata cfg i)) (\<lambda>m.
     let timeout = (case timeout_secs of Some n \<Rightarrow> secs n | None \<Rightarrow> adb_wait_timeout cfg) in
     andThen instant_now (\<lambda>t.
     andThen (instant_add t timeout) (\<lambda>deadline.
     andThen (reading (\<lambda>s. e_fuel (env s))) (\<lambda>fuel.
     wait_for_adb_loop fuel cfg i m deadline))))"

section \<open>Verifying the boot\<close>

definition boot_observed :: boot_verification where
  "boot_observed = \<lparr>bv_adb_ready = True, bv_boot_marker_observed = True, bv_failure_reason = None\<rparr>"

definition verify_retry :: "nat \<Rightarrow> nat \<Rightarrow> string \<Rightarrow> string \<Rightarrow> 'a det \<Rightarrow> 'a det" where
  "verify_retry deadline pause code msg continue =
     andThen instant_now (\<lambda>t.
     if t \<ge> deadline then raise (mk_error code msg)
     else andThen (sleep pause) (\<lambda>_. continue))"

text \<open>Either log has the marker: the boot is observed; otherwise go on.\<close>

definition unless_marker :: "config \<Rightarrow> instance_id \<Rightarrow> boot_verification det \<Rightarrow> boot_verification det"
where
  "unless_marker cfg i continue =
     andThen (console_log_has_boot_marker cfg i) (\<lambda>in_console.
     if in_console then ret boot_observed
     else
       andThen (run_log_has_boot_marker cfg i) (\<lambda>in_run_log.
       if in_run_log then ret boot_observed else continue))"

primrec verify_boot_loop ::
  "nat \<Rightarrow> config \<Rightarrow> instance_id \<Rightarrow> instance_metadata \<Rightarrow> nat \<Rightarrow> boot_verification det"
where
  "verify_boot_loop 0 cfg i m deadline = hang"
| "verify_boot_loop (Suc fuel) cfg i m deadline =
     andThen (attempt (adb_connect cfg (adb_connect_serial m))) (\<lambda>connected.
     case connected of
       Inl err \<Rightarrow>
         verify_retry deadline (millis 500) ''verify_boot_adb_failed''
           (''adb connect never succeeded for instance '' @ show_nat i @ '': '' @ err_chain err)
           (verify_boot_loop fuel cfg i m deadline)
     | Inr _ \<Rightarrow>
     andThen (attempt (resolve_active_adb_serial cfg (adb_serial cfg m) (adb_connect_serial m)))
       (\<lambda>resolved.
     case resolved of
       Inr None \<Rightarrow>
         verify_retry deadline (millis 500) ''verify_boot_adb_failed''
           (''adb device '' @ adb_connect_serial m @ '' never appeared in device list'')
           (verify_boot_loop fuel cfg i m deadline)
     | Inl err \<Rightarrow>
         verify_retry deadline (millis 500) ''verify_boot_adb_failed''
           (''adb devices never succeeded for instance '' @ show_nat i @ '': '' @ err_chain err)
           (verify_boot_loop fuel cfg i m deadline)
     | Inr (Some active) \<Rightarrow>
     andThen (attempt (adb_shell_getprop cfg active boot_marker)) (\<lambda>prop.
     case prop of
       Inl err \<Rightarrow>
         unless_marker cfg i
           (verify_retry deadline (millis 500) ''verify_boot_adb_failed''
             (''adb getprop never succeeded for instance '' @ show_nat i @ '': '' @ err_chain err)
             (verify_boot_loop fuel cfg i m deadline))
     | Inr out \<Rightarrow>
         let value = trim out in
         if value = ''1'' \<or> value = ''true'' \<or> value = ''TRUE'' then ret boot_observed
         else
           unless_marker cfg i
             (verify_retry deadline (secs 1) ''verify_boot_marker_missing''
               (''VIRTUAL_DEVICE_BOOT_COMPLETED not observed for instance '' @ show_nat i
                  @ '' (last value: '' @ debug_str value @ '')'')
               (verify_boot_loop fuel cfg i m deadline)))))"

definition verify_timeout :: "nat option \<Rightarrow> nat" where
  "verify_timeout timeout_secs = (case timeout_secs of
       Some n \<Rightarrow> if n > 0 then secs n else secs 120
     | None \<Rightarrow> secs 120)"

definition verify_boot_completed ::
  "config \<Rightarrow> instance_id \<Rightarrow> nat option \<Rightarrow> boot_verification det"
where
  "verify_boot_completed cfg i timeout_secs =
     andThen (det ''verify_boot_metadata'' (metadata cfg i)) (\<lambda>m.
     andThen instant_now (\<lambda>t.
     andThen (instant_add t (verify_timeout timeout_secs)) (\<lambda>deadline.
     andThen (reading (\<lambda>s. e_fuel (env s))) (\<lambda>fuel.
     verify_boot_loop fuel cfg i m deadline))))"

section \<open>Frames\<close>

lemma frame_adb_output [frame_intros]: "within (frame A I) (adb_output c w argv)"
  unfolding adb_output_def by (intro frame_intros)

lemma frame_adb_connect [frame_intros]: "within (frame A I) (adb_connect cfg s)"
  unfolding adb_connect_def by (intro frame_intros)

lemma frame_adb_shell_getprop [frame_intros]: "within (frame A I) (adb_shell_getprop cfg s p)"
  unfolding adb_shell_getprop_def by (intro frame_intros)

lemma frame_resolve_serial [frame_intros]: "within (frame A I) (resolve_active_adb_serial cfg a b)"
  unfolding resolve_active_adb_serial_def by (intro frame_intros)

lemma frame_log_has_boot_marker [frame_intros]: "within (frame A I) (log_has_boot_marker cfg p)"
  unfolding log_has_boot_marker_def by (intro frame_intros)

lemma frame_record_launch_failure [frame_intros]:
  "apart cfg \<Longrightarrow> i \<in> I \<Longrightarrow> within (frame (away cfg i) I) (record_launch_failure cfg i m err)"
  unfolding record_launch_failure_def Let_def by (intro frame_intros)

lemma frame_launch_failure [frame_intros]:
  "apart cfg \<Longrightarrow> i \<in> I \<Longrightarrow> within (frame (away cfg i) I) (launch_failure cfg i m code err u)"
  unfolding launch_failure_def by (intro frame_intros)

lemma frame_adb_retry [frame_intros]:
  "apart cfg \<Longrightarrow> i \<in> I \<Longrightarrow> within (frame (away cfg i) I) k \<Longrightarrow>
   within (frame (away cfg i) I) (adb_retry cfg i m d err u k)"
  unfolding adb_retry_def by (intro frame_intros)

lemma frame_wait_for_adb_loop [frame_intros]:
  assumes "apart cfg" and "i \<in> I"
  shows "within (frame (away cfg i) I) (wait_for_adb_loop n cfg i m d)"
proof (induction n)
  case 0
  show ?case unfolding wait_for_adb_loop.simps by (intro frame_intros)
next
  case (Suc n)
  show ?case unfolding wait_for_adb_loop.simps Let_def by (intro frame_intros assms Suc)
qed

lemma frame_wait_for_adb [frame_intros]:
  "apart cfg \<Longrightarrow> i \<in> I \<Longrightarrow> within (frame (away cfg i) I) (wait_for_adb cfg i t)"
  unfolding wait_for_adb_def Let_def by (intro frame_intros)

lemma frame_verify_retry [frame_intros]:
  "within (frame A I) k \<Longrightarrow> within (frame A I) (verify_retry d p c msg k)"
  unfolding verify_retry_def by (intro frame_intros)

lemma frame_unless_marker [frame_intros]:
  "within (frame A I) k \<Longrightarrow> within (frame A I) (unless_marker cfg i k)"
  unfolding unless_marker_def console_log_has_boot_marker_def run_log_has_boot_marker_def
  by (intro frame_intros)

lemma frame_verify_boot_loop [frame_intros]: "within (frame A I) (verify_boot_loop n cfg i m d)"
proof (induction n)
  case 0
  show ?case unfolding verify_boot_loop.simps by (intro frame_intros)
next
  case (Suc n)
  then show ?case unfolding verify_boot_loop.simps Let_def by (intro frame_intros)
qed

lemma frame_verify_boot_completed [frame_intros]:
  "within (frame A I) (verify_boot_completed cfg i t)"
  unfolding verify_boot_completed_def by (intro frame_intros)

section \<open>Returning\<close>

lemma returns_adb_output [returns_intros]: "returns (adb_output c w argv)"
  unfolding adb_output_def by (intro returns_intros)

lemma returns_adb_connect [returns_intros]: "returns (adb_connect cfg a)"
  unfolding adb_connect_def by (intro returns_intros)

lemma returns_adb_shell_getprop [returns_intros]: "returns (adb_shell_getprop cfg a p)"
  unfolding adb_shell_getprop_def by (intro returns_intros)

lemma returns_resolve [returns_intros]: "returns (resolve_active_adb_serial cfg a b)"
  unfolding resolve_active_adb_serial_def by (intro returns_intros)

lemma returns_log_has_boot_marker [returns_intros]: "returns (log_has_boot_marker cfg p)"
  unfolding log_has_boot_marker_def by (intro returns_intros)

lemma returns_record_launch_failure [returns_intros]: "returns (record_launch_failure cfg i m err)"
  unfolding record_launch_failure_def Let_def by (intro returns_intros)

lemma returns_launch_failure [returns_intros]: "returns (launch_failure cfg i m code err u)"
  unfolding launch_failure_def by (intro returns_intros)

lemma launch_failure_Err: "launch_failure cfg i m code err u s \<noteq> (Ok x, t)"
  unfolding launch_failure_def by (auto elim!: andThen_Ok_cases)

lemma returns_no_Hang: "returns m \<Longrightarrow> fst (m s) \<noteq> Hang"
  by (simp add: returns_def)

lemma run_instant_now: "instant_now s = (Ok (now (step s)), step s)"
  by (simp add: instant_now_def)

lemma run_sleep:
  "sleep d s = (Ok (), (step s)\<lparr>now := now (step s) + d, trace := trace s @ [Slept d]\<rparr>)"
  by (simp add: sleep_def)

lemma launch_failure_no_Hang [simp]: "fst (launch_failure cfg i m code err u s) \<noteq> Hang"
  by (rule returns_no_Hang [OF returns_launch_failure])

text \<open>No exit watcher is inside \<open>wait\<close>, and there is fuel for the five seconds after SIGKILL.\<close>

definition unwatched :: "sys \<Rightarrow> bool" where
  "unwatched s \<longleftrightarrow> (\<forall>a. \<not> h_locked (handles s a)) \<and> 26 \<le> e_fuel (env s)"

lemma unwatched_frame: "frame A I s t \<Longrightarrow> unwatched s \<Longrightarrow> unwatched t"
  by (auto simp: unwatched_def frame_env frame_locked)

lemma unwatched_terminate: "unwatched s \<Longrightarrow> d \<le> secs 5 \<Longrightarrow> fst (terminate_guest i d s) \<noteq> Hang"
proof -
  assume u: "unwatched s" and d: "d \<le> secs 5"
  have "26 \<le> e_fuel (env s)" using u by (simp add: unwatched_def)
  then have "25 \<le> e_fuel (env s) - 1" by arith
  then have "25 * millis 200 \<le> (e_fuel (env s) - 1) * millis 200" by (rule mult_le_mono1)
  then have "d \<le> (e_fuel (env s) - 1) * millis 200" using d by (simp add: secs_def millis_def)
  with u show ?thesis using terminate_guest_in_time by (auto simp: unwatched_def)
qed

text \<open>A retry ends the wait or goes on, before the deadline, a second later.\<close>

lemma adb_retry_cases:
  assumes "unwatched s"
  shows "fst (adb_retry cfg i m deadline err u k s) \<noteq> Hang
    \<or> (\<exists>t. adb_retry cfg i m deadline err u k s = k t \<and> frame {} {} s t
        \<and> now s + secs 1 \<le> now t \<and> now s < deadline)"
proof -
  define t where "t = step s"
  define w where "w = (step t)\<lparr>now := now (step t) + secs 1, trace := trace t @ [Slept (secs 1)]\<rparr>"
  have ft: "frame {} {} s t" by (simp add: t_def frame_step)
  have "snd (sleep (secs 1) t) = w" by (simp add: run_sleep w_def)
  then have fw: "frame {} {} t w" using frame_sleep [of "{}" "{}" "secs 1"] by (auto simp: within_def)
  show ?thesis
  proof (cases "now t \<ge> deadline")
    case True
    have "fst (terminate_guest i (secs 2) t) \<noteq> Hang"
      using unwatched_terminate [OF unwatched_frame [OF ft assms], of "secs 2" i] by (simp add: secs_def)
    then have "fst (adb_retry cfg i m deadline err u k s) \<noteq> Hang"
      using True
      by (cases "terminate_guest i (secs 2) t"; cases "fst (terminate_guest i (secs 2) t)")
        (simp_all add: adb_retry_def run_instant_now flip: t_def)
    then show ?thesis by blast
  next
    case False
    then have "adb_retry cfg i m deadline err u k s = k w"
      by (simp add: adb_retry_def run_instant_now run_sleep w_def flip: t_def)
    moreover have "now s + secs 1 \<le> now w" "now s < deadline"
      using step_now [of s] step_now [of t] False by (simp_all add: w_def t_def)
    ultimately show ?thesis using fr.chain [OF ft fw] by blast
  qed
qed

end
