(* ===== verification/AdbWait.thy ===== *)
theory AdbWait
  imports Adb
begin

text \<open>
  The two waiting loops of \<open>Adb\<close> end: \<open>wait_for_adb\<close> polls every second until its deadline,
  \<open>verify_boot_completed\<close> every half second at least.  Both interpret the locale \<open>polling\<close>.  What a
  successful wait has established; and the wait on a guest that has its exit watcher.
\<close>

section \<open>A round of \<open>wait_for_adb\<close>\<close>

lemma det_cases: "det code m s = (Ok a, t) \<longleftrightarrow> m s = (Ok a, t)"
  by (simp add: det_def)

lemma det_no_Hang: "fst (m s) \<noteq> Hang \<Longrightarrow> fst (det code m s) \<noteq> Hang"
  by (cases "m s"; cases "fst (m s)") (auto simp: det_def mapErr_def)

lemma try_wait_cases:
  assumes "unwatched s"
  obtains (Ok) x t where "try_wait a s = (Ok x, t)" | (Err) e t where "try_wait a s = (Err e, t)"
proof -
  have "\<not> h_locked (handles s a)" using assms by (simp add: unwatched_def)
  note no = try_wait_unlocked [OF this]
  show thesis using no that by (cases "try_wait a s"; cases "fst (try_wait a s)") auto
qed

lemma wait_for_adb_round:
  assumes "unwatched s"
  shows "fst (wait_for_adb_loop (Suc n) cfg i m d s) \<noteq> Hang
    \<or> (\<exists>t. wait_for_adb_loop (Suc n) cfg i m d s = wait_for_adb_loop n cfg i m d t
       \<and> unwatched t \<and> now s + secs 1 \<le> now t \<and> now s < d)"
proof (cases "registry s i")
  case None
  then show ?thesis by (simp add: registry_get_def)
next
  case (Some a)
  show ?thesis
  proof (cases rule: try_wait_cases [OF assms, of a])
    case (2 e t)
    then have "det ''wait_for_adb_wait'' (try_wait a) s = (Err (mk_error ''wait_for_adb_wait'' (err_string e)), t)"
      by (simp add: det_def)
    with Some show ?thesis by (simp add: registry_get_def)
  next
    case (1 x t)
    have ft: "frame {} {} s t" using frame_try_wait 1 by (rule withinD)
    have dt: "det c (try_wait a) s = (Ok x, t)" for c using 1 by (simp add: det_cases)
    show ?thesis
    proof (cases x)
      case (Some y)
      then show ?thesis
        using dt \<open>registry s i = Some a\<close>
        by (simp add: registry_get_def remove_if_handle_def run_andThen)
    next
      case None
      obtain c u where c: "(attempt (adb_connect cfg (adb_connect_serial m)) :: (anyhow + unit) det) t
          = (Ok c, u)"
        using succeedsD [OF succeeds_attempt [OF returns_adb_connect]] by blast
      have fu: "frame {} {} t u" using frame_intros(7) [OF frame_adb_connect] c by (rule withinD)
      obtain r v where r: "(attempt (resolve_active_adb_serial cfg (adb_serial cfg m)
          (adb_connect_serial m)) :: (anyhow + string option) det) u = (Ok r, v)"
        using succeedsD [OF succeeds_attempt [OF returns_resolve]] by blast
      have fv: "frame {} {} u v" using frame_intros(7) [OF frame_resolve_serial] r by (rule withinD)
      have "now s \<le> now u" "now s \<le> now v" "unwatched u" "unwatched v"
        using ft fu fv frame_now unwatched_frame assms by (meson order_trans)+
      then have retry: "fst (adb_retry cfg i m d err w (wait_for_adb_loop n cfg i m d) q) \<noteq> Hang
          \<or> (\<exists>t. adb_retry cfg i m d err w (wait_for_adb_loop n cfg i m d) q
               = wait_for_adb_loop n cfg i m d t
             \<and> unwatched t \<and> now s + secs 1 \<le> now t \<and> now s < d)" if "q = u \<or> q = v" for err w q
        using adb_retry_cases [of q cfg i m d err w "wait_for_adb_loop n cfg i m d"] that
          unwatched_frame by (meson add_le_mono1 le_trans less_le_trans le_less_trans)
      have save: "fst (andThen (det ''wait_for_adb_time'' epoch_secs) (\<lambda>t.
         let m = m\<lparr>im_state := Running, im_updated_at := t\<rparr> in
         andThen (det ''wait_for_adb_write_metadata'' (write_metadata (paths cfg i) m)) (\<lambda>_.
         andThen (cache_insert i m) (\<lambda>_.
         ret (plain_action (summary m (adb_host cfg)))))) q) \<noteq> Hang" for q
        unfolding Let_def by (rule returns_no_Hang) (intro returns_intros)
      show ?thesis
        using \<open>registry s i = Some a\<close> dt None c r retry save
        by (simp add: registry_get_def split: sum.split option.split)
    qed
  qed
qed

interpretation wa: polling "\<lambda>n. wait_for_adb_loop n cfg i m deadline" unwatched deadline "secs 1"
  for cfg i m deadline
  by unfold_locales (rule wait_for_adb_round)

section \<open>A round of \<open>verify_boot_completed\<close>\<close>

lemma verify_retry_cases:
  assumes "millis 500 \<le> pause"
  shows "fst (verify_retry deadline pause code msg k s) \<noteq> Hang
    \<or> (\<exists>t. verify_retry deadline pause code msg k s = k t
        \<and> now s + millis 500 \<le> now t \<and> now s < deadline)"
proof (cases "now (step s) \<ge> deadline")
  case True
  then show ?thesis by (simp add: verify_retry_def run_instant_now)
next
  case False
  define w where "w = (step (step s))\<lparr>now := now (step (step s)) + pause,
    trace := trace (step s) @ [Slept pause]\<rparr>"
  have "verify_retry deadline pause code msg k s = k w"
    using False by (simp add: verify_retry_def run_instant_now run_sleep w_def)
  moreover have "now s + millis 500 \<le> now w" "now s < deadline"
    using step_now [of s] step_now [of "step s"] False assms by (simp_all add: w_def)
  ultimately show ?thesis by blast
qed

lemma unless_marker_cases:
  "fst (unless_marker cfg i k s) \<noteq> Hang \<or> (\<exists>t. unless_marker cfg i k s = k t \<and> now s \<le> now t)"
proof -
  obtain b t where b: "(console_log_has_boot_marker cfg i :: (sys, bool, error_detail) act) s = (Ok b, t)"
    and bt: "now s \<le> now t"
  proof -
    have "succeeds (console_log_has_boot_marker cfg i :: (sys, bool, error_detail) act)"
      unfolding console_log_has_boot_marker_def log_has_boot_marker_def
      by (intro succeeds_intros returns_intros)
    moreover have "within (frame {} {}) (console_log_has_boot_marker cfg i :: (sys, bool, error_detail) act)"
      unfolding console_log_has_boot_marker_def by (intro frame_intros)
    ultimately show thesis using that succeedsD withinD frame_now by meson
  qed
  obtain c u where c: "(run_log_has_boot_marker cfg i :: (sys, bool, error_detail) act) t = (Ok c, u)"
    and cu: "now t \<le> now u"
  proof -
    have "succeeds (run_log_has_boot_marker cfg i :: (sys, bool, error_detail) act)"
      unfolding run_log_has_boot_marker_def log_has_boot_marker_def
      by (intro succeeds_intros returns_intros)
    moreover have "within (frame {} {}) (run_log_has_boot_marker cfg i :: (sys, bool, error_detail) act)"
      unfolding run_log_has_boot_marker_def by (intro frame_intros)
    ultimately show thesis using that succeedsD withinD frame_now by meson
  qed
  show ?thesis using b bt c cu by (cases b; cases c) (auto simp: unless_marker_def)
qed

lemma verify_boot_round:
  "fst (verify_boot_loop (Suc n) cfg i m d s) \<noteq> Hang
    \<or> (\<exists>t. verify_boot_loop (Suc n) cfg i m d s = verify_boot_loop n cfg i m d t
       \<and> True \<and> now s + millis 500 \<le> now t \<and> now s < d)"
proof -
  let ?k = "verify_boot_loop n cfg i m d"
  let ?goal = "\<lambda>x. fst x \<noteq> Hang \<or> (\<exists>t. x = ?k t \<and> True \<and> now s + millis 500 \<le> now t \<and> now s < d)"
  obtain c u where c: "(attempt (adb_connect cfg (adb_connect_serial m)) :: (anyhow + unit) det) s
      = (Ok c, u)"
    using succeedsD [OF succeeds_attempt [OF returns_adb_connect]] by blast
  have fu: "frame {} {} s u" using fr.within_attempt [OF frame_adb_connect] c by (rule withinD)
  obtain r v where r: "(attempt (resolve_active_adb_serial cfg (adb_serial cfg m)
      (adb_connect_serial m)) :: (anyhow + string option) det) u = (Ok r, v)"
    using succeedsD [OF succeeds_attempt [OF returns_resolve]] by blast
  have fv: "frame {} {} u v" using fr.within_attempt [OF frame_resolve_serial] r by (rule withinD)
  have uv: "now s \<le> now u" "now s \<le> now v" using frame_now [OF fu] frame_now [OF fv] by simp_all
  have retry: "?goal (verify_retry d p code msg ?k q)"
    if "now s \<le> now q" "millis 500 \<le> p" for p code msg q
    using verify_retry_cases [OF that(2), of d code msg ?k q] that(1)
    by (meson add_le_mono1 le_trans le_less_trans)
  have marked: "?goal (unless_marker cfg i (verify_retry d p code msg ?k) q)"
    if "now s \<le> now q" "millis 500 \<le> p" for p code msg q
    using unless_marker_cases [of cfg i "verify_retry d p code msg ?k" q] retry [OF _ that(2)]
      that(1) by (metis le_trans)
  have ms: "millis 500 \<le> secs 1" by (simp add: millis_def secs_def)
  have getprop: "?goal (andThen (attempt (adb_shell_getprop cfg active boot_marker)) (\<lambda>prop.
     case prop of
       Inl err \<Rightarrow> unless_marker cfg i (verify_retry d (millis 500) c1 (f err) ?k)
     | Inr out \<Rightarrow>
         let value = trim out in
         if value = ''1'' \<or> value = ''true'' \<or> value = ''TRUE'' then ret boot_observed
         else unless_marker cfg i (verify_retry d (secs 1) c2 (g value) ?k)) v)"
    for active c1 c2 and f :: "anyhow \<Rightarrow> string" and g
  proof -
    obtain p w where p: "(attempt (adb_shell_getprop cfg active boot_marker) :: (anyhow + string) det) v
        = (Ok p, w)"
      using succeedsD [OF succeeds_attempt [OF returns_adb_shell_getprop]] by blast
    have "frame {} {} v w" using fr.within_attempt [OF frame_adb_shell_getprop] p by (rule withinD)
    then have "now s \<le> now w" using uv frame_now order_trans by blast
    with p marked [of w "millis 500"] marked [OF _ ms, of w] show ?thesis
      by (cases p) (auto simp: Let_def simp del: not_None_eq)
  qed
  show ?thesis
    using c r retry [OF uv(1)] retry [OF uv(2)] getprop
    by (simp split: sum.split option.split)
qed

interpretation vb: polling "\<lambda>n. verify_boot_loop n cfg i m deadline" "\<lambda>_. True" deadline "millis 500"
  for cfg i m deadline
  by unfold_locales (rule verify_boot_round)

section \<open>Enough fuel\<close>

definition timeout_of :: "config \<Rightarrow> nat option \<Rightarrow> nat" where
  "timeout_of cfg t = (case t of Some n \<Rightarrow> secs n | None \<Rightarrow> adb_wait_timeout cfg)"

lemma wait_for_adb_in_time:
  assumes "unwatched s" and "timeout_of cfg t \<le> (e_fuel (env s) - 1) * secs 1"
  shows "fst (wait_for_adb cfg i t s) \<noteq> Hang"
proof (cases "metadata cfg i s" rule: prod.exhaust)
  case (Pair r u)
  obtain n where n: "e_fuel (env s) = Suc n"
    using assms(1) by (cases "e_fuel (env s)") (auto simp: unwatched_def)
  have fu: "frame {} {} s u" using frame_metadata Pair by (rule withinD)
  have live: "unwatched (step u)" using unwatched_frame [OF fr.chain [OF fu frame_step] assms(1)] .
  have env: "env u = env s" using fu by (rule frame_env)
  show ?thesis
  proof (cases rule: returns_cases [OF returns_metadata, of cfg i s])
    case (1 m v)
    have "fst (wait_for_adb_loop (Suc n) cfg i m (now (step u) + timeout_of cfg t) (step u)) \<noteq> Hang"
      using assms(2) n by (intro wa.ends [OF live]) simp
    then show ?thesis
      using 1 Pair n env
      by (simp add: wait_for_adb_def det_cases run_instant_now instant_add_def timeout_of_def Let_def
          del: wait_for_adb_loop.simps)
  next
    case (2 e v)
    then show ?thesis by (simp add: wait_for_adb_def det_def)
  qed
qed

lemma verify_boot_in_time:
  assumes "verify_timeout t \<le> (e_fuel (env s) - 1) * millis 500" and "0 < e_fuel (env s)"
  shows "fst (verify_boot_completed cfg i t s) \<noteq> Hang"
proof (cases rule: returns_cases [OF returns_metadata, of cfg i s])
  case (1 m u)
  obtain n where n: "e_fuel (env s) = Suc n" using assms(2) by (cases "e_fuel (env s)") auto
  have env: "env u = env s" using frame_env [OF metadata_frame [OF 1]] .
  have "fst (verify_boot_loop (Suc n) cfg i m (now (step u) + verify_timeout t) (step u)) \<noteq> Hang"
    using assms(1) n by (intro vb.ends) simp_all
  then show ?thesis
    using 1 n env
    by (simp add: verify_boot_completed_def det_cases run_instant_now instant_add_def
        del: verify_boot_loop.simps)
next
  case (2 e u)
  then show ?thesis by (simp add: verify_boot_completed_def det_def)
qed

section \<open>What a successful wait establishes\<close>

lemma good_still:
  assumes "frame {} {} s t" and "good cfg s"
  shows "good cfg t" and "stored cfg t = stored cfg s"
proof -
  show st: "stored cfg t = stored cfg s"
    using stored_still [OF assms(1) good_undisturbed [OF assms(2)]] .
  show "good cfg t"
    using assms(2) st frame_env [OF assms(1)] frame_cache [OF assms(1)]
    by (simp add: good_def coherent_def)
qed

lemma still_registry: "frame {} {} s t \<Longrightarrow> registry t = registry s"
  using frame_registry [of "{}" "{}" s t] by auto

lemma epoch_frame: "epoch_secs s = (r, t) \<Longrightarrow> frame {} {} s t"
  by (rule withinD [OF frame_epoch_secs])

lemma save_metadata_registry: "save_metadata cfg i m s = (Ok x, t) \<Longrightarrow> registry t = registry s"
  using frame_registry [OF write_metadata_frame]
  by (fastforce simp: save_metadata_def cache_insert_def elim!: andThen_Ok_cases)

lemma adb_retry_Ok:
  assumes "adb_retry cfg i m d err w k s = (Ok r, t)"
  shows "\<exists>q. frame {} {} s q \<and> k q = (Ok r, t)"
proof (cases "now (step s) \<ge> d")
  case True
  then show ?thesis
    using assms by (auto simp: adb_retry_def run_instant_now launch_failure_Err elim!: andThen_Ok_cases)
next
  case False
  then have "andThen (sleep (secs 1)) (\<lambda>_. k) (step s) = (Ok r, t)"
    using assms by (simp add: adb_retry_def run_instant_now)
  then obtain q where q: "(sleep (secs 1) :: unit det) (step s) = (Ok (), q)" "k q = (Ok r, t)"
    by (auto elim!: andThen_Ok_cases)
  have "frame {} {} s q" using fr.chain [OF frame_step withinD [OF frame_sleep q(1)]] .
  with q(2) show ?thesis by blast
qed

lemma save_metadata_assoc:
  "andThen (det c (write_metadata (paths cfg i) m)) (\<lambda>_. andThen (cache_insert i m) (\<lambda>_. k)) s
     = (Ok r, t) \<Longrightarrow>
   \<exists>u. save_metadata cfg i m s = (Ok (), u) \<and> k u = (Ok r, t)"
  by (auto simp: save_metadata_def cache_insert_def det_cases elim!: andThen_Ok_cases)

lemma wait_for_adb_loop_Ok:
  assumes "good cfg s" and "wf_metadata m" and "wait_for_adb_loop n cfg i m d s = (Ok r, t)"
  shows "\<exists>tm. stored cfg t = (stored cfg s)(i := Some (m\<lparr>im_state := Running, im_updated_at := tm\<rparr>))
    \<and> r = plain_action (summary (m\<lparr>im_state := Running, im_updated_at := tm\<rparr>) (adb_host cfg))
    \<and> good cfg t \<and> registry t = registry s \<and> registry s i \<noteq> None"
  using assms(1,3)
proof (induction n arbitrary: s)
  case 0
  then show ?case by simp
next
  case (Suc n)
  from Suc.prems(2) obtain a where a: "registry s i = Some a"
    by (cases "registry s i") (auto simp: registry_get_def launch_failure_Err)
  obtain u where u: "det ''wait_for_adb_wait'' (try_wait a) s = (Ok None, u)"
    and rest: "andThen (attempt (adb_connect cfg (adb_connect_serial m))) (\<lambda>connected.
     case connected of
       Inl err \<Rightarrow>
         adb_retry cfg i m d
           (Msg (''timeout waiting for adb on '' @ adb_serial cfg m @ '': '' @ err_string err))
           (''timeout waiting for adb on '' @ adb_serial cfg m @ '' and record failed: '')
           (wait_for_adb_loop n cfg i m d)
     | Inr _ \<Rightarrow>
     andThen (attempt (resolve_active_adb_serial cfg (adb_serial cfg m) (adb_connect_serial m)))
       (\<lambda>resolved.
     case resolved of
       Inr (Some active) \<Rightarrow>
         andThen (det ''wait_for_adb_time'' epoch_secs) (\<lambda>t.
         let m = m\<lparr>im_state := Running, im_updated_at := t\<rparr> in
         andThen (det ''wait_for_adb_write_metadata'' (write_metadata (paths cfg i) m)) (\<lambda>_.
         andThen (cache_insert i m) (\<lambda>_.
         ret (plain_action (summary m (adb_host cfg))))))
     | Inr None \<Rightarrow>
         adb_retry cfg i m d
           (Msg (''timeout waiting for adb device '' @ adb_serial cfg m))
           (''timeout waiting for adb device '' @ adb_serial cfg m @ '' and record failed: '')
           (wait_for_adb_loop n cfg i m d)
     | Inl err \<Rightarrow>
         adb_retry cfg i m d
           (Msg (''adb devices never succeeded for '' @ adb_serial cfg m @ '': '' @ err_chain err))
           (''adb devices failed for '' @ adb_serial cfg m @ '' and record failed: '')
           (wait_for_adb_loop n cfg i m d))) u = (Ok r, t)"
    using Suc.prems(2) a
    by (auto simp: registry_get_def launch_failure_Err elim!: andThen_Ok_cases split: option.splits)
  have su: "frame {} {} s u" using frame_det [OF frame_try_wait] u by (rule withinD)
  obtain c v where c: "(attempt (adb_connect cfg (adb_connect_serial m)) :: (anyhow + unit) det) u = (Ok c, v)"
    using succeedsD [OF succeeds_attempt [OF returns_adb_connect]] by blast
  have sv: "frame {} {} s v"
    using fr.chain [OF su withinD [OF fr.within_attempt [OF frame_adb_connect] c]] .
  have again: ?case if retried: "adb_retry cfg i m d err w (wait_for_adb_loop n cfg i m d) q = (Ok r, t)"
    and to_q: "frame {} {} s q" for err w q
  proof -
    obtain q' where q': "frame {} {} q q'" "wait_for_adb_loop n cfg i m d q' = (Ok r, t)"
      using adb_retry_Ok [OF retried] by blast
    note f = fr.chain [OF to_q q'(1)]
    from Suc.IH [OF good_still(1) [OF f Suc.prems(1)] q'(2)] good_still(2) [OF f Suc.prems(1)]
      still_registry [OF f]
    show ?case by simp
  qed
  show ?case
  proof (cases c)
    case (Inl e)
    with rest c again [OF _ sv] show ?thesis by auto
  next
    case (Inr x)
    obtain z w where z: "(attempt (resolve_active_adb_serial cfg (adb_serial cfg m)
        (adb_connect_serial m)) :: (anyhow + string option) det) v = (Ok z, w)"
      using succeedsD [OF succeeds_attempt [OF returns_resolve]] by blast
    have sw: "frame {} {} s w"
      using fr.chain [OF sv withinD [OF fr.within_attempt [OF frame_resolve_serial] z]] .
    show ?thesis
    proof (cases "\<exists>active. z = Inr (Some active)")
      case False
      with rest c Inr z again [OF _ sw] show ?thesis by (cases z) auto
    next
      case True
      then obtain active where act: "z = Inr (Some active)" ..
      let ?m = "\<lambda>tm. m\<lparr>im_state := Running, im_updated_at := tm\<rparr>"
      have "andThen (det ''wait_for_adb_time'' epoch_secs) (\<lambda>tm.
         andThen (det ''wait_for_adb_write_metadata'' (write_metadata (paths cfg i) (?m tm))) (\<lambda>_.
         andThen (cache_insert i (?m tm)) (\<lambda>_.
         ret (plain_action (summary (?m tm) (adb_host cfg)))))) w = (Ok r, t)"
        using rest c Inr z act by (simp add: Let_def)
      then obtain tm y where "det ''wait_for_adb_time'' epoch_secs w = (Ok tm, y)"
        and save: "andThen (det ''wait_for_adb_write_metadata'' (write_metadata (paths cfg i) (?m tm))) (\<lambda>_.
         andThen (cache_insert i (?m tm)) (\<lambda>_.
         ret (plain_action (summary (?m tm) (adb_host cfg))))) y = (Ok r, t)"
        by (rule andThen_Ok_cases)
      then have e: "epoch_secs w = (Ok tm, y)" by (simp add: det_cases)
      have sy: "frame {} {} s y" using fr.chain [OF sw withinD [OF frame_epoch_secs e]] .
      note gy = good_still [OF sy Suc.prems(1)]
      have "u64 tm"
        using epoch_u64 [OF _ e] good_lawful [OF good_still(1) [OF sw Suc.prems(1)]]
        by (simp add: lawful_def)
      then have "wf_metadata (?m tm)" using assms(2) by (simp add: wf_metadata_def)
      moreover obtain q where "save_metadata cfg i (?m tm) y = (Ok (), q)"
        and "r = plain_action (summary (?m tm) (adb_host cfg))" and "t = q"
        using save_metadata_assoc [OF save] by auto
      ultimately show ?thesis
        using ms.save_Ok [OF gy(1)] gy(2) save_metadata_registry still_registry [OF sy] a by auto
    qed
  qed
qed

section \<open>A booted guest\<close>

text \<open>A machine with one running guest, instance 3, that \<open>adb devices\<close> lists.\<close>

definition listing :: string where
  "listing = ''List of devices attached'' @ [newline] @ ''127.0.0.1:6520'' @ [CHR 0x09] @ ''device''
     @ [newline]"

definition booted_env :: environ where
  "booted_env = quiet\<lparr>e_command := \<lambda>_ _.
     Inr \<lparr>out_status = Exited 0, out_stdout = listing, out_stderr = []\<rparr>\<rparr>"

definition booted :: sys where
  "booted = (machine booted_env ((\<lambda>_. None)(ip_metadata (paths default_config 3) :=
       Some (File (unary (enc_metadata (sample_metadata 3)))))))
     \<lparr>registry := [3 \<mapsto> 0],
      handles := \<lambda>_. \<lparr>h_pid = 4242, h_child = True, h_exit = None, h_locked = False\<rparr>,
      next_handle := 1\<rparr>"

lemma booted_env_simps [simp]:
  "e_command booted_env n argv = Inr \<lparr>out_status = Exited 0, out_stdout = listing, out_stderr = []\<rparr>"
  "e_fuel booted_env = 1000" "e_try_wait booted_env n p = Inr None" "e_print booted_env = unary"
  "calm booted_env" "codec_ok booted_env" "e_system booted_env n = Some 1000" "e_fault booted_env n = None"
  "e_wait booted_env n p = None" "e_lag booted_env n = 0"
  "\<not> e_area booted_env q"
proof -
  show "codec_ok booted_env" by (rule codec_ok_unary) (simp_all add: booted_env_def quiet_def)
qed (simp_all add: booted_env_def quiet_def calm_def)

lemma booted_simps [simp]:
  "env booted = booted_env" "registry booted 3 = Some 0" "cache booted i = None"
  "\<not> h_locked (handles booted a)" "now booted = 0" "tick booted = 0"
  "h_pid (handles booted a) = 4242"
  by (simp_all add: booted_def machine_def)

lemma booted_lawful [simp]: "lawful cfg booted_env"
  by (simp add: lawful_def calm_undisturbed clock_ok_def u64_def)

lemma booted_good: "good default_config booted"
  by (simp add: good_def coherent_def)

lemma booted_stored: "stored default_config booted 3 = Some (sample_metadata 3)"
  using read_back_printed [of booted_env "sample_metadata 3"]
  by (simp add: stored_def sample_wf) (simp add: booted_def machine_def)

lemma booted_writable: "writable default_config booted 3"
  by (auto simp: writable_def booted_def machine_def tmp_metadata_def is_file_def prefix_def
      split: option.splits if_splits)

lemma open_read_state: "open_read p s = (r, t) \<Longrightarrow> t = step s"
  by (auto simp: open_read_def syscall_def split: option.splits if_splits)

lemma read_to_string_state: "read_to_string p s = (r, t) \<Longrightarrow> t = step s"
  by (auto simp: read_to_string_def syscall_def split: option.splits node.splits if_splits)

lemma metadata_handles:
  assumes "metadata cfg i s = (Ok m, t)" shows "handles t = handles s"
proof (cases "cache s i")
  case (Some c)
  then show ?thesis using assms by (simp add: metadata_def)
next
  case None
  then show ?thesis using assms
    by (auto simp: metadata_def Let_def io_cases ctx_cases split: sum.splits
        dest!: open_read_state read_to_string_state elim!: andThen_Ok_cases)
qed

lemma booted_loads: "metadata default_config 3 booted = (Ok (sample_metadata 3), step (step booted))"
proof -
  have "fs booted (ip_metadata (paths default_config 3)) = Some (File (unary (enc_metadata (sample_metadata 3))))"
    by (simp add: booted_def machine_def)
  moreover have "decode_metadata booted_env (unary (enc_metadata (sample_metadata 3))) = Inr (sample_metadata 3)"
    using decode_printed [of booted_env "sample_metadata 3"] by (simp add: sample_wf)
  ultimately show ?thesis
    using metadata_fresh [of booted 3 "unary (enc_metadata (sample_metadata 3))" default_config]
      ascii_utf8 [OF ascii_unary] by auto
qed

lemma serials:
  "adb_serial default_config (sample_metadata 3) = ''127.0.0.1:6520''"
  "adb_connect_serial (sample_metadata 3) = ''0.0.0.0:6520''"
proof -
  have "char_of (54::nat) = CHR ''6''" "char_of (53::nat) = CHR ''5''" "char_of (50::nat) = CHR ''2''"
    "char_of (48::nat) = CHR ''0''"
    by (simp_all add: char_of_def bit_0)
  then have "show_nat 6520 = ''6520''" by (simp add: show_nat.simps digit_def)
  then show "adb_serial default_config (sample_metadata 3) = ''127.0.0.1:6520''"
    and "adb_connect_serial (sample_metadata 3) = ''0.0.0.0:6520''"
    by (simp_all add: adb_serial_def adb_connect_serial_def sample_metadata_def default_config_def)
qed

lemma active_entry_single:
  "split_whitespace line = [e, ''device''] \<Longrightarrow> active_entry e b [line] = Some e"
  by simp

lemma listed: "active_entry ''127.0.0.1:6520'' b (drop 1 (str_lines listing))
    = Some ''127.0.0.1:6520''"
proof -
  let ?l = "''127.0.0.1:6520'' @ [CHR 0x09] @ ''device''"
  have lines: "str_lines listing = [''List of devices attached'', ?l]"
    by (simp add: listing_def str_lines_def strip_cr_def)
  have "split_whitespace ?l = [''127.0.0.1:6520'', ''device'']"
    by (simp add: split_whitespace_def is_space_def byte_def)
  then have "active_entry ''127.0.0.1:6520'' b [?l] = Some ''127.0.0.1:6520''"
    by (rule active_entry_single)
  moreover have "drop 1 [''List of devices attached'', ?l] = [?l]" by (simp only: drop_Suc_Cons drop_0 One_nat_def)
  ultimately show ?thesis unfolding lines by (simp only:)
qed

lemma wait_for_adb_loop_ready:
  assumes "registry s i = Some a" and "try_wait a s = (Ok None, u)"
    and "adb_connect cfg (adb_connect_serial m) u = (Ok (), v)"
    and "resolve_active_adb_serial cfg (adb_serial cfg m) (adb_connect_serial m) v = (Ok (Some x), w)"
    and "epoch_secs w = (Ok tm, y)"
    and "write_metadata (paths cfg i) (m\<lparr>im_state := Running, im_updated_at := tm\<rparr>) y = (Ok (), z)"
  shows "\<exists>r t. wait_for_adb_loop (Suc n) cfg i m d s = (Ok r, t)"
  using assms by (simp add: registry_get_def det_def Let_def cache_insert_def)

lemma booted_command:
  "env s = booted_env \<Longrightarrow> adb_output c what argv s = (Ok listing, (step s)\<lparr>trace := trace s @ [Ran argv]\<rparr>)"
  by (simp add: adb_output_def ctx_def run_cmd_def status_success_def)

lemma booted_waits: "\<exists>r t. wait_for_adb default_config 3 (Some 5) booted = (Ok r, t)"
proof -
  let ?m = "sample_metadata 3"
  define s where "s = step (step (step booted))"
  define v where "v = (step (step s))\<lparr>trace := trace s @ [Ran (adb_command default_config
      [''connect'', adb_connect_serial ?m])]\<rparr>"
  define w where "w = (step v)\<lparr>trace := trace v @ [Ran (adb_command default_config [''devices''])]\<rparr>"
  have e: "env s = booted_env" "env v = booted_env" "env w = booted_env" "registry s 3 = Some 0"
    by (simp_all add: s_def v_def w_def)
  have h: "handles s 0 = \<lparr>h_pid = 4242, h_child = True, h_exit = None, h_locked = False\<rparr>"
    by (simp add: s_def) (simp add: booted_def)
  have tw: "try_wait 0 s = (Ok None, step s)"
    using e h by (simp add: try_wait_def lock_state_def poll_child_def Let_def)
  have c: "adb_connect default_config (adb_connect_serial ?m) (step s) = (Ok (), v)"
    using e by (simp add: adb_connect_def booted_command v_def)
  have r: "resolve_active_adb_serial default_config (adb_serial default_config ?m)
      (adb_connect_serial ?m) v = (Ok (Some ''127.0.0.1:6520''), w)"
    unfolding resolve_active_adb_serial_def serials using e listed by (simp add: booted_command w_def)
  have t: "epoch_secs w = (Ok 1000, step w)" using e by (simp add: epoch_secs_def)
  have "fs (step w) = fs booted" by (simp add: w_def v_def s_def)
  then have "writable default_config (step w) 3" using booted_writable by (simp add: writable_def)
  then obtain z where "write_metadata (paths default_config 3)
      (?m\<lparr>im_state := Running, im_updated_at := 1000\<rparr>) (step w) = (Ok (), z)"
    using calm_write_metadata [of "step w"] e(3) by fastforce
  then have "\<exists>r t. wait_for_adb_loop (Suc 999) default_config 3 ?m d s = (Ok r, t)" for d
    using wait_for_adb_loop_ready [OF e(4) tw c r t] by blast
  then have "\<exists>r t. wait_for_adb_loop 1000 default_config 3 ?m d s = (Ok r, t)" for d
    by (simp del: wait_for_adb_loop.simps)
  moreover have "now s + 5 * 1000000000 < secs (2 ^ 63)"
    by (simp add: s_def step_def secs_def)
  ultimately show ?thesis
    using booted_loads e(1)
    by (simp add: wait_for_adb_def det_def run_instant_now instant_add_def secs_def s_def
        del: wait_for_adb_loop.simps)
qed

section \<open>Properties\<close>

lemma wait_for_adb_Ok:
  assumes "good cfg s" and "wait_for_adb cfg i timeout s = (Ok r, t)"
  shows "\<exists>m tm. stored cfg s i = Some m
    \<and> stored cfg t = (stored cfg s)(i := Some (m\<lparr>im_state := Running, im_updated_at := tm\<rparr>))
    \<and> r = plain_action (summary (m\<lparr>im_state := Running, im_updated_at := tm\<rparr>) (adb_host cfg))
    \<and> good cfg t \<and> registry t = registry s \<and> registry s i \<noteq> None"
proof -
  obtain m u where m: "metadata cfg i s = (Ok m, u)"
    using assms(2) by (auto simp: wait_for_adb_def det_cases elim!: andThen_Ok_cases)
  note gu = metadata_keeps [OF assms(1) m] and st = metadata_Ok [OF assms(1) m]
  obtain d n where loop: "wait_for_adb_loop n cfg i m d (step u) = (Ok r, t)"
    using assms(2) m
    by (auto simp: wait_for_adb_def det_def run_instant_now instant_add_def Let_def split: if_splits)
  have fs: "frame {} {} u (step u)" by (rule frame_step)
  from wait_for_adb_loop_Ok [OF good_still(1) [OF fs gu(1)] stored_wf [OF st] loop]
    good_still(2) [OF fs gu(1)] gu(2) st still_registry [OF metadata_frame [OF m]] still_registry [OF fs]
  show ?thesis by auto
qed

text \<open>C15: When waiting for \<open>adb\<close> succeeds, the metadata of the instance on disk is what it was with the
  state \<open>running\<close> and a new time stamp, the response is the summary of exactly that metadata, and
  the metadata of no other instance changed.\<close>

theorem wait_for_adb_success:
  assumes "good cfg s" and "wait_for_adb cfg i timeout s = (Ok r, t)"
  shows "\<exists>m tm. stored cfg s i = Some m
    \<and> stored cfg t = (stored cfg s)(i := Some (m\<lparr>im_state := Running, im_updated_at := tm\<rparr>))
    \<and> r = plain_action (summary (m\<lparr>im_state := Running, im_updated_at := tm\<rparr>) (adb_host cfg))"
  using wait_for_adb_Ok [OF assms] by blast

lemma wait_for_adb_success_witness:
  "\<exists>r t tm. wait_for_adb default_config 3 (Some 5) booted = (Ok r, t)
    \<and> stored default_config t 3 = Some ((sample_metadata 3)\<lparr>im_state := Running, im_updated_at := tm\<rparr>)"
proof -
  obtain r t where w: "wait_for_adb default_config 3 (Some 5) booted = (Ok r, t)"
    using booted_waits by blast
  from wait_for_adb_success [OF booted_good w] w booted_stored show ?thesis by auto
qed

text \<open>C17: Waiting for \<open>adb\<close> ends: as long as no exit watcher is inside \<open>wait\<close>, a poll per second
  until the timeout and one more is enough, whatever the guest and \<open>adb\<close> do.\<close>

theorem wait_for_adb_returns:
  assumes "unwatched s" and "timeout_of cfg timeout \<le> (e_fuel (env s) - 1) * secs 1"
  shows "fst (wait_for_adb cfg i timeout s) \<noteq> Hang"
  using assms by (rule wait_for_adb_in_time)

lemma wait_for_adb_returns_witness: "fst (wait_for_adb default_config 3 None booted) \<noteq> Hang"
  by (rule wait_for_adb_returns)
    (simp_all add: unwatched_def timeout_of_def default_config_def secs_def)

text \<open>C20: Waiting for \<open>adb\<close> on an instance whose exit watcher is inside \<open>GuestHandle::wait\<close>, as it
  is for every instance that has been started, blocks on the mutex of the handle for as long as the
  guest runs, whatever the timeout.\<close>

theorem wait_for_adb_blocked_by_watcher:
  assumes "registry s i = Some a" and "\<forall>n. e_wait (env s) n (h_pid (handles s a)) = None"
    and "metadata cfg i (watching a s) = (Ok m, u)"
    and "now (step u) + timeout_of cfg timeout < secs (2 ^ 63)"
  shows "fst (wait_for_adb cfg i timeout (watching a s)) = Hang"
proof -
  let ?w = "watching a s"
  have w: "registry ?w i = Some a" "env ?w = env s" "h_locked (handles ?w a)"
    "h_pid (handles ?w a) = h_pid (handles s a)"
    using assms(1) by (simp_all add: watching_def)
  have u: "registry u = registry ?w" "env u = env s" "handles u = handles ?w"
    using frame_registry [OF metadata_frame [OF assms(3)]] frame_env [OF metadata_frame [OF assms(3)]]
      metadata_handles [OF assms(3)] w(2) by auto
  have "fst (try_wait a (step u)) = Hang"
    using u w assms(2) by (simp add: try_wait_def lock_state_def Let_def run_andThen)
  then have "fst (wait_for_adb_loop n cfg i m d (step u)) = Hang" for n d
    using u w
    by (cases n; cases "try_wait a (step u)") (simp_all add: registry_get_def det_def mapErr_def run_andThen)
  then show ?thesis
    using assms(3,4) by (simp add: wait_for_adb_def det_def run_instant_now instant_add_def
        timeout_of_def Let_def del: wait_for_adb_loop.simps)
qed

lemma wait_for_adb_blocked_by_watcher_witness:
  "fst (wait_for_adb default_config 3 (Some 5) (watching 0 booted)) = Hang"
proof -
  let ?w = "watching 0 booted"
  have "fs ?w (ip_metadata (paths default_config 3)) = Some (File (unary (enc_metadata (sample_metadata 3))))"
    by (simp add: watching_def) (simp add: booted_def machine_def)
  moreover have "decode_metadata booted_env (unary (enc_metadata (sample_metadata 3))) = Inr (sample_metadata 3)"
    using decode_printed [of booted_env "sample_metadata 3"] by (simp add: sample_wf)
  ultimately have "metadata default_config 3 ?w = (Ok (sample_metadata 3), step (step ?w))"
    using metadata_fresh [of ?w 3 "unary (enc_metadata (sample_metadata 3))" default_config]
      ascii_utf8 [OF ascii_unary] by (auto simp: watching_def)
  moreover have "now (step (step (step ?w))) + timeout_of default_config (Some 5) < secs (2 ^ 63)"
    by (simp add: watching_def step_def timeout_of_def secs_def)
  ultimately show ?thesis
    by (intro wait_for_adb_blocked_by_watcher [where a = 0]) simp_all
qed

text \<open>C23: Verifying the boot ends: a poll every half second until its timeout and one more is
  enough.  The timeout it uses is 120 seconds when the caller has no time left at all.\<close>

theorem verify_boot_returns:
  assumes "case timeout of Some n \<Rightarrow> secs (if n = 0 then 120 else n) \<le> (e_fuel (env s) - 1) * millis 500
      | None \<Rightarrow> secs 120 \<le> (e_fuel (env s) - 1) * millis 500"
    and "0 < e_fuel (env s)"
  shows "fst (verify_boot_completed cfg i timeout s) \<noteq> Hang"
  using assms
  by (intro verify_boot_in_time) (auto simp: verify_timeout_def split: option.splits if_splits)

lemma verify_boot_returns_witness: "fst (verify_boot_completed default_config 3 (Some 0) booted) \<noteq> Hang"
  by (rule verify_boot_returns) (simp_all add: secs_def millis_def)

end
