(* ===== verification/Manager.thy ===== *)
theory Manager
  imports Adb
begin

text \<open>
  \<open>InstanceManager\<close> of \<open>cuttlefish/cfctl/src/daemon/manager.rs\<close>: one definition per request
  handler, with its guards, early returns and error codes, and \<open>handle\<close>, which turns a request into
  a response.  The bodies of the threads a handler starts (the exit watcher, the worker of
  \<open>destroy_instance\<close>) are operations of their own.
\<close>

section \<open>Creating\<close>

definition fresh_metadata ::
  "config \<Rightarrow> instance_id \<Rightarrow> string option \<Rightarrow> 16 word \<Rightarrow> instance_state \<Rightarrow> nat \<Rightarrow> instance_metadata"
where
  "fresh_metadata cfg i purpose port st t =
     \<lparr>im_id = i, im_purpose = purpose, im_adb_port = port, im_state = st,
      im_boot_image = default_boot_image cfg, im_init_boot_image = default_init_boot_image cfg,
      im_created_at = t, im_updated_at = t, im_held = False\<rparr>"

definition create_instance :: "config \<Rightarrow> string option \<Rightarrow> create_response res" where
  "create_instance cfg purpose =
     andThen (allocate_id cfg) (\<lambda>i.
     andThen (adb_port_for cfg i) (\<lambda>port.
     let p = paths cfg i in
     andThen (ctx (''creating instance dir '' @ show_path (ip_root p))
       (create_dir_all (ip_root p))) (\<lambda>_.
     andThen (ctx (''creating artifacts dir '' @ show_path (ip_artifacts p))
       (create_dir_all (ip_artifacts p))) (\<lambda>_.
     andThen epoch_secs (\<lambda>t.
     let m = fresh_metadata cfg i purpose port Created t in
     andThen (write_metadata p m) (\<lambda>_.
     andThen (write_env_file cfg p m) (\<lambda>_.
     andThen (cache_insert i m) (\<lambda>_.
     ret \<lparr>cr_summary = summary m (adb_host cfg)\<rparr>))))))))"

section \<open>Starting\<close>

definition deadline_from_timeout :: "nat option \<Rightarrow> (sys, nat option, 'e) act" where
  "deadline_from_timeout timeout_secs = (case timeout_secs of
       None \<Rightarrow> ret None
     | Some n \<Rightarrow>
         andThen instant_now (\<lambda>t. andThen (instant_add t (secs n)) (\<lambda>d. ret (Some d))))"

definition secs_remaining :: "nat option \<Rightarrow> (sys, nat option, 'e) act" where
  "secs_remaining deadline = (case deadline of
       None \<Rightarrow> ret None
     | Some d \<Rightarrow>
         andThen instant_now (\<lambda>t. ret (Some (if t \<le> d then (d - t) div secs 1 else 0))))"

definition spawn_exit_watcher :: "instance_id \<Rightarrow> nat \<Rightarrow> (sys, unit, 'e) act" where
  "spawn_exit_watcher i a = spawn_thread (ExitWatcher i a)"

text \<open>The branch of a guest that could not be spawned.\<close>

definition start_spawn_failed ::
  "config \<Rightarrow> instance_id \<Rightarrow> instance_metadata \<Rightarrow> anyhow \<Rightarrow> action_response det"
where
  "start_spawn_failed cfg i m err =
     andThen (det ''start_instance_failed_timestamp'' epoch_secs) (\<lambda>t.
     let m = m\<lparr>im_state := Failed, im_updated_at := t\<rparr> in
     andThen (ignoring (write_metadata (paths cfg i) m)) (\<lambda>_.
     andThen (cache_insert i m) (\<lambda>_.
     raise (mk_error ''start_instance_spawn_failed''
       (''launching cuttlefish guest: '' @ err_chain err)))))"

text \<open>The branch \<open>skip_adb_wait\<close>: running at once.\<close>

definition start_skip_adb :: "config \<Rightarrow> instance_id \<Rightarrow> nat \<Rightarrow> action_response det" where
  "start_skip_adb cfg i a =
     andThen (det ''start_instance_metadata_after_skip'' (metadata cfg i)) (\<lambda>m.
     andThen (det ''start_instance_timestamp_after_skip'' epoch_secs) (\<lambda>t.
     let m = m\<lparr>im_state := Running, im_updated_at := t\<rparr> in
     andThen (det ''start_instance_write_metadata_after_skip'' (write_metadata (paths cfg i) m)) (\<lambda>_.
     andThen (cache_insert i m) (\<lambda>_.
     andThen (spawn_exit_watcher i a) (\<lambda>_.
     ret (plain_action (summary m (adb_host cfg))))))))"

text \<open>The branch that waits for \<open>adb\<close> and, when asked, for the boot.\<close>

definition start_wait_adb ::
  "config \<Rightarrow> instance_id \<Rightarrow> nat \<Rightarrow> start_options \<Rightarrow> action_response det"
where
  "start_wait_adb cfg i a opts =
     (let effective_timeout = (case so_timeout_secs opts of
         Some n \<Rightarrow> Some n | None \<Rightarrow> Some (start_timeout cfg div secs 1)) in
     andThen (deadline_from_timeout effective_timeout) (\<lambda>deadline.
     andThen (secs_remaining deadline) (\<lambda>remaining.
     andThen (attempt (wait_for_adb cfg i remaining)) (\<lambda>waited.
     case waited of
       Inl detail \<Rightarrow>
         andThen (ignoring (terminate_guest i (secs 5))) (\<lambda>_. raise detail)
     | Inr response \<Rightarrow>
     andThen
       (if so_verify_boot opts then
          andThen (secs_remaining deadline) (\<lambda>remaining.
          andThen (verify_boot_completed cfg i remaining) (\<lambda>verification.
          ret (response\<lparr>ar_verification := Some verification\<rparr>)))
        else ret response) (\<lambda>response.
     andThen (spawn_exit_watcher i a) (\<lambda>_.
     ret response))))))"

definition start_instance :: "config \<Rightarrow> instance_id \<Rightarrow> start_options \<Rightarrow> action_response det" where
  "start_instance cfg i opts =
     (if so_skip_adb_wait opts \<and> so_verify_boot opts then
        raise (mk_error ''start_instance_invalid_options''
          ''cannot use both skip_adb_wait and verify_boot (boot verification requires ADB)'')
      else
     andThen (registry_contains i) (\<lambda>running.
     if running then
       raise (mk_error ''start_instance_already_running''
         (''instance '' @ show_nat i @ '' already running''))
     else
     andThen (det ''start_instance_metadata'' (metadata cfg i)) (\<lambda>m.
     andThen (det ''start_instance_timestamp'' epoch_secs) (\<lambda>t.
     let m = m\<lparr>im_state := Starting, im_updated_at := t\<rparr>; p = paths cfg i in
     andThen (det ''start_instance_write_metadata'' (write_metadata p m)) (\<lambda>_.
     andThen (det ''start_instance_write_env'' (write_env_file cfg p m)) (\<lambda>_.
     andThen (cache_insert i m) (\<lambda>_.
     andThen (det ''start_instance_preflight'' (preflight_cleanup i)) (\<lambda>_.
     andThen (det ''start_instance_prepare_dirs'' (prepare_host_directories cfg i)) (\<lambda>_.
     andThen (det ''start_instance_ensure_qemu'' (ensure_qemu_datadir cfg)) (\<lambda>_.
     andThen (det ''start_instance_prepare_log'' (prepare_run_log p)) (\<lambda>run_log.
     andThen (attempt (spawn_guest_process cfg i m run_log (\<not> so_disable_webrtc opts)
       (so_track opts))) (\<lambda>spawned.
     case spawned of
       Inl err \<Rightarrow> start_spawn_failed cfg i m err
     | Inr pid \<Rightarrow>
     andThen (new_handle pid) (\<lambda>a.
     andThen (registry_insert i a) (\<lambda>_.
     if so_skip_adb_wait opts then start_skip_adb cfg i a
     else start_wait_adb cfg i a opts))))))))))))))"

definition create_and_start_instance ::
  "config \<Rightarrow> string option \<Rightarrow> start_options \<Rightarrow> action_response det"
where
  "create_and_start_instance cfg purpose opts =
     andThen (det ''create_start_create_failed'' (create_instance cfg purpose)) (\<lambda>created.
     start_instance cfg (is_id (cr_summary created)) opts)"

section \<open>Stopping and holding\<close>

definition state_after_exit :: "exit_info option \<Rightarrow> instance_state" where
  "state_after_exit exit = (case exit of
       Some info \<Rightarrow> if exit_success info then Stopped else Failed
     | None \<Rightarrow> Stopped)"

definition stop_instance :: "config \<Rightarrow> instance_id \<Rightarrow> action_response res" where
  "stop_instance cfg i =
     andThen (metadata cfg i) (\<lambda>m.
     andThen (terminate_guest i (secs 10)) (\<lambda>exit.
     let m = m\<lparr>im_state := state_after_exit exit\<rparr> in
     andThen epoch_secs (\<lambda>t.
     let m = m\<lparr>im_updated_at := t\<rparr>; p = paths cfg i in
     andThen (write_metadata p m) (\<lambda>_.
     andThen (cache_insert i m) (\<lambda>_.
     andThen (cleanup_host_state cfg i) (\<lambda>cleanup.
     andThen
       (if \<not> co_guest_processes_killed cleanup then
          andThen epoch_secs (\<lambda>t.
          let m = m\<lparr>im_state := Failed, im_updated_at := t\<rparr> in
          andThen (write_metadata p m) (\<lambda>_.
          andThen (cache_insert i m) (\<lambda>_.
          ret m)))
        else ret m) (\<lambda>m.
     ret ((plain_action (summary m (adb_host cfg)))
       \<lparr>ar_cleanup := Some (outcome_summary cleanup)\<rparr>))))))))"

definition hold_instance :: "config \<Rightarrow> instance_id \<Rightarrow> action_response res" where
  "hold_instance cfg i =
     andThen (metadata cfg i) (\<lambda>m.
     andThen epoch_secs (\<lambda>t.
     let m = m\<lparr>im_held := True, im_updated_at := t\<rparr> in
     andThen (write_metadata (paths cfg i) m) (\<lambda>_.
     andThen (cache_insert i m) (\<lambda>_.
     ret (plain_action (summary m (adb_host cfg)))))))"

section \<open>Marking and destroying\<close>

definition mark_metadata_state ::
  "config \<Rightarrow> instance_id \<Rightarrow> instance_state \<Rightarrow> instance_metadata res"
where
  "mark_metadata_state cfg i st =
     andThen epoch_secs (\<lambda>t.
     andThen (attempt (metadata cfg i)) (\<lambda>r.
     andThen
       (case r of
          Inr m \<Rightarrow> ret (m\<lparr>im_state := st, im_updated_at := t,
              im_created_at := (if im_created_at m = 0 then t else im_created_at m)\<rparr>)
        | Inl _ \<Rightarrow>
            andThen (adb_port_for cfg i) (\<lambda>port. ret (fresh_metadata cfg i None port st t)))
       (\<lambda>m.
     let p = paths cfg i in
     andThen (io (create_dir_all (ip_root p))) (\<lambda>_.
     andThen (ignoring (create_dir_all (ip_artifacts p))) (\<lambda>_.
     andThen (write_metadata p m) (\<lambda>_.
     andThen (ignoring (write_env_file cfg p m)) (\<lambda>_.
     andThen (cache_insert i m) (\<lambda>_.
     ret m))))))))"

definition remove_instance_artifacts :: "config \<Rightarrow> instance_id \<Rightarrow> unit res" where
  "remove_instance_artifacts cfg i =
     (let p = paths cfg i; env_path = env_file cfg p in
     andThen (reading (path_exists env_path)) (\<lambda>env_there.
     andThen (whenever env_there
       (ctx (''removing env file '' @ show_path env_path) (remove_file env_path))) (\<lambda>_.
     andThen (reading (path_exists (ip_root p))) (\<lambda>root_there.
     whenever root_there
       (ctx (''removing instance dir '' @ show_path (ip_root p)) (remove_dir_all (ip_root p)))))))"

definition finish_destroy :: "config \<Rightarrow> instance_id \<Rightarrow> cleanup_outcome res" where
  "finish_destroy cfg i =
     andThen (cleanup_host_state cfg i) (\<lambda>outcome.
     andThen
       (if co_guest_processes_killed outcome then
          andThen (attempt (remove_instance_artifacts cfg i)) (\<lambda>r.
          case r of Inl _ \<Rightarrow> ret () | Inr _ \<Rightarrow> cache_remove i)
        else
          andThen (mark_metadata_state cfg i Failed) (\<lambda>_. ret ())) (\<lambda>_.
     ret outcome))"

definition destroyed_metadata :: "instance_metadata \<Rightarrow> nat \<Rightarrow> instance_metadata" where
  "destroyed_metadata m t = m\<lparr>im_state := Destroyed, im_updated_at := t,
     im_created_at := (if im_created_at m = 0 then t else im_created_at m)\<rparr>"

definition prepare_destroy :: "config \<Rightarrow> instance_id \<Rightarrow> instance_summary res" where
  "prepare_destroy cfg i =
     (let p = paths cfg i in
     andThen (attempt (metadata cfg i)) (\<lambda>r.
     andThen
       (case r of
          Inr m \<Rightarrow> ret m
        | Inl _ \<Rightarrow>
            andThen (adb_port_for cfg i) (\<lambda>port. ret (fresh_metadata cfg i None port Destroyed 0)))
       (\<lambda>m.
     andThen epoch_secs (\<lambda>t.
     let m = destroyed_metadata m t in
     andThen (reading (path_exists (ip_metadata p))) (\<lambda>there.
     andThen (whenever there (write_metadata p m)) (\<lambda>_.
     andThen (cache_remove i) (\<lambda>_.
     andThen (terminate_guest i (secs 5)) (\<lambda>_.
     andThen (kill_guest_processes i) (\<lambda>gone.
     ret \<lparr>is_id = i, is_adb = None, is_state = Destroyed\<rparr>)))))))))"

text \<open>
  The worker thread of \<open>destroy_instance\<close> and the reply the handler receives from it: \<open>None\<close> when
  the timeout comes first.  The environment decides whether it does (\<open>e_early\<close>); the worker's
  effects then come later, as a started thread.  A worker that panics drops the sender, one that
  blocks never replies.
\<close>

definition destroy_worker :: "config \<Rightarrow> instance_id \<Rightarrow> (sys, cleanup_outcome, anyhow) act" where
  "destroy_worker cfg i = new_manager (finish_destroy cfg i)"

datatype 'a reply = Replied 'a | Dropped | Silent

definition supervise :: "('s, 'a, 'e) act \<Rightarrow> ('s, ('e + 'a) reply, 'f) act" where
  "supervise m = (\<lambda>s. case m s of
       (Ok a, t) \<Rightarrow> (Ok (Replied (Inr a)), t)
     | (Err e, t) \<Rightarrow> (Ok (Replied (Inl e)), t)
     | (Panic, t) \<Rightarrow> (Ok Dropped, t)
     | (Hang, t) \<Rightarrow> (Ok Silent, t))"

definition destroy_timeout :: "instance_id \<Rightarrow> error_detail" where
  "destroy_timeout i = mk_error ''destroy_timeout'' (''destroy '' @ show_nat i @ '' exceeded timeout'')"

definition await_worker ::
  "config \<Rightarrow> instance_id \<Rightarrow> nat option \<Rightarrow> (anyhow + cleanup_outcome) det"
where
  "await_worker cfg i deadline =
     andThen (reading (\<lambda>s. deadline \<noteq> None \<and> e_early (env s) (tick s))) (\<lambda>late.
     if late then
       andThen (spawn_thread (FinishDestroy i)) (\<lambda>_. raise (destroy_timeout i))
     else
       andThen (supervise (destroy_worker cfg i)) (\<lambda>r.
       case r of
         Replied result \<Rightarrow> ret result
       | Dropped \<Rightarrow>
           raise (mk_error ''destroy_recv_failed'' (''destroy '' @ show_nat i @ '' recv failed: ''
             @ (if deadline = None then ''receiving on a closed channel''
                else ''channel is empty and sending half is closed'')))
       | Silent \<Rightarrow> if deadline = None then hang else raise (destroy_timeout i)))"

text \<open>The deadline is computed beside the worker, which has been started before: when its computation
  panics, the worker goes on as a started thread.\<close>

definition deadline_beside_worker :: "instance_id \<Rightarrow> nat option \<Rightarrow> (sys, nat option, 'e) act" where
  "deadline_beside_worker i timeout = (\<lambda>s. case deadline_from_timeout timeout s of
       (Panic, t) \<Rightarrow> andThen (spawn_thread (FinishDestroy i)) (\<lambda>_. panic) t
     | (r, t) \<Rightarrow> (r, t))"

definition destroy_instance ::
  "config \<Rightarrow> instance_id \<Rightarrow> destroy_options \<Rightarrow> action_response det"
where
  "destroy_instance cfg i opts =
     andThen (det ''destroy_prepare_failed'' (prepare_destroy cfg i)) (\<lambda>destroyed.
     andThen (deadline_beside_worker i (do_timeout_secs opts)) (\<lambda>deadline.
     andThen (secs_remaining deadline) (\<lambda>_.
     andThen (await_worker cfg i deadline) (\<lambda>result.
     case result of
       Inl err \<Rightarrow> raise (mk_error ''destroy_cleanup_failed''
         (''cleanup for '' @ show_nat i @ '' failed: '' @ err_chain err))
     | Inr outcome \<Rightarrow>
         if \<not> co_guest_processes_killed outcome then
           raise (mk_error ''destroy_incomplete''
             (''guest processes still running for '' @ show_nat i @ '': ''
                @ debug_ints (co_remaining_pids outcome)))
         else ret ((plain_action destroyed)\<lparr>ar_cleanup := Some (outcome_summary outcome)\<rparr>)))))"

section \<open>Frames\<close>

text \<open>
  A handler for instance \<open>i\<close> touches no file of another instance, and of the registry at most the
  entry of \<open>i\<close>.
\<close>

lemma frame_deadline_from_timeout [frame_intros]: "within (frame A I) (deadline_from_timeout t)"
  unfolding deadline_from_timeout_def by (intro frame_intros)

lemma frame_secs_remaining [frame_intros]: "within (frame A I) (secs_remaining d)"
  unfolding secs_remaining_def by (intro frame_intros)

lemma frame_spawn_exit_watcher [frame_intros]: "within (frame A I) (spawn_exit_watcher i a)"
  unfolding spawn_exit_watcher_def by (intro frame_intros)

lemma frame_start_spawn_failed [frame_intros]:
  "i \<in> I \<Longrightarrow> within (frame (away cfg i) I) (start_spawn_failed cfg i m err)"
  unfolding start_spawn_failed_def Let_def by (intro frame_intros)

lemma frame_start_skip_adb [frame_intros]: "i \<in> I \<Longrightarrow> within (frame (away cfg i) I) (start_skip_adb cfg i a)"
  unfolding start_skip_adb_def Let_def by (intro frame_intros)

lemma frame_start_wait_adb [frame_intros]:
  "apart cfg \<Longrightarrow> i \<in> I \<Longrightarrow> within (frame (away cfg i) I) (start_wait_adb cfg i a opts)"
  unfolding start_wait_adb_def Let_def by (intro frame_intros)

lemma frame_start_instance [frame_intros]:
  "apart cfg \<Longrightarrow> i \<in> I \<Longrightarrow> within (frame (away cfg i) I) (start_instance cfg i opts)"
  unfolding start_instance_def Let_def
  by (intro frame_intros frame_preflight_cleanup [OF outside_away])

lemma frame_stop_instance [frame_intros]:
  "apart cfg \<Longrightarrow> i \<in> I \<Longrightarrow> within (frame (away cfg i) I) (stop_instance cfg i)"
  unfolding stop_instance_def Let_def by (intro frame_intros)

lemma frame_hold_instance [frame_intros]: "i \<in> I \<Longrightarrow> within (frame (away cfg i) I) (hold_instance cfg i)"
  unfolding hold_instance_def Let_def by (intro frame_intros)

lemma frame_mark_metadata_state [frame_intros]:
  assumes "apart cfg" and "i \<in> I" shows "within (frame (away cfg i) I) (mark_metadata_state cfg i st)"
proof -
  have "{q. prefix q (ip_root (paths cfg i))} \<subseteq> away cfg i"
    and "{q. prefix q (ip_artifacts (paths cfg i))} \<subseteq> away cfg i"
    by (rule own_above, simp)+
  then show ?thesis unfolding mark_metadata_state_def Let_def by (intro frame_intros assms)
qed

lemma frame_remove_instance_artifacts [frame_intros]:
  assumes "apart cfg" shows "within (frame (away cfg i) I) (remove_instance_artifacts cfg i)"
proof -
  have "env_file cfg (paths cfg i) \<in> away cfg i"
    by (rule outside_in [OF outside_away assms outside_members(1)]) (simp add: env_file_def)
  moreover have "{q. prefix (ip_root (paths cfg i)) q} \<subseteq> away cfg i"
    by (rule own_below) simp
  ultimately show ?thesis unfolding remove_instance_artifacts_def Let_def by (intro frame_intros)
qed

lemma frame_finish_destroy [frame_intros]:
  "apart cfg \<Longrightarrow> i \<in> I \<Longrightarrow> within (frame (away cfg i) I) (finish_destroy cfg i)"
  unfolding finish_destroy_def by (intro frame_intros)

lemma frame_prepare_destroy [frame_intros]:
  "apart cfg \<Longrightarrow> i \<in> I \<Longrightarrow> within (frame (away cfg i) I) (prepare_destroy cfg i)"
  unfolding prepare_destroy_def Let_def by (intro frame_intros)

lemma frame_supervise [frame_intros]: "within (frame A I) m \<Longrightarrow> within (frame A I) (supervise m)"
  by (rule withinI) (simp add: supervise_def withinD split: prod.split outcome.split)

lemma within_reply:
  "(\<And>x. within R (f x)) \<Longrightarrow> within R d \<Longrightarrow> within R h \<Longrightarrow>
   within R (case r of Replied x \<Rightarrow> f x | Dropped \<Rightarrow> d | Silent \<Rightarrow> h)"
  by (simp split: reply.split)

lemma frame_await_worker [frame_intros]:
  assumes "apart cfg" and "i \<in> I" shows "within (frame (away cfg i) I) (await_worker cfg i d)"
  unfolding await_worker_def destroy_worker_def by (intro frame_intros within_reply assms)

lemma frame_deadline_beside_worker [frame_intros]: "within (frame A I) (deadline_beside_worker i timeout)"
proof (rule withinI)
  fix s :: sys
  obtain r t where d: "(deadline_from_timeout timeout :: (sys, nat option, 'e) act) s = (r, t)" by fastforce
  have f: "frame A I s t" using frame_deadline_from_timeout d by (rule withinD)
  have "within (frame A I) (andThen (spawn_thread (FinishDestroy i)) (\<lambda>_. panic) :: (sys, nat option, 'e) act)"
    by (intro frame_intros)
  then have "frame A I t (snd ((andThen (spawn_thread (FinishDestroy i)) (\<lambda>_. panic) :: (sys, nat option, 'e) act) t))"
    by (simp add: within_def)
  with f d show "frame A I s (snd ((deadline_beside_worker i timeout :: (sys, nat option, 'e) act) s))"
    by (cases r) (auto simp: deadline_beside_worker_def intro: fr.chain)
qed

lemma frame_destroy_instance [frame_intros]:
  "apart cfg \<Longrightarrow> i \<in> I \<Longrightarrow> within (frame (away cfg i) I) (destroy_instance cfg i opts)"
  unfolding destroy_instance_def by (intro frame_intros)

end
