(* ===== verification/Requests.thy ===== *)
theory Requests
  imports Manager
begin

text \<open>
  The remaining handlers of \<open>InstanceManager\<close> (\<open>manager.rs\<close>): listing and pruning, deploying
  images, reading logs, status and description; the end of a guest as the exit watcher handles it;
  and \<open>handle\<close>, the dispatch from requests to responses.
\<close>

section \<open>Walking the instances\<close>

text \<open>The common head of the three loops: the entry's id when it is a directory named by a number.\<close>

definition entry_id :: "config \<Rightarrow> string \<Rightarrow> sys \<Rightarrow> instance_id option" where
  "entry_id cfg name s =
     (if \<not> is_dir (instances_dir cfg @ [name]) s then None
      else if \<not> utf8 name then None
      else parse_u64 name)"

definition list_entry ::
  "config \<Rightarrow> instance_summary list \<Rightarrow> string \<Rightarrow> instance_summary list res"
where
  "list_entry cfg entries name =
     andThen (io plain_call) (\<lambda>_.
     andThen (reading (entry_id cfg name)) (\<lambda>found.
     case found of
       None \<Rightarrow> ret entries
     | Some i \<Rightarrow>
         andThen (attempt (metadata cfg i)) (\<lambda>r.
         case r of
           Inl err \<Rightarrow> ret entries
         | Inr m \<Rightarrow>
             if im_state m = Destroyed then ret entries
             else ret (entries @ [summary m (adb_host cfg)]))))"

text \<open>\<open>read_dir\<close>, with a missing directory as an empty one.\<close>

definition instance_entries :: "config \<Rightarrow> string list option res" where
  "instance_entries cfg =
     andThen (attempt (read_dir (instances_dir cfg))) (\<lambda>r.
     case r of
       Inr names \<Rightarrow> ret (Some names)
     | Inl err \<Rightarrow> if io_kind err = NotFound then ret None else raise (from_io err))"

definition list_instances :: "config \<Rightarrow> instance_summary list res" where
  "list_instances cfg =
     andThen (instance_entries cfg) (\<lambda>entries.
     case entries of
       None \<Rightarrow> ret []
     | Some names \<Rightarrow>
         andThen (foldM (list_entry cfg) [] names) (\<lambda>found.
         ret (sort_key is_id found)))"

definition prune_instance :: "config \<Rightarrow> instance_id \<Rightarrow> bool res" where
  "prune_instance cfg i =
     andThen (prepare_destroy cfg i) (\<lambda>_.
     andThen
       (new_manager
         (andThen (attempt (finish_destroy cfg i)) (\<lambda>r.
          case r of
            Inr outcome \<Rightarrow>
              if co_guest_processes_killed outcome then ret (True, None)
              else
                andThen (attempt (metadata cfg i)) (\<lambda>m.
                ret (False, case m of Inr m \<Rightarrow> Some m | Inl _ \<Rightarrow> None))
          | Inl err \<Rightarrow>
              andThen (ignoring (mark_metadata_state cfg i Failed)) (\<lambda>_.
              raise err)))) (\<lambda>r.
     case r of (gone, left) \<Rightarrow>
     andThen (case left of Some m \<Rightarrow> cache_insert i m | None \<Rightarrow> ret ()) (\<lambda>_.
     ret gone)))"

definition count_pruned :: "nat \<times> nat \<Rightarrow> anyhow + bool \<Rightarrow> nat \<times> nat" where
  "count_pruned c r = (case c of (pruned, retained) \<Rightarrow>
     (case r of Inr True \<Rightarrow> (Suc pruned, retained) | Inr False \<Rightarrow> (pruned, Suc retained)
      | Inl err \<Rightarrow> (pruned, Suc retained)))"

definition prune_expired_entry :: "config \<Rightarrow> nat \<Rightarrow> nat \<times> nat \<Rightarrow> string \<Rightarrow> (nat \<times> nat) res" where
  "prune_expired_entry cfg cutoff c name =
     andThen (io plain_call) (\<lambda>_.
     andThen (reading (entry_id cfg name)) (\<lambda>found.
     case found of
       None \<Rightarrow> ret c
     | Some i \<Rightarrow>
         andThen (attempt (metadata cfg i)) (\<lambda>r.
         case r of
           Inl err \<Rightarrow> ret c
         | Inr m \<Rightarrow>
             if im_state m = Destroyed then ret c
             else if im_held m then ret c
             else if im_updated_at m > cutoff then ret c
             else
               andThen (attempt (prune_instance cfg i)) (\<lambda>r.
               ret (count_pruned c r)))))"

definition prune_expired_instances :: "config \<Rightarrow> nat \<Rightarrow> (nat \<times> nat) res" where
  "prune_expired_instances cfg max_age_secs =
     andThen (instance_entries cfg) (\<lambda>entries.
     case entries of
       None \<Rightarrow> ret (0, 0)
     | Some names \<Rightarrow>
         andThen epoch_secs (\<lambda>t.
         foldM (prune_expired_entry cfg (t - max_age_secs)) (0, 0) names))"

definition prune_all_entry :: "config \<Rightarrow> nat \<times> nat \<Rightarrow> string \<Rightarrow> (nat \<times> nat) res" where
  "prune_all_entry cfg c name =
     andThen (io plain_call) (\<lambda>_.
     andThen (reading (entry_id cfg name)) (\<lambda>found.
     case found of
       None \<Rightarrow> ret c
     | Some i \<Rightarrow>
         andThen (attempt (metadata cfg i)) (\<lambda>r.
         case r of
           Inl err \<Rightarrow> ret c
         | Inr m \<Rightarrow>
             if im_state m = Destroyed then ret c
             else if im_held m then ret (case c of (pruned, retained) \<Rightarrow> (pruned, Suc retained))
             else
               andThen (attempt (prune_instance cfg i)) (\<lambda>r.
               ret (count_pruned c r)))))"

definition prune_all_instances :: "config \<Rightarrow> (nat \<times> nat) res" where
  "prune_all_instances cfg =
     andThen (instance_entries cfg) (\<lambda>entries.
     case entries of
       None \<Rightarrow> ret (0, 0)
     | Some names \<Rightarrow> foldM (prune_all_entry cfg) (0, 0) names)"

section \<open>Deploying\<close>

definition deploy_image ::
  "string \<Rightarrow> path \<Rightarrow> string option \<Rightarrow> path \<Rightarrow> path res"
where
  "deploy_image what dest img current = (case img of
       None \<Rightarrow> ret current
     | Some file \<Rightarrow>
         andThen (ctx (''copy '' @ what @ '' image '' @ file @ '' -> '' @ show_path dest)
           (copy_file (path_of file) dest)) (\<lambda>_. ret dest))"

definition deploy :: "config \<Rightarrow> deploy_request \<Rightarrow> unit res" where
  "deploy cfg rq =
     (let i = dr_id rq; p = paths cfg i in
     andThen (metadata cfg i) (\<lambda>m.
     andThen (deploy_image ''boot'' (ip_artifacts p @ [''boot.img''])
       (dr_boot_image rq) (im_boot_image m)) (\<lambda>boot.
     andThen (deploy_image ''init_boot'' (ip_artifacts p @ [''init_boot.img''])
       (dr_init_boot_image rq) (im_init_boot_image m)) (\<lambda>init_boot.
     andThen epoch_secs (\<lambda>t.
     let m = m\<lparr>im_boot_image := boot, im_init_boot_image := init_boot, im_updated_at := t\<rparr> in
     andThen (write_metadata p m) (\<lambda>_.
     andThen (write_env_file cfg p m) (\<lambda>_.
     cache_insert i m)))))))"

section \<open>Logs, status, description\<close>

definition logs :: "config \<Rightarrow> instance_id \<Rightarrow> nat option \<Rightarrow> logs_options \<Rightarrow> logs_response det" where
  "logs cfg i lns opts =
     (if lo_timeout_secs opts = Some 0 then
        raise (mk_error ''logs_timeout'' ''timeout expired before logs retrieved'')
      else
     andThen (attempt (metadata cfg i)) (\<lambda>r.
     case r of
       Inl _ \<Rightarrow> raise (mk_error ''instance_not_found'' (''Instance '' @ show_nat i
         @ '' does not exist or metadata cannot be read''))
     | Inr _ \<Rightarrow>
     andThen (attempt (guest_log_tail cfg i (case lns of Some n \<Rightarrow> n | None \<Rightarrow> journal_lines cfg)))
       (\<lambda>tail.
     case tail of
       Inl err \<Rightarrow>
         andThen (reading (path_exists (ip_run_log (paths cfg i)))) (\<lambda>there.
         if \<not> there then
           raise (mk_error ''logs_not_available'' (''Run log does not exist yet for instance ''
             @ show_nat i @ ''. The instance may not have been started.''))
         else
           raise (mk_error ''logs_fetch_failed'' (''Failed to read logs for instance ''
             @ show_nat i @ '': '' @ err_string err)))
     | Inr journal \<Rightarrow>
         ret \<lparr>lr_journal = journal,
           lr_console_log_path = Some (''/var/lib/cuttlefish/instances/'' @ show_nat i
             @ ''/instances/cvd-'' @ show_nat i @ ''/console_log'')\<rparr>)))"

definition status :: "config \<Rightarrow> instance_id \<Rightarrow> action_response res" where
  "status cfg i =
     andThen (metadata cfg i) (\<lambda>m. ret (plain_action (summary m (adb_host cfg))))"

definition describe :: "config \<Rightarrow> instance_id \<Rightarrow> nat option \<Rightarrow> action_response res" where
  "describe cfg i run_log_lines =
     andThen (metadata cfg i) (\<lambda>m.
     andThen (guest_log_tail cfg i (case run_log_lines of Some n \<Rightarrow> n | None \<Rightarrow> 50)) (\<lambda>tail.
     let snap = ip_root (paths cfg i) @ [''console_snapshot.log''] in
     andThen (reading (path_exists snap)) (\<lambda>there.
     ret ((plain_action (summary m (adb_host cfg)))
       \<lparr>ar_run_log_tail := tail,
        ar_console_snapshot_path := (if there then Some (show_path snap) else None)\<rparr>))))"

section \<open>The end of a guest\<close>

definition handle_guest_exit :: "config \<Rightarrow> instance_id \<Rightarrow> exit_info \<Rightarrow> unit res" where
  "handle_guest_exit cfg i exit =
     andThen (attempt (metadata cfg i)) (\<lambda>r.
     case r of
       Inl err \<Rightarrow> ret ()
     | Inr m \<Rightarrow>
         let new_state = (if exit_success exit then Stopped else Failed); p = paths cfg i in
         andThen epoch_secs (\<lambda>t.
         let m = m\<lparr>im_state := new_state, im_updated_at := t\<rparr> in
         andThen (whenever (new_state = Failed)
           (ignoring (snapshot_console_on_failure cfg i p))) (\<lambda>_.
         andThen (write_metadata p m) (\<lambda>_.
         andThen (cache_insert i m) (\<lambda>_.
         andThen (cleanup_host_state cfg i) (\<lambda>_.
         ret ()))))))"

text \<open>The body of the thread \<open>spawn_exit_watcher\<close> starts.\<close>

definition exit_watcher :: "config \<Rightarrow> instance_id \<Rightarrow> nat \<Rightarrow> (sys, unit, 'e) act" where
  "exit_watcher cfg i a =
     andThen (attempt (wait a)) (\<lambda>r.
     case r of
       Inr exit \<Rightarrow>
         andThen (remove_if_handle i a) (\<lambda>_.
         ignoring (new_manager (handle_guest_exit cfg i exit)))
     | Inl err \<Rightarrow> andThen (remove_if_handle i a) (\<lambda>_. ret ()))"

section \<open>Requests and responses\<close>

definition action_ok :: "action_response \<Rightarrow> response" where
  "action_ok x = response_ok\<lparr>r_action := Some x\<rparr>"

text \<open>A handler whose error detail is part of the response.\<close>

definition respond :: "('a \<Rightarrow> response) \<Rightarrow> 'a det \<Rightarrow> response res" where
  "respond f m =
     andThen (attempt m) (\<lambda>r.
     ret (case r of Inr x \<Rightarrow> f x | Inl detail \<Rightarrow> error_with_detail detail))"

definition prune_message :: "string \<Rightarrow> nat \<times> nat \<Rightarrow> string" where
  "prune_message what c = (case c of (pruned, retained) \<Rightarrow>
     if retained > 0 then
       ''pruned '' @ show_nat pruned @ what @ ''; '' @ show_nat retained @ '' still running''
     else ''pruned '' @ show_nat pruned @ what)"

fun handle :: "config \<Rightarrow> request \<Rightarrow> response res" where
  "handle cfg (CreateInstance purpose) =
     andThen (create_instance cfg purpose) (\<lambda>x. ret (response_ok\<lparr>r_create := Some x\<rparr>))"
| "handle cfg (StartInstance i opts) = respond action_ok (start_instance cfg i opts)"
| "handle cfg (CreateStartInstance purpose opts) =
     respond action_ok (create_and_start_instance cfg purpose opts)"
| "handle cfg (StopInstance i) = andThen (stop_instance cfg i) (\<lambda>x. ret (action_ok x))"
| "handle cfg (HoldInstance i) = andThen (hold_instance cfg i) (\<lambda>x. ret (action_ok x))"
| "handle cfg (DestroyInstance i opts) = respond action_ok (destroy_instance cfg i opts)"
| "handle cfg (Deploy rq) =
     andThen (deploy cfg rq) (\<lambda>_. ret (with_message response_ok ''deploy updated''))"
| "handle cfg (WaitForAdb i timeout) = respond action_ok (wait_for_adb cfg i timeout)"
| "handle cfg (Logs i lns opts) =
     respond (\<lambda>x. response_ok\<lparr>r_logs := Some x\<rparr>) (logs cfg i lns opts)"
| "handle cfg (Status i) = andThen (status cfg i) (\<lambda>x. ret (action_ok x))"
| "handle cfg (Describe i lns) = andThen (describe cfg i lns) (\<lambda>x. ret (action_ok x))"
| "handle cfg ListInstances =
     andThen (list_instances cfg) (\<lambda>xs. ret (response_ok\<lparr>r_instances := Some xs\<rparr>))"
| "handle cfg (PruneExpired max_age) =
     andThen (prune_expired_instances cfg max_age) (\<lambda>c.
     ret (with_message response_ok (prune_message '' expired instances'' c)))"
| "handle cfg PruneAll =
     andThen (prune_all_instances cfg) (\<lambda>c.
     ret (with_message response_ok (prune_message '' instances'' c)))"

section \<open>Frames\<close>

lemma frame_deploy [frame_intros]:
  assumes "apart cfg" and "i \<in> I" and "dr_id rq = i"
  shows "within (frame (away cfg i) I) (deploy cfg rq)"
proof -
  have "ip_artifacts (paths cfg i) @ [x] \<in> away cfg i" for x by (rule own_in) simp
  then show ?thesis
    unfolding deploy_def Let_def deploy_image_def assms(3) by (intro frame_intros assms)
qed

lemma frame_logs [frame_intros]: "within (frame A I) (logs cfg i n opts)"
  unfolding logs_def by (intro frame_intros)

lemma frame_status [frame_intros]: "within (frame A I) (status cfg i)"
  unfolding status_def by (intro frame_intros)

lemma frame_describe [frame_intros]: "within (frame A I) (describe cfg i n)"
  unfolding describe_def Let_def by (intro frame_intros)

lemma frame_handle_guest_exit [frame_intros]:
  "apart cfg \<Longrightarrow> i \<in> I \<Longrightarrow> within (frame (away cfg i) I) (handle_guest_exit cfg i x)"
  unfolding handle_guest_exit_def Let_def by (intro frame_intros)

lemma frame_exit_watcher [frame_intros]:
  "apart cfg \<Longrightarrow> i \<in> I \<Longrightarrow> within (frame (away cfg i) I) (exit_watcher cfg i a)"
  unfolding exit_watcher_def by (intro frame_intros)

lemma frame_instance_entries [frame_intros]: "within (frame A I) (instance_entries cfg)"
  unfolding instance_entries_def by (intro frame_intros)

lemma frame_list_instances [frame_intros]: "within (frame A I) (list_instances cfg)"
  unfolding list_instances_def list_entry_def by (intro frame_intros)

lemma frame_prune_instance [frame_intros]:
  "apart cfg \<Longrightarrow> i \<in> I \<Longrightarrow> within (frame (away cfg i) I) (prune_instance cfg i)"
  unfolding prune_instance_def by (intro frame_intros)

lemma frame_respond [frame_intros]: "within (frame A I) m \<Longrightarrow> within (frame A I) (respond f m)"
  unfolding respond_def by (intro frame_intros)

end
