(* ===== verification/Allocation.thy ===== *)
theory Allocation
  imports Store
begin

text \<open>
  The allocation of instance ids (\<open>allocate_id\<close>): the search visits every slot from 1 to 99 once,
  starting where the last allocation ended, takes the first free one, and fails exactly when all
  are taken.
\<close>

section \<open>The search\<close>

definition clamp :: "nat \<Rightarrow> nat" where
  "clamp c = (if c = 0 \<or> c > 99 then 1 else c)"

text \<open>The \<open>k\<close>-th slot the search visits from candidate \<open>c\<close>.\<close>

definition slot :: "nat \<Rightarrow> nat \<Rightarrow> nat" where
  "slot c k = (clamp c - 1 + k) mod 99 + 1"

lemma clamp_range: "1 \<le> clamp c" "clamp c \<le> 99"
  by (auto simp: clamp_def)

lemma slot_range: "1 \<le> slot c k" "slot c k \<le> 99"
  using mod_less_divisor [of 99 "clamp c - 1 + k"] by (auto simp: slot_def)

lemma slot_0: "slot c 0 = clamp c"
  using clamp_range [of c] by (simp add: slot_def)

lemma clamp_next: "clamp (Suc (clamp c mod 99)) = Suc (clamp c mod 99)"
  using mod_less_divisor [of 99 "clamp c"] by (auto simp: clamp_def)

lemma slot_Suc: "slot (Suc (clamp c mod 99)) k = slot c (Suc k)"
proof -
  have "slot (Suc (clamp c mod 99)) k = (clamp c mod 99 + k) mod 99 + 1"
    unfolding slot_def clamp_next by simp
  also have "\<dots> = (clamp c + k) mod 99 + 1" by (simp add: mod_add_left_eq)
  also have "\<dots> = slot c (Suc k)" using clamp_range(1) [of c] by (simp add: slot_def)
  finally show ?thesis .
qed

lemma pick_slot_Suc:
  "pick_slot (Suc n) free c =
     (if free (clamp c) then (Some (clamp c), Suc (clamp c mod 99))
      else pick_slot n free (Suc (clamp c mod 99)))"
  by (simp add: clamp_def Let_def)

lemma pick_slot_None:
  "fst (pick_slot n free c) = None \<longleftrightarrow> (\<forall>k < n. \<not> free (slot c k))"
proof (induction n arbitrary: c)
  case 0
  then show ?case by simp
next
  case (Suc n)
  have "(\<forall>k < Suc n. \<not> free (slot c k)) \<longleftrightarrow>
      \<not> free (clamp c) \<and> (\<forall>k < n. \<not> free (slot c (Suc k)))"
    by (auto simp: slot_0 less_Suc_eq_0_disj)
  then show ?case
    using Suc.IH [of "Suc (clamp c mod 99)"] by (auto simp: pick_slot_Suc slot_Suc simp del: pick_slot.simps)
qed

lemma pick_slot_Some:
  assumes "pick_slot n free c = (Some i, d)"
  shows "\<exists>k < n. i = slot c k \<and> free i \<and> (\<forall>l < k. \<not> free (slot c l)) \<and> d = Suc (i mod 99)"
  using assms
proof (induction n arbitrary: c)
  case 0
  then show ?case by simp
next
  case (Suc n)
  show ?case
  proof (cases "free (clamp c)")
    case True
    with Suc.prems have "i = slot c 0 \<and> free i \<and> d = Suc (i mod 99)"
      by (auto simp: pick_slot_Suc slot_0 simp del: pick_slot.simps)
    then show ?thesis by auto
  next
    case False
    with Suc.prems have "pick_slot n free (Suc (clamp c mod 99)) = (Some i, d)"
      by (simp add: pick_slot_Suc del: pick_slot.simps)
    from Suc.IH [OF this] obtain k where
      "k < n" "i = slot c (Suc k)" "free i" "\<forall>l < k. \<not> free (slot c (Suc l))" "d = Suc (i mod 99)"
      by (auto simp: slot_Suc)
    moreover have "\<forall>l < Suc k. \<not> free (slot c l)"
      using calculation(4) False by (auto simp: less_Suc_eq_0_disj slot_0)
    ultimately show ?thesis by (intro exI [of _ "Suc k"]) auto
  qed
qed

text \<open>Every slot is visited within 99 candidates.\<close>

lemma slot_onto:
  assumes "1 \<le> i" and "i \<le> 99"
  shows "\<exists>k < 99. slot c k = i"
proof -
  let ?a = "clamp c - 1" and ?k = "(i - 1 + 99 - (clamp c - 1)) mod 99"
  have a: "?a < 99" using clamp_range [of c] by simp
  have "(?a + ?k) mod 99 = (?a + (i - 1 + 99 - ?a)) mod 99" by (simp add: mod_add_right_eq)
  also have "?a + (i - 1 + 99 - ?a) = i - 1 + 99" using a by simp
  also have "(i - 1 + 99) mod 99 = (i - 1) mod 99" by (rule mod_add_self2)
  also have "\<dots> = i - 1" using assms by (intro mod_less) simp
  finally have "slot c ?k = i" using assms by (simp add: slot_def)
  moreover have "?k < 99" by simp
  ultimately show ?thesis by blast
qed

lemma pick_slot_full:
  "fst (pick_slot 99 free c) = None \<longleftrightarrow> (\<forall>i. 1 \<le> i \<and> i \<le> 99 \<longrightarrow> \<not> free i)"
  unfolding pick_slot_None using slot_onto [of _ c] slot_range [of c] by blast

section \<open>The allocation\<close>

lemma allocate_id_Ok:
  assumes "allocate_id cfg s = (Ok i, t)"
  shows "\<exists>u buf d. frame (control_area cfg) {} s u \<and> frame (control_area cfg) {} u t
    \<and> pick_slot 99 (slot_free cfg u) (first_candidate buf) = (Some i, d)"
proof -
  let ?p = "id_alloc_file cfg"
  have area: "{q. prefix q (state_dir cfg @ [''control''])} \<subseteq> control_area cfg" "?p \<in> control_area cfg"
    by (auto simp: control_area_def id_alloc_file_def intro: prefix_order.order_trans)
  have dir: "within (frame (control_area cfg) {}) (io (create_dir_all (state_dir cfg @ [''control''])))"
    and rw: "within (frame (control_area cfg) {}) (io (open_rw ?p))"
    and len: "within (frame (control_area cfg) {}) (io (set_len0 ?p))"
    and app: "within (frame (control_area cfg) {}) (io (append_file ?p x))"
    and pl: "within (frame (control_area cfg) {}) (io plain_call)"
    and rd: "within (frame (control_area cfg) {}) (io (read_to_string ?p))" for x
    by (intro frame_intros area)+
  obtain s1 s2 s3 s4 buf d s5 s6 s7 s8 where
    "io (create_dir_all (state_dir cfg @ [''control''])) s = (Ok (), s1)"
    "io (open_rw ?p) s1 = (Ok (), s2)" "io plain_call s2 = (Ok (), s3)"
    "io (read_to_string ?p) s3 = (Ok buf, s4)"
    and pick: "pick_slot 99 (slot_free cfg s4) (first_candidate buf) = (Some i, d)"
    and "io (set_len0 ?p) s4 = (Ok (), s5)" "io plain_call s5 = (Ok (), s6)"
    "io (append_file ?p (show_nat d)) s6 = (Ok (), s7)" "io plain_call s7 = (Ok (), s8)"
    "io plain_call s8 = (Ok (), t)"
    using assms unfolding allocate_id_def Let_def
    by (auto elim!: andThen_Ok_cases split: prod.splits option.splits)
  then have "frame (control_area cfg) {} s s4" and "frame (control_area cfg) {} s4 t"
    using withinD [OF dir] withinD [OF rw] withinD [OF pl] withinD [OF rd] withinD [OF len]
      withinD [OF app] by (meson fr.chain)+
  with pick show ?thesis by blast
qed

text \<open>The search looks at paths the allocation and other processes leave alone.\<close>

lemma slot_free_frame:
  assumes "frame (control_area cfg) I s t" and "undisturbed cfg (env s)"
  shows "slot_free cfg t i = slot_free cfg s i"
proof -
  have "p \<notin> control_area cfg" if "p \<in> tree cfg i" for p
    using that control_area_outside by (auto simp: outside_def)
  moreover have "ip_metadata (paths cfg i) \<in> tree cfg i" and "ip_root (paths cfg i) \<in> tree cfg i"
    by (simp_all add: tree_def)
  ultimately show ?thesis
    using assms undisturbed_simps [OF assms(2)] frame_fs [OF assms(1)]
    by (simp add: slot_free_def path_exists_def del: paths_simps)
qed

section \<open>Undisturbed machines\<close>

text \<open>The control directory can be created and the counter file, if it is there, is a text.\<close>

definition control_ok :: "config \<Rightarrow> sys \<Rightarrow> bool" where
  "control_ok cfg s \<longleftrightarrow>
     (\<forall>q \<in> set (prefixes (state_dir cfg @ [''control''])). \<not> is_file (fs s q))
     \<and> (case fs s (id_alloc_file cfg) of
          None \<Rightarrow> True | Some Dir \<Rightarrow> False | Some (File t) \<Rightarrow> utf8 t)"

definition counter_text :: "config \<Rightarrow> sys \<Rightarrow> string" where
  "counter_text cfg s = (case fs s (id_alloc_file cfg) of Some (File t) \<Rightarrow> t | _ \<Rightarrow> [])"

lemma calm_set_len0:
  "calm (env s) \<Longrightarrow> fs s p = Some (File u) \<Longrightarrow> set_len0 p s = (Ok (), put_file p [] (step s))"
  by (simp add: set_len0_def calm_syscall)

lemma calm_open_rw_new:
  "calm (env s) \<Longrightarrow> p \<noteq> [] \<Longrightarrow> fs s (butlast p) = Some Dir \<Longrightarrow> fs s p = None \<Longrightarrow>
   open_rw p s = (Ok (), put_file p [] (step s))"
  by (simp add: open_rw_def calm_syscall open_error_def)

lemma calm_open_rw_there:
  "calm (env s) \<Longrightarrow> p \<noteq> [] \<Longrightarrow> fs s (butlast p) = Some Dir \<Longrightarrow> fs s p = Some (File u) \<Longrightarrow>
   open_rw p s = (Ok (), step s)"
  by (simp add: open_rw_def calm_syscall open_error_def)

text \<open>The counter file, opened or created, holds the old counter text; no slot is affected.\<close>

lemma calm_open_counter:
  assumes "calm (env s)" and "control_ok cfg s"
  shows "\<exists>t. andThen (io (create_dir_all (state_dir cfg @ [''control'']))) (\<lambda>_.
      io (open_rw (id_alloc_file cfg))) s = (Ok (), t)
    \<and> env t = env s \<and> fs t (id_alloc_file cfg) = Some (File (counter_text cfg s))
    \<and> utf8 (counter_text cfg s)"
proof -
  let ?d = "state_dir cfg @ [''control'']" and ?p = "id_alloc_file cfg"
  let ?s1 = "(step s)\<lparr>fs := mkdirs (\<lambda>_. True) ?d (fs s)\<rparr>"
  have p: "?p \<noteq> []" "butlast ?p = ?d" "\<not> prefix ?p ?d"
    by (auto simp: id_alloc_file_def butlast_append prefix_def)
  have mk: "create_dir_all ?d s = (Ok (), ?s1)"
    using assms by (intro calm_create_dir_all) (auto simp: control_ok_def)
  have dir: "fs ?s1 ?d = Some Dir" using assms(2) by (auto simp: control_ok_def intro!: mkdirs_there)
  have old: "fs ?s1 ?p = fs s ?p" using p(3) by (simp add: mkdirs_below)
  have calm1: "calm (env ?s1)" using assms(1) by simp
  show ?thesis
  proof (cases "fs s ?p")
    case None
    with calm1 p dir old have "open_rw ?p ?s1 = (Ok (), put_file ?p [] (step ?s1))"
      by (intro calm_open_rw_new) simp_all
    with mk None show ?thesis by (simp add: calm_io counter_text_def)
  next
    case (Some n)
    with assms(2) obtain u where u: "n = File u" "utf8 u"
      by (cases n) (auto simp: control_ok_def)
    with calm1 p dir old Some have "open_rw ?p ?s1 = (Ok (), step ?s1)"
      by (intro calm_open_rw_there) simp_all
    with mk Some u old calm1 show ?thesis by (simp add: calm_io counter_text_def)
  qed
qed

lemma allocate_id_calm:
  assumes calm: "calm (env s)" and ok: "control_ok cfg s"
  shows "case pick_slot 99 (slot_free cfg s) (first_candidate (counter_text cfg s)) of
      (None, _) \<Rightarrow> \<exists>t. allocate_id cfg s = (Err (Msg ''no available instance slots (1-99)''), t)
    | (Some i, d) \<Rightarrow> \<exists>t. allocate_id cfg s = (Ok i, t)
        \<and> fs t (id_alloc_file cfg) = Some (File (show_nat d))"
proof -
  let ?p = "id_alloc_file cfg" and ?c = "counter_text cfg s"
  obtain u where u: "andThen (io (create_dir_all (state_dir cfg @ [''control'']))) (\<lambda>_.
      io (open_rw ?p)) s = (Ok (), u)" "env u = env s" "fs u ?p = Some (File ?c)" "utf8 ?c"
    using calm_open_counter [OF assms] by blast
  then obtain s1 where s1: "io (create_dir_all (state_dir cfg @ [''control''])) s = (Ok (), s1)"
    "io (open_rw ?p) s1 = (Ok (), u)"
    by (auto elim: andThen_Ok_cases)
  have "within (frame (control_area cfg) {}) (andThen (io (create_dir_all (state_dir cfg @ [''control''])))
      (\<lambda>_. io (open_rw ?p)))"
    by (intro frame_intros)
      (auto simp: control_area_def id_alloc_file_def intro: prefix_order.order_trans)
  then have "frame (control_area cfg) {} s u" using u(1) by (rule withinD)
  then have "slot_free cfg u = slot_free cfg s"
    using slot_free_frame [OF _ calm_undisturbed [OF calm]] by blast
  then have free: "slot_free cfg (step (step u)) = slot_free cfg s"
    using calm u(2) by (auto simp: slot_free_def path_exists_def fun_eq_iff simp del: paths_simps)
  have calmu: "calm (env u)" "calm (env (step u))" using calm u(2) by simp_all
  have tail: "io (set_len0 ?p) (step (step u)) = (Ok (), put_file ?p [] (step (step (step u))))"
    using calmu u(3) by (simp add: calm_io calm_set_len0)
  have app: "append_file ?p x (step (put_file ?p [] v)) = (Ok (), put_file ?p x (step (step (put_file ?p [] v))))"
    if "calm (env v)" for x v using that calm_append_file [of "step (put_file ?p [] v)" ?p "[]" x] by simp
  show ?thesis
    using s1 calmu u(3,4) free tail
    by (auto simp: allocate_id_def Let_def calm_io calm_plain_call calm_read_to_string app
        split: prod.split option.split)
qed

text \<open>A machine with an empty disk.\<close>

definition blank :: sys where "blank = machine quiet (\<lambda>_. None)"

lemma blank_simps [simp]: "env blank = quiet" "fs blank p = None" "cache blank i = None"
    "registry blank i = None"
  by (simp_all add: blank_def)

lemma blank_control: "control_ok cfg blank" "counter_text cfg blank = []" "slot_free cfg blank i"
  by (simp_all add: control_ok_def counter_text_def slot_free_def path_exists_def is_file_def)

lemma blank_allocates: "\<exists>t. allocate_id cfg blank = (Ok 1, t)"
proof -
  have "first_candidate [] = 1" by code_simp
  then have "pick_slot (Suc 98) (slot_free cfg blank) (first_candidate []) = (Some 1, 2)"
    unfolding pick_slot_Suc by (simp add: clamp_def blank_control)
  then have "pick_slot 99 (slot_free cfg blank) (first_candidate []) = (Some 1, 2)"
    by (simp del: pick_slot.simps)
  then show ?thesis
    using allocate_id_calm [of blank cfg] by (auto simp: blank_control)
qed

section \<open>Properties\<close>

text \<open>C11: An allocated id is between 1 and 99 and its slot was free: no metadata file and no
  directory of that instance was there, and none is there afterwards.\<close>

theorem allocate_id_sound:
  assumes "undisturbed cfg (env s)" and "allocate_id cfg s = (Ok i, t)"
  shows "1 \<le> i \<and> i \<le> 99 \<and> slot_free cfg s i \<and> slot_free cfg t i"
proof -
  obtain u buf d where u: "frame (control_area cfg) {} s u" "frame (control_area cfg) {} u t"
    and "pick_slot 99 (slot_free cfg u) (first_candidate buf) = (Some i, d)"
    using allocate_id_Ok [OF assms(2)] by blast
  then obtain k where "i = slot (first_candidate buf) k" and "slot_free cfg u i"
    using pick_slot_Some by blast
  moreover have "slot_free cfg u i = slot_free cfg s i" "slot_free cfg t i = slot_free cfg s i"
    using slot_free_frame [OF u(1) assms(1)] slot_free_frame [OF fr.chain [OF u] assms(1)]
    by simp_all
  ultimately show ?thesis using slot_range by simp
qed

lemma allocate_id_sound_witness: "1 \<le> (1::nat) \<and> slot_free default_config blank 1"
proof -
  obtain t where "allocate_id default_config blank = (Ok 1, t)" using blank_allocates by blast
  moreover have "undisturbed default_config (env blank)" by (simp add: calm_undisturbed)
  ultimately show ?thesis using allocate_id_sound by blast
qed

text \<open>C12: On a machine where no call fails, the allocation succeeds exactly when one of the
  slots 1 to 99 is free; it does not give up early and does not search outside.\<close>

theorem allocate_id_complete:
  assumes "calm (env s)" and "control_ok cfg s"
  shows "(\<exists>i t. allocate_id cfg s = (Ok i, t)) \<longleftrightarrow> (\<exists>i. 1 \<le> i \<and> i \<le> 99 \<and> slot_free cfg s i)"
proof -
  let ?c = "first_candidate (counter_text cfg s)"
  have "(\<exists>i t. allocate_id cfg s = (Ok i, t)) \<longleftrightarrow> fst (pick_slot 99 (slot_free cfg s) ?c) \<noteq> None"
    using allocate_id_calm [OF assms]
    by (cases "pick_slot 99 (slot_free cfg s) ?c"; cases "fst (pick_slot 99 (slot_free cfg s) ?c)") auto
  then show ?thesis by (auto simp: pick_slot_full)
qed

lemma allocate_id_complete_witness: "\<exists>i t. allocate_id default_config blank = (Ok i, t)"
proof -
  have "calm (env blank)" by simp
  then have "(\<exists>i t. allocate_id default_config blank = (Ok i, t)) \<longleftrightarrow>
      (\<exists>i. 1 \<le> i \<and> i \<le> 99 \<and> slot_free default_config blank i)"
    using blank_control(1) by (rule allocate_id_complete)
  then show ?thesis by (auto simp: blank_control intro!: exI [of _ 1])
qed

text \<open>C13: The allocation is round robin: it takes the first free slot at or after the counter,
  going round from 99 to 1, and leaves the counter at the slot after the one it took.\<close>

theorem allocate_id_round_robin:
  assumes "calm (env s)" and "control_ok cfg s" and "allocate_id cfg s = (Ok i, t)"
  shows "\<exists>k < 99. i = slot (first_candidate (counter_text cfg s)) k
      \<and> (\<forall>l < k. \<not> slot_free cfg s (slot (first_candidate (counter_text cfg s)) l))
    \<and> fs t (id_alloc_file cfg) = Some (File (show_nat (Suc (i mod 99))))"
proof -
  let ?c = "first_candidate (counter_text cfg s)"
  obtain d where p: "pick_slot 99 (slot_free cfg s) ?c = (Some i, d)"
    and "fs t (id_alloc_file cfg) = Some (File (show_nat d))"
    using allocate_id_calm [OF assms(1,2)] assms(3)
    by (cases "pick_slot 99 (slot_free cfg s) ?c"; cases "fst (pick_slot 99 (slot_free cfg s) ?c)") auto
  then show ?thesis using pick_slot_Some [OF p] by blast
qed

lemma allocate_id_round_robin_witness:
  "\<exists>t. allocate_id default_config blank = (Ok 1, t)
    \<and> fs t (id_alloc_file default_config) = Some (File ''2'')"
proof -
  obtain t where t: "allocate_id default_config blank = (Ok 1, t)" using blank_allocates by blast
  have "calm (env blank)" by simp
  from allocate_id_round_robin [OF this blank_control(1) t]
  have "fs t (id_alloc_file default_config) = Some (File (show_nat (Suc (1 mod 99))))" by blast
  moreover have "show_nat (Suc (1 mod 99)) = ''2''" by code_simp
  ultimately show ?thesis using t by auto
qed

end
