(* ===== verification/Typing.thy ===== *)
theory Typing
  imports Requests Allocation
begin

text \<open>
  The value ranges of the messages.  A state is sane when the metadata in the cache are within
  their types and the clock is; every handler, given a request within its types, keeps the state
  sane and answers with a response within its types, so that the response survives the wire.

  \<open>keeps P Q m\<close>: from a state with \<open>P\<close>, \<open>m\<close> leads to a state with \<open>P\<close>, and what it returns with
  \<open>Ok\<close> satisfies \<open>Q\<close>.
\<close>

section \<open>Invariants and results\<close>

definition keeps :: "('s \<Rightarrow> bool) \<Rightarrow> ('a \<Rightarrow> bool) \<Rightarrow> ('s, 'a, 'e) act \<Rightarrow> bool" where
  "keeps P Q m \<longleftrightarrow> (\<forall>s r t. P s \<longrightarrow> m s = (r, t) \<longrightarrow> P t \<and> (\<forall>a. r = Ok a \<longrightarrow> Q a))"

lemma keepsI:
  "(\<And>s r t. P s \<Longrightarrow> m s = (r, t) \<Longrightarrow> P t) \<Longrightarrow> (\<And>s a t. P s \<Longrightarrow> m s = (Ok a, t) \<Longrightarrow> Q a)
   \<Longrightarrow> keeps P Q m"
  by (simp add: keeps_def)

lemma keeps_state: "keeps P Q m \<Longrightarrow> P s \<Longrightarrow> m s = (r, t) \<Longrightarrow> P t"
  by (simp add: keeps_def)

lemma keeps_result: "keeps P Q m \<Longrightarrow> P s \<Longrightarrow> m s = (Ok a, t) \<Longrightarrow> Q a"
  by (simp add: keeps_def)

lemma keeps_weaken: "keeps P Q m \<Longrightarrow> (\<And>a. Q a \<Longrightarrow> R a) \<Longrightarrow> keeps P R m"
  unfolding keeps_def by blast

lemma keeps_any: "keeps P Q m \<Longrightarrow> keeps P (\<lambda>_. True) m"
  by (erule keeps_weaken) simp

lemma keeps_ret: "Q a \<Longrightarrow> keeps P Q (ret a)" by (simp add: keeps_def)
lemma keeps_raise: "keeps P Q (raise e)" by (simp add: keeps_def)
lemma keeps_hang: "keeps P Q hang" by (simp add: keeps_def)
lemma keeps_reading: "keeps P (\<lambda>_. True) (reading f)" by (simp add: keeps_def)

lemma keeps_andThen:
  assumes m: "keeps P R m" and f: "\<And>a. R a \<Longrightarrow> keeps P Q (f a)"
  shows "keeps P Q (andThen m f)"
  unfolding keeps_def
proof (intro allI impI)
  fix s r t
  assume s: "P s" and run: "andThen m f s = (r, t)"
  obtain r' u where mu: "m s = (r', u)" by (cases "m s")
  have u: "P u" by (rule keeps_state [OF m s mu])
  show "P t \<and> (\<forall>a. r = Ok a \<longrightarrow> Q a)"
  proof (cases r')
    case (Ok a)
    have "R a" using keeps_result [OF m s] mu Ok by blast
    then have "keeps P Q (f a)" by (rule f)
    moreover have "f a u = (r, t)" using run mu Ok by simp
    ultimately show ?thesis using u unfolding keeps_def by blast
  qed (use run mu u in auto)
qed

lemma keeps_then: "keeps P (\<lambda>_. True) m \<Longrightarrow> (\<And>a. keeps P Q (f a)) \<Longrightarrow> keeps P Q (andThen m f)"
  by (rule keeps_andThen)

definition right_all :: "('a \<Rightarrow> bool) \<Rightarrow> 'e + 'a \<Rightarrow> bool" where
  "right_all Q r \<longleftrightarrow> (case r of Inl e \<Rightarrow> True | Inr a \<Rightarrow> Q a)"

lemma right_all_simps [simp]: "right_all Q (Inr a) = Q a" "right_all Q (Inl e)"
  by (simp_all add: right_all_def)

lemma keeps_attempt: "keeps P Q m \<Longrightarrow> keeps P (right_all Q) (attempt m)"
  unfolding keeps_def attempt_def by (fastforce split: prod.splits outcome.splits)

lemma keeps_mapErr: "keeps P Q m \<Longrightarrow> keeps P Q (mapErr g m)"
  unfolding keeps_def mapErr_def by (fastforce split: prod.splits outcome.splits)

lemma keeps_ignoring: "keeps P Q m \<Longrightarrow> keeps P (\<lambda>_. True) (ignoring m)"
  unfolding ignoring_def by (rule keeps_then [OF keeps_any [OF keeps_attempt]]) (simp_all add: keeps_ret)

lemma keeps_whenever: "keeps P (\<lambda>_. True) m \<Longrightarrow> keeps P (\<lambda>_. True) (whenever b m)"
  by (simp add: whenever_def keeps_ret)

lemma keeps_if: "(b \<Longrightarrow> keeps P Q m) \<Longrightarrow> (\<not> b \<Longrightarrow> keeps P Q n) \<Longrightarrow> keeps P Q (if b then m else n)"
  by simp

lemma keeps_option:
  "(x = None \<Longrightarrow> keeps P Q m) \<Longrightarrow> (\<And>y. x = Some y \<Longrightarrow> keeps P Q (f y)) \<Longrightarrow>
   keeps P Q (case x of None \<Rightarrow> m | Some y \<Rightarrow> f y)"
  by (simp split: option.split)

lemma keeps_sum:
  "(\<And>e. keeps P Q (f e)) \<Longrightarrow> (\<And>y. x = Inr y \<Longrightarrow> keeps P Q (g y)) \<Longrightarrow>
   keeps P Q (case x of Inl e \<Rightarrow> f e | Inr y \<Rightarrow> g y)"
  by (simp split: sum.split)

lemma keeps_prod:
  "(\<And>y z. x = (y, z) \<Longrightarrow> keeps P Q (f y z)) \<Longrightarrow> keeps P Q (case x of (y, z) \<Rightarrow> f y z)"
  by (simp split: prod.split)

lemma keeps_foldM:
  assumes "Q b" and "\<And>b x. Q b \<Longrightarrow> keeps P Q (f b x)" shows "keeps P Q (foldM f b xs)"
  using assms(1)
proof (induction xs arbitrary: b)
  case Nil
  then show ?case unfolding foldM.simps by (rule keeps_ret)
next
  case (Cons x xs)
  from assms(2) [OF Cons.prems] show ?case unfolding foldM.simps by (rule keeps_andThen) (rule Cons.IH)
qed

section \<open>Sane states\<close>

definition sane :: "sys \<Rightarrow> bool" where
  "sane s \<longleftrightarrow> clock_ok (env s) \<and> (\<forall>i m. cache s i = Some m \<longrightarrow> wf_metadata m)"

text \<open>A configuration whose paths are normalised, as paths of metadata are.\<close>

definition proper_config :: "config \<Rightarrow> bool" where
  "proper_config cfg \<longleftrightarrow> wf_path (state_dir cfg) \<and> wf_path (default_boot_image cfg)
     \<and> wf_path (default_init_boot_image cfg)"

lemma proper_default [simp]: "proper_config default_config"
  by (simp add: proper_config_def default_config_def component_def)

named_theorems keeps_leaves

lemma keeps_frame: assumes "within (frame A {}) m" shows "keeps sane (\<lambda>_. True) m"
  unfolding keeps_def
proof (intro allI impI)
  fix s r t
  assume s: "sane s" and m: "m s = (r, t)"
  have "frame A {} s t" using assms m by (rule withinD)
  then have "env t = env s" and "cache t i = cache s i" for i
    by (simp_all add: frame_env frame_cache [of A "{}"])
  then show "sane t \<and> (\<forall>a. r = Ok a \<longrightarrow> True)" using s by (simp add: sane_def)
qed

lemma keeps_still: "within (frame UNIV {}) m \<Longrightarrow> keeps sane (\<lambda>_. True) m"
  by (rule keeps_frame)

lemma keeps_epoch [keeps_leaves]: "keeps sane u64 epoch_secs"
proof (rule keepsI)
  fix s :: sys and r t
  assume "sane s" and "epoch_secs s = (r, t)"
  then show "sane t" using keeps_frame [OF frame_epoch_secs] by (rule keeps_state [rotated])
next
  fix s a t
  assume "sane s" and "epoch_secs s = (Ok a, t)"
  then show "u64 a" using epoch_u64 by (auto simp: sane_def)
qed

lemma metadata_result:
  assumes "sane s" and "metadata cfg i s = (Ok m, t)" shows "wf_metadata m"
proof (cases "cache s i")
  case (Some c)
  then show ?thesis using assms by (auto simp: metadata_def sane_def)
next
  case None
  then show ?thesis
    using assms(2) decode_metadata_wf
    by (auto simp: metadata_def Let_def simp del: paths_simps elim!: andThen_Ok_cases split: sum.splits)
qed

lemma keeps_metadata [keeps_leaves]: "keeps sane wf_metadata (metadata cfg i)"
  by (rule keepsI [OF keeps_state [OF keeps_frame [OF frame_metadata]] metadata_result])

lemma keeps_cache_insert: "wf_metadata m \<Longrightarrow> keeps sane (\<lambda>_. True) (cache_insert i m)"
  by (auto simp: keeps_def cache_insert_def sane_def)

lemma keeps_cache_remove [keeps_leaves]: "keeps sane (\<lambda>_. True) (cache_remove i)"
  by (auto simp: keeps_def cache_remove_def sane_def)

lemma keeps_new_manager: assumes "keeps sane Q m" shows "keeps sane Q (new_manager m)"
  unfolding keeps_def new_manager_def
proof (intro allI impI)
  fix s :: sys and r t
  let ?e = "s\<lparr>cache := \<lambda>_. None\<rparr>"
  assume s: "sane s" and run: "(case m ?e of (r, t) \<Rightarrow> (r, t\<lparr>cache := cache s\<rparr>)) = (r, t)"
  obtain u where u: "m ?e = (r, u)" "t = u\<lparr>cache := cache s\<rparr>" using run by (auto split: prod.splits)
  have "sane ?e" using s by (simp add: sane_def)
  with assms u(1) have "sane u \<and> (\<forall>a. r = Ok a \<longrightarrow> Q a)" unfolding keeps_def by blast
  with s u(2) show "sane t \<and> (\<forall>a. r = Ok a \<longrightarrow> Q a)" by (simp add: sane_def)
qed

lemma registry_sane: "sane s \<Longrightarrow> sane (s\<lparr>registry := r\<rparr>)"
  by (simp add: sane_def)

lemma keeps_remove_if_handle [keeps_leaves]: "keeps sane (\<lambda>_. True) (remove_if_handle i a)"
  by (rule keepsI) (auto simp: remove_if_handle_def registry_sane split: if_splits)

lemma keeps_registry_insert [keeps_leaves]: "keeps sane (\<lambda>_. True) (registry_insert i a)"
  by (rule keepsI) (auto simp: registry_insert_def registry_sane)

lemma keeps_terminate_guest [keeps_leaves]: "keeps sane (\<lambda>_. True) (terminate_guest i d)"
  unfolding terminate_guest_def
  by (intro keeps_then keeps_option keeps_ret keeps_remove_if_handle keeps_frame frame_intros) simp_all

section \<open>The handlers\<close>

lemma keeps_io: "keeps P Q m \<Longrightarrow> keeps P Q (io m)"
  unfolding io_def by (rule keeps_mapErr)

lemma keeps_det: "keeps P Q m \<Longrightarrow> keeps P Q (det c m)"
  unfolding det_def by (rule keeps_mapErr)

lemma wf_metadata_update [simp]:
  "wf_metadata m \<Longrightarrow> wf_metadata (m\<lparr>im_state := st\<rparr>)"
  "wf_metadata m \<Longrightarrow> u64 t \<Longrightarrow> wf_metadata (m\<lparr>im_updated_at := t\<rparr>)"
  "wf_metadata m \<Longrightarrow> wf_metadata (m\<lparr>im_held := h\<rparr>)"
  "wf_metadata m \<Longrightarrow> u64 t \<Longrightarrow> wf_metadata (m\<lparr>im_created_at := t\<rparr>)"
  "wf_metadata m \<Longrightarrow> wf_path p \<Longrightarrow> wf_metadata (m\<lparr>im_boot_image := p\<rparr>)"
  "wf_metadata m \<Longrightarrow> wf_path p \<Longrightarrow> wf_metadata (m\<lparr>im_init_boot_image := p\<rparr>)"
  by (simp_all add: wf_metadata_def)

lemma wf_created [simp]: "wf_metadata m \<Longrightarrow> u64 (im_created_at m)"
  by (simp add: wf_metadata_def)

lemma fresh_wf [simp]:
  "proper_config cfg \<Longrightarrow> u64 i \<Longrightarrow> u64 t \<Longrightarrow> wf_metadata (fresh_metadata cfg i p port st t)"
  by (simp add: wf_metadata_def fresh_metadata_def proper_config_def)

lemma destroyed_wf [simp]: "wf_metadata m \<Longrightarrow> u64 t \<Longrightarrow> wf_metadata (destroyed_metadata m t)"
  by (simp add: destroyed_metadata_def wf_metadata_def)

lemma summary_wf [simp]: "wf_metadata m \<Longrightarrow> wf_summary (summary m h)"
  by (simp add: wf_metadata_def wf_summary_def summary_def)

lemma plain_wf [simp]: "wf_action (plain_action x) = wf_summary x"
  by (simp add: wf_action_def plain_action_def opt_all_def)

lemma keeps_write_metadata [keeps_leaves]:
  "keeps sane (\<lambda>_. True) (write_metadata (paths cfg i) m)"
  by (rule keeps_frame [OF frame_write_metadata])

lemma keeps_write_env_file:
  "apart cfg \<Longrightarrow> keeps sane (\<lambda>_. True) (write_env_file cfg (paths cfg i) m)"
  by (intro keeps_frame [OF frame_write_env_file [OF subset_UNIV]])

lemma keeps_cleanup: "apart cfg \<Longrightarrow> keeps sane (\<lambda>_. True) (cleanup_host_state cfg i)"
  by (intro keeps_frame [OF frame_cleanup_host_state [OF subset_UNIV]])

text \<open>One step of a handler's body, whatever it needs discharged by \<open>simp\<close>.\<close>

lemmas keeps_steps =
  keeps_andThen [OF keeps_metadata] keeps_andThen [OF keeps_det [OF keeps_metadata]]
  keeps_andThen [OF keeps_attempt [OF keeps_metadata]]
  keeps_andThen [OF keeps_epoch] keeps_andThen [OF keeps_det [OF keeps_epoch]]
  keeps_then [OF keeps_write_metadata] keeps_then [OF keeps_det [OF keeps_write_metadata]]
  keeps_then [OF keeps_ignoring [OF keeps_write_metadata]]
  keeps_then [OF keeps_whenever [OF keeps_write_metadata]]
  keeps_then [OF keeps_cache_insert] keeps_then [OF keeps_cache_remove]
  keeps_then [OF keeps_write_env_file] keeps_then [OF keeps_det [OF keeps_write_env_file]]
  keeps_then [OF keeps_ignoring [OF keeps_write_env_file]]
  keeps_then [OF keeps_terminate_guest] keeps_then [OF keeps_ignoring [OF keeps_terminate_guest]]
  keeps_then [OF keeps_remove_if_handle] keeps_then [OF keeps_registry_insert]
  keeps_then [OF keeps_reading]
  keeps_raise keeps_hang keeps_ret

lemma keeps_hold_instance: "keeps sane wf_action (hold_instance cfg i)"
  unfolding hold_instance_def Let_def by (rule keeps_steps | simp)+

lemma keeps_status: "keeps sane wf_action (status cfg i)"
  unfolding status_def by (rule keeps_steps | simp)+

lemma keeps_describe: "keeps sane wf_action (describe cfg i n)"
  unfolding describe_def Let_def
  by (rule keeps_steps keeps_then [OF keeps_still [OF frame_guest_log_tail]]
      | simp add: wf_action_def plain_action_def opt_all_def)+

text \<open>The pids of a cleanup are signed 32-bit numbers.\<close>

definition wf_outcome :: "cleanup_outcome \<Rightarrow> bool" where
  "wf_outcome c \<longleftrightarrow> (\<forall>p \<in> set (co_remaining_pids c). i32 p)"

lemma parse_i32_range: "parse_i32 t = Some p \<Longrightarrow> i32 p"
  by (auto simp: parse_i32_def i32_def Let_def split: option.splits if_splits list.splits)

lemma pids_range: "p \<in> set (pids_of_output out) \<Longrightarrow> i32 p"
  by (auto simp: pids_of_output_def map_filter_def parse_i32_range)

lemma keeps_pgrep:
  "\<forall>p \<in> set seen. i32 p \<Longrightarrow> keeps sane (\<lambda>ps. \<forall>p \<in> set ps. i32 p) (pgrep seen pattern)"
  unfolding pgrep_def
  by (rule keeps_then [OF keeps_any [OF keeps_attempt [OF keeps_still [OF frame_run_cmd]]]])
    (auto intro!: keeps_sum keeps_if keeps_ret dest: pids_range)

lemma keeps_collect: "keeps sane (\<lambda>ps. \<forall>p \<in> set ps. i32 p) (collect_guest_pids i)"
  unfolding collect_guest_pids_def
  by (rule keeps_andThen [OF keeps_foldM [OF _ keeps_pgrep]]) (auto intro: keeps_ret)

lemma keeps_cleanup_host_state:
  assumes "apart cfg" shows "keeps sane wf_outcome (cleanup_host_state cfg i)"
proof -
  note still = keeps_then [OF keeps_still]
  have survivors: "keeps sane wf_outcome (cleanup_survivors cfg i steps)" for steps
    unfolding cleanup_survivors_def trash_host_dirs_def Let_def
    by (rule keeps_andThen [OF keeps_collect],
        rule still, intro frame_trash_host [OF subset_UNIV assms] frame_intros,
        rule still [OF frame_spawn_thread], rule keeps_ret)
      (simp add: wf_outcome_def from_parts_def)
  show ?thesis
    unfolding cleanup_host_state_def Let_def
    by (intro still frame_remove_ephemeral_dirs [OF subset_UNIV assms]
        frame_remove_cuttlefish_config_symlink [OF subset_UNIV assms] frame_intros survivors)
qed

lemma keeps_stop_instance:
  assumes "apart cfg" shows "keeps sane wf_action (stop_instance cfg i)"
  unfolding stop_instance_def Let_def
  apply (rule keeps_steps | simp)+
  apply (rule keeps_andThen [OF keeps_cleanup_host_state [OF assms]])
  apply (rule keeps_andThen [where R = wf_metadata])
   apply (rule keeps_if keeps_steps | simp)+
  apply (simp add: wf_action_def plain_action_def opt_all_def wf_outcome_def outcome_summary_def)
  done

lemma keeps_port: "keeps sane (\<lambda>_. True) (adb_port_for cfg i)"
  by (rule keeps_still [OF frame_adb_port_for])

lemma keeps_create_dirs:
  "keeps sane (\<lambda>_. True) (ctx c (create_dir_all p))" "keeps sane (\<lambda>_. True) (io (create_dir_all p))"
  "keeps sane (\<lambda>_. True) (ignoring (create_dir_all p))"
  by (rule keeps_still, intro frame_intros subset_UNIV)+

lemma allocated_id_range: "keeps sane u64 (allocate_id cfg)"
proof (rule keepsI)
  fix s r t
  assume "sane s" and "allocate_id cfg s = (r, t)"
  then show "sane t" using keeps_frame [OF frame_allocate_id] by (rule keeps_state [rotated])
next
  fix s i t
  assume "allocate_id cfg s = (Ok i, t)"
  then obtain c n d where "pick_slot 99 c n = (Some i, d)" using allocate_id_Ok by blast
  then obtain k where "i = slot n k" using pick_slot_Some by blast
  then have "i \<le> 99" using slot_range [of n k] by simp
  then show "u64 i" by (simp add: u64_def)
qed

definition wf_created_response :: "create_response \<Rightarrow> bool" where
  "wf_created_response c \<longleftrightarrow> wf_summary (cr_summary c)"

lemma keeps_create_instance:
  assumes "apart cfg" and "proper_config cfg"
  shows "keeps sane wf_created_response (create_instance cfg purpose)"
  unfolding create_instance_def Let_def
  by (rule keeps_andThen [OF allocated_id_range] keeps_then [OF keeps_port]
      keeps_then [OF keeps_create_dirs(1)] keeps_steps
      | simp add: assms wf_created_response_def)+

section \<open>Waiting and starting\<close>

lemma keeps_record_launch_failure:
  assumes "apart cfg" and "wf_metadata m"
  shows "keeps sane (\<lambda>_. True) (record_launch_failure cfg i m err)"
  unfolding record_launch_failure_def Let_def
  by (rule keeps_steps keeps_then [OF keeps_still [OF frame_guest_log_tail]] | simp add: assms)+

lemma keeps_launch_failure:
  assumes "apart cfg" and "wf_metadata m"
  shows "keeps sane Q (launch_failure cfg i m code err u)"
  unfolding launch_failure_def
  by (rule keeps_then [OF keeps_any [OF keeps_attempt [OF keeps_record_launch_failure [OF assms]]]])
    (rule keeps_raise)

lemma keeps_adb_retry:
  assumes "apart cfg" and "wf_metadata m" and "keeps sane Q k"
  shows "keeps sane Q (adb_retry cfg i m d err u k)"
  unfolding adb_retry_def
  by (rule keeps_then [OF keeps_still [OF frame_instant_now]] keeps_then [OF keeps_still [OF frame_sleep]]
      keeps_if keeps_steps keeps_launch_failure assms)+

lemma keeps_wait_for_adb_loop:
  assumes "apart cfg" and "wf_metadata m"
  shows "keeps sane wf_action (wait_for_adb_loop n cfg i m d)"
proof (induction n)
  case 0
  show ?case unfolding wait_for_adb_loop.simps by (rule keeps_hang)
next
  case (Suc n)
  note quiet = keeps_then [OF keeps_still]
  show ?case
    unfolding wait_for_adb_loop.simps Let_def registry_get_def
    by (rule keeps_then [OF keeps_reading], rule keeps_option, rule keeps_launch_failure [OF assms],
        rule quiet, intro frame_intros, rule keeps_option, rule quiet, intro frame_intros,
        rule keeps_sum, rule keeps_adb_retry [OF assms Suc],
        rule quiet, intro frame_intros, rule keeps_sum, rule keeps_adb_retry [OF assms Suc],
        rule keeps_option, rule keeps_adb_retry [OF assms Suc])
      (rule keeps_steps keeps_launch_failure [OF assms] | simp add: assms)+
qed

lemma keeps_wait_for_adb:
  assumes "apart cfg" shows "keeps sane wf_action (wait_for_adb cfg i timeout)"
  unfolding wait_for_adb_def Let_def
  by (rule keeps_andThen [OF keeps_det [OF keeps_metadata]] keeps_then [OF keeps_still [OF frame_instant_now]]
      keeps_then [OF keeps_still [OF frame_instant_add]] keeps_then [OF keeps_reading]
      keeps_wait_for_adb_loop [OF assms])+

lemma wf_verified [simp]: "wf_action (x\<lparr>ar_verification := v\<rparr>) = wf_action x"
  by (simp add: wf_action_def)

lemma keeps_start_wait_adb:
  assumes "apart cfg" shows "keeps sane wf_action (start_wait_adb cfg i a opts)"
proof -
  note quiet = keeps_then [OF keeps_still]
  have body: "keeps sane wf_action
      (andThen (if so_verify_boot opts then
          andThen (secs_remaining deadline) (\<lambda>remaining.
          andThen (verify_boot_completed cfg i remaining) (\<lambda>verification.
          ret (response\<lparr>ar_verification := Some verification\<rparr>)))
        else ret response) (\<lambda>response. andThen (spawn_exit_watcher i a) (\<lambda>_. ret response)))"
    if "wf_action response" for response deadline
    by (rule keeps_andThen [where R = wf_action] keeps_if quiet [OF frame_secs_remaining]
        quiet [OF frame_verify_boot_completed] quiet [OF frame_spawn_exit_watcher] keeps_ret
        | simp add: that)+
  show ?thesis
    unfolding start_wait_adb_def Let_def
    by (rule quiet [OF frame_deadline_from_timeout], rule quiet [OF frame_secs_remaining],
        rule keeps_andThen [OF keeps_attempt [OF keeps_wait_for_adb [OF assms]]], rule keeps_sum)
      (rule keeps_steps body | simp)+
qed

lemma keeps_start_skip_adb: "keeps sane wf_action (start_skip_adb cfg i a)"
  unfolding start_skip_adb_def Let_def
  by (rule keeps_steps keeps_then [OF keeps_still [OF frame_spawn_exit_watcher]] | simp)+

lemma keeps_start_spawn_failed:
  "wf_metadata m \<Longrightarrow> keeps sane wf_action (start_spawn_failed cfg i m err)"
  unfolding start_spawn_failed_def Let_def by (rule keeps_steps | simp)+

lemma keeps_new_handle: "keeps sane (\<lambda>_. True) (new_handle pid)"
  by (rule keepsI) (auto simp: new_handle_def sane_def)

lemma keeps_start_instance:
  assumes "apart cfg" shows "keeps sane wf_action (start_instance cfg i opts)"
proof -
  note quiet = keeps_then [OF keeps_still] and u = subset_UNIV assms
  note launch = quiet [OF frame_det [OF frame_preflight_cleanup [OF u]]]
    quiet [OF frame_det [OF frame_prepare_host_directories [OF u]]]
    quiet [OF frame_det [OF frame_ensure_qemu_datadir [OF u]]]
    keeps_then [OF keeps_frame [OF frame_det [OF frame_prepare_run_log]]]
    quiet [OF fr.within_attempt [OF frame_spawn_guest_process]]
  show ?thesis
    unfolding start_instance_def Let_def registry_contains_def
    by (rule keeps_if, rule keeps_raise, rule keeps_then [OF keeps_reading], rule keeps_if, rule keeps_raise)
      (rule launch keeps_sum keeps_then [OF keeps_new_handle] keeps_if keeps_start_skip_adb
        keeps_start_wait_adb [OF assms] keeps_start_spawn_failed keeps_steps | simp add: assms)+
qed

lemma keeps_create_and_start:
  assumes "apart cfg" and "proper_config cfg"
  shows "keeps sane wf_action (create_and_start_instance cfg purpose opts)"
  unfolding create_and_start_instance_def
  by (rule keeps_andThen [OF keeps_det [OF keeps_create_instance [OF assms]]])
    (rule keeps_start_instance [OF assms(1)])

section \<open>Destroying, listing and pruning\<close>

lemma keeps_mark_metadata_state:
  assumes "apart cfg" and "proper_config cfg" and "u64 i"
  shows "keeps sane (\<lambda>_. True) (mark_metadata_state cfg i st)"
  unfolding mark_metadata_state_def Let_def
  by (rule keeps_andThen [OF keeps_epoch], rule keeps_andThen [OF keeps_attempt [OF keeps_metadata]],
      rule keeps_andThen [where R = wf_metadata])
    (rule keeps_sum keeps_then [OF keeps_port] keeps_then [OF keeps_create_dirs(2)]
      keeps_then [OF keeps_create_dirs(3)] keeps_steps | simp add: assms)+

lemma keeps_remove_instance_artifacts:
  assumes "apart cfg" shows "keeps sane (\<lambda>_. True) (remove_instance_artifacts cfg i)"
  by (rule keeps_frame [OF frame_remove_instance_artifacts [OF assms]])

lemma keeps_finish_destroy:
  assumes "apart cfg" and "proper_config cfg" and "u64 i"
  shows "keeps sane wf_outcome (finish_destroy cfg i)"
  unfolding finish_destroy_def
  by (rule keeps_andThen [OF keeps_cleanup_host_state [OF assms(1)]], rule keeps_then)
    (rule keeps_if keeps_sum keeps_cache_remove
      keeps_then [OF keeps_any [OF keeps_attempt [OF keeps_remove_instance_artifacts [OF assms(1)]]]]
      keeps_then [OF keeps_mark_metadata_state [OF assms]] keeps_ret | simp)+

lemma u64_0 [simp]: "u64 0" by (simp add: u64_def)

lemma keeps_prepare_destroy:
  assumes "proper_config cfg" and "u64 i"
  shows "keeps sane wf_summary (prepare_destroy cfg i)"
  unfolding prepare_destroy_def Let_def
  by (rule keeps_andThen [OF keeps_attempt [OF keeps_metadata]],
      rule keeps_andThen [where R = wf_metadata])
    (rule keeps_sum keeps_then [OF keeps_port] keeps_then [OF keeps_still [OF frame_kill_guest_processes]]
      keeps_steps | simp add: assms wf_summary_def)+

lemma keeps_supervise:
  "keeps P Q m \<Longrightarrow> keeps P (\<lambda>r. case r of Replied x \<Rightarrow> right_all Q x | _ \<Rightarrow> True) (supervise m)"
  unfolding keeps_def supervise_def by (fastforce split: prod.splits outcome.splits)

lemma keeps_await_worker:
  assumes "apart cfg" and "proper_config cfg" and "u64 i"
  shows "keeps sane (right_all wf_outcome) (await_worker cfg i d)"
  unfolding await_worker_def destroy_worker_def
  by (rule keeps_then [OF keeps_reading], rule keeps_if,
      rule keeps_then [OF keeps_still [OF frame_spawn_thread]], rule keeps_raise,
      rule keeps_andThen [OF keeps_supervise [OF keeps_new_manager [OF keeps_finish_destroy [OF assms]]]])
    (auto intro: keeps_ret keeps_raise keeps_hang split: reply.split)

lemma wf_cleaned:
  "wf_summary x \<Longrightarrow> wf_outcome c \<Longrightarrow>
   wf_action ((plain_action x)\<lparr>ar_cleanup := Some (outcome_summary c)\<rparr>)"
  by (simp add: wf_action_def plain_action_def opt_all_def wf_outcome_def outcome_summary_def)

lemma keeps_destroy_instance:
  assumes "apart cfg" and "proper_config cfg" and "u64 i"
  shows "keeps sane wf_action (destroy_instance cfg i opts)"
  unfolding destroy_instance_def
  by (rule keeps_andThen [OF keeps_det [OF keeps_prepare_destroy [OF assms(2,3)]]],
      rule keeps_then [OF keeps_still [OF frame_deadline_beside_worker]],
      rule keeps_then [OF keeps_still [OF frame_secs_remaining]],
      rule keeps_andThen [OF keeps_await_worker [OF assms]])
    (rule keeps_sum keeps_if keeps_raise keeps_ret wf_cleaned | simp)+

lemma entry_id_u64: "entry_id cfg name s = Some i \<Longrightarrow> u64 i"
  by (auto simp: entry_id_def parse_u64_def u64_def Let_def split: if_splits option.splits)

lemma keeps_entry_id: "keeps sane (opt_all u64) (reading (entry_id cfg name))"
  by (auto simp: keeps_def opt_all_def entry_id_u64 split: option.split)

lemma keeps_list_instances: "keeps sane (\<lambda>xs. \<forall>x \<in> set xs. wf_summary x) (list_instances cfg)"
proof -
  have entry: "keeps sane (\<lambda>xs. \<forall>x \<in> set xs. wf_summary x) (list_entry cfg xs name)"
    if "\<forall>x \<in> set xs. wf_summary x" for xs name
    unfolding list_entry_def
    by (rule keeps_then [OF keeps_still [OF frame_io [OF frame_plain_call]]],
        rule keeps_then [OF keeps_reading], rule keeps_option, rule keeps_ret, rule that,
        rule keeps_andThen [OF keeps_attempt [OF keeps_metadata]])
      (use that in \<open>auto intro!: keeps_sum keeps_if keeps_ret\<close>)
  show ?thesis
    unfolding list_instances_def
    by (rule keeps_then [OF keeps_still [OF frame_instance_entries]], rule keeps_option,
        rule keeps_ret, simp, rule keeps_andThen [OF keeps_foldM [OF _ entry]])
      (auto intro: keeps_ret)
qed

lemma keeps_prune_instance:
  assumes "apart cfg" and "proper_config cfg" and "u64 i"
  shows "keeps sane (\<lambda>_. True) (prune_instance cfg i)"
proof -
  have inner: "keeps sane (\<lambda>r. opt_all wf_metadata (snd r))
      (andThen (attempt (finish_destroy cfg i)) (\<lambda>r. case r of
          Inr outcome \<Rightarrow>
            if co_guest_processes_killed outcome then ret (True, None)
            else andThen (attempt (metadata cfg i)) (\<lambda>m.
              ret (False, case m of Inr m \<Rightarrow> Some m | Inl _ \<Rightarrow> None))
        | Inl err \<Rightarrow> andThen (ignoring (mark_metadata_state cfg i Failed)) (\<lambda>_. raise err)))"
    by (rule keeps_then [OF keeps_any [OF keeps_attempt [OF keeps_finish_destroy [OF assms]]]],
        rule keeps_sum)
      (rule keeps_then [OF keeps_ignoring [OF keeps_mark_metadata_state [OF assms]]] keeps_if
        keeps_steps | simp add: opt_all_def right_all_def split: sum.splits)+
  show ?thesis
    unfolding prune_instance_def
    by (rule keeps_then [OF keeps_any [OF keeps_prepare_destroy [OF assms(2,3)]]],
        rule keeps_andThen [OF keeps_new_manager [OF inner]], rule keeps_prod, rule keeps_then,
        rule keeps_option)
      (rule keeps_ret keeps_cache_insert | simp add: opt_all_def)+
qed

lemma keeps_prune_entries:
  assumes "apart cfg" and "proper_config cfg"
  shows "keeps sane (\<lambda>_. True) (prune_expired_entry cfg cutoff c name)"
    and "keeps sane (\<lambda>_. True) (prune_all_entry cfg c name)"
proof -
  note entry = keeps_then [OF keeps_still [OF frame_io [OF frame_plain_call]]]
  note prune = keeps_then [OF keeps_any [OF keeps_attempt [OF keeps_prune_instance [OF assms]]]]
  show "keeps sane (\<lambda>_. True) (prune_expired_entry cfg cutoff c name)"
    unfolding prune_expired_entry_def
    by (rule entry, rule keeps_andThen [OF keeps_entry_id], rule keeps_option, rule keeps_ret)
      (rule prune keeps_sum keeps_if keeps_steps | simp add: opt_all_def)+
  show "keeps sane (\<lambda>_. True) (prune_all_entry cfg c name)"
    unfolding prune_all_entry_def
    by (rule entry, rule keeps_andThen [OF keeps_entry_id], rule keeps_option, rule keeps_ret)
      (rule prune keeps_sum keeps_if keeps_steps | simp add: opt_all_def)+
qed

lemma keeps_prune:
  assumes "apart cfg" and "proper_config cfg"
  shows "keeps sane (\<lambda>_. True) (prune_expired_instances cfg n)"
    and "keeps sane (\<lambda>_. True) (prune_all_instances cfg)"
  unfolding prune_expired_instances_def prune_all_instances_def
  by (rule keeps_then [OF keeps_still [OF frame_instance_entries]], rule keeps_option,
      (rule keeps_steps keeps_foldM keeps_prune_entries [OF assms] | simp)+)+

lemma wf_images:
  "wf_metadata m \<Longrightarrow> wf_path (im_boot_image m)" "wf_metadata m \<Longrightarrow> wf_path (im_init_boot_image m)"
  by (simp_all add: wf_metadata_def)

lemma component_names:
  "component ''instances''" "component ''artifacts''" "component ''boot.img''" "component ''init_boot.img''"
  by (simp_all add: component_def)

lemma keeps_deploy:
  assumes "apart cfg" and "proper_config cfg" shows "keeps sane (\<lambda>_. True) (deploy cfg q)"
proof -
  have image: "keeps sane wf_path (deploy_image w d f p)" if "wf_path d" "wf_path p" for w d f p
    unfolding deploy_image_def
    by (rule keeps_option keeps_then [OF keeps_still [OF frame_ctx [OF frame_copy_file]]] keeps_ret
        | simp add: that)+
  have dest: "wf_path (ip_artifacts (paths cfg (dr_id q)) @ [''boot.img''])"
    "wf_path (ip_artifacts (paths cfg (dr_id q)) @ [''init_boot.img''])"
    using assms(2) by (simp_all add: proper_config_def component_names)
  show ?thesis
    unfolding deploy_def Let_def
    by (rule keeps_andThen [OF keeps_metadata])
      (rule keeps_andThen [OF image] keeps_cache_insert keeps_steps
        | simp only: dest | simp add: assms wf_images)+
qed

section \<open>Requests\<close>

lemma wf_detail: "wf_response (error_with_detail d)"
  by (simp add: wf_response_def error_with_detail_def opt_all_def)

lemma keeps_respond:
  assumes "keeps sane Q m" and "\<And>x. Q x \<Longrightarrow> wf_response (f x)"
  shows "keeps sane wf_response (respond f m)"
  unfolding respond_def
  by (rule keeps_andThen [OF keeps_attempt [OF assms(1)]], rule keeps_ret)
    (auto simp: right_all_def assms(2) wf_detail split: sum.splits)

lemma wf_action_ok [simp]: "wf_response (action_ok x) = wf_action x"
  by (simp add: wf_response_def action_ok_def response_ok_def opt_all_def)

lemma wf_message [simp]: "wf_response (with_message response_ok msg)"
  by (simp add: wf_response_def with_message_def response_ok_def opt_all_def)

lemma keeps_logs: "keeps sane (\<lambda>_. True) (logs cfg i n opts)"
  by (rule keeps_still [OF frame_logs])

lemma keeps_handle:
  assumes "apart cfg" and "proper_config cfg" and "wf_request q"
  shows "keeps sane wf_response (handle cfg q)"
proof (cases q)
  case (CreateInstance p)
  then show ?thesis
    by (auto intro!: keeps_andThen [OF keeps_create_instance [OF assms(1,2)]] keeps_ret
        simp: wf_response_def response_ok_def opt_all_def wf_created_response_def)
next
  case (Logs i n opts)
  then show ?thesis
    by (auto intro!: keeps_respond [OF keeps_logs] simp: wf_response_def response_ok_def opt_all_def)
next
  case (Deploy d)
  then show ?thesis
    by (auto intro!: keeps_then [OF keeps_deploy [OF assms(1,2)]] keeps_ret)
next
  case ListInstances
  then show ?thesis
    by (auto intro!: keeps_andThen [OF keeps_list_instances] keeps_ret
        simp: wf_response_def response_ok_def opt_all_def)
next
  case (DestroyInstance i opts)
  with assms(3) have "u64 i" by simp
  with DestroyInstance show ?thesis
    by (auto intro!: keeps_respond [OF keeps_destroy_instance [OF assms(1,2)]])
qed (auto intro!: keeps_respond [OF keeps_start_instance [OF assms(1)]]
      keeps_respond [OF keeps_create_and_start [OF assms(1,2)]]
      keeps_respond [OF keeps_wait_for_adb [OF assms(1)]]
      keeps_andThen [OF keeps_stop_instance [OF assms(1)]] keeps_andThen [OF keeps_hold_instance]
      keeps_andThen [OF keeps_status] keeps_andThen [OF keeps_describe]
      keeps_then [OF keeps_prune(1) [OF assms(1,2)]] keeps_then [OF keeps_prune(2) [OF assms(1,2)]]
      keeps_ret)

text \<open>C7: Every response is within the types of its fields, so that its wire form is read back by
  the client as it is, and the metadata left in the cache are within theirs.  This holds for every
  request a client can send, whatever the disk holds and whatever calls fail.\<close>

theorem handle_typed:
  assumes "apart cfg" and "proper_config cfg" and "wf_request q" and "sane s"
    and "handle cfg q s = (r, t)"
  shows "sane t \<and> (\<forall>x. r = Ok x \<longrightarrow> wf_response x)"
  using keeps_handle [OF assms(1-3)] assms(4,5) unfolding keeps_def by blast

lemma handle_typed_witness:
  "\<exists>r t. handle default_config ListInstances blank = (r, t) \<and> sane t \<and> (\<forall>x. r = Ok x \<longrightarrow> wf_response x)"
proof -
  obtain r t where run: "handle default_config ListInstances blank = (r, t)" by fastforce
  have "sane blank" using quiet_lawful [of default_config] by (simp add: sane_def blank_def lawful_def)
  from handle_typed [OF apart_default proper_default _ this run] run show ?thesis by auto
qed

end
