(* ===== verification/Daemon.thy ===== *)
theory Daemon
  imports Typing AdbWait
begin

text \<open>
  \<open>CfctlDaemon\<close> of \<open>cuttlefish/cfctl/src/daemon/mod.rs\<close>: preparing the directories, sweeping the
  trash an earlier daemon left, one connection (\<open>handle_stream\<close>) and the dispatch of its request
  to a manager of its own.  The instance locks that \<open>dispatch\<close> takes around the manager are the
  subject of \<open>InstanceLocks\<close>; here a request runs by itself.
\<close>

section \<open>Starting up\<close>

definition ensure_dirs :: "config \<Rightarrow> unit res" where
  "ensure_dirs cfg =
     andThen (ctx (''creating state dir '' @ show_path (state_dir cfg))
       (create_dir_all (state_dir cfg))) (\<lambda>_.
     andThen (ctx (''creating etc dir '' @ show_path (etc_instances_dir cfg))
       (create_dir_all (etc_instances_dir cfg))) (\<lambda>_.
     if socket_path cfg = [] then ret ()
     else ctx (''creating socket dir '' @ show_path (butlast (socket_path cfg)))
       (create_dir_all (butlast (socket_path cfg)))))"

definition trash_mark :: string where "trash_mark = ''.__trash__.''"

text \<open>One entry of a base directory; entries that cannot be read are passed over.\<close>

definition sweep_entry :: "path \<Rightarrow> string \<Rightarrow> (sys, unit, 'e) act" where
  "sweep_entry base name =
     andThen (attempt plain_call) (\<lambda>entry.
     case entry of
       Inl err \<Rightarrow> ret ()
     | Inr _ \<Rightarrow>
         if \<not> utf8 name then ret ()
         else if \<not> str_contains name trash_mark then ret ()
         else spawn_thread (PurgeTrash (base @ [name])))"

definition sweep_base :: "path \<Rightarrow> (sys, unit, 'e) act" where
  "sweep_base base =
     andThen (attempt (read_dir base)) (\<lambda>entries.
     case entries of
       Inl err \<Rightarrow> ret ()
     | Inr names \<Rightarrow> forEach (sweep_entry base) names)"

definition sweep_trash :: "config \<Rightarrow> (sys, unit, 'e) act" where
  "sweep_trash cfg =
     forEach sweep_base [cuttlefish_instances_dir cfg, cuttlefish_assembly_dir cfg]"

text \<open>\<open>UnixListener::bind\<close> makes the socket's file, which must not exist.\<close>

definition bind_socket :: "path \<Rightarrow> unit io" where
  "bind_socket p = syscall (\<lambda>f s. s)
     (\<lambda>s. if path_exists p s then (Err (IoError OtherKind ''Address already in use (os error 98)''), s)
        else case open_error p (fs s) of
          Some e \<Rightarrow> (Err e, s)
        | None \<Rightarrow> (Ok (), put_file p [] s))"

text \<open>\<open>run\<close> up to the accept loop.\<close>

definition start_listening :: "config \<Rightarrow> unit res" where
  "start_listening cfg =
     andThen (ensure_dirs cfg) (\<lambda>_.
     andThen (sweep_trash cfg) (\<lambda>_.
     andThen (reading (path_exists (socket_path cfg))) (\<lambda>there.
     andThen (whenever there
       (ctx (''removing pre-existing socket '' @ show_path (socket_path cfg))
         (remove_file (socket_path cfg)))) (\<lambda>_.
     andThen (ctx (''binding socket '' @ show_path (socket_path cfg))
       (bind_socket (socket_path cfg))) (\<lambda>_.
     io (set_permissions (socket_path cfg) 432))))))"

section \<open>Dispatching a request\<close>

text \<open>The instance whose lock a request takes, and the requests that take the id lock.\<close>

fun request_id :: "request \<Rightarrow> instance_id option" where
  "request_id (StartInstance i opts) = Some i"
| "request_id (StopInstance i) = Some i"
| "request_id (HoldInstance i) = Some i"
| "request_id (DestroyInstance i opts) = Some i"
| "request_id (WaitForAdb i timeout) = Some i"
| "request_id (Logs i lns opts) = Some i"
| "request_id (Status i) = Some i"
| "request_id (Describe i lns) = Some i"
| "request_id (Deploy rq) = Some (dr_id rq)"
| "request_id (CreateInstance purpose) = None"
| "request_id (CreateStartInstance purpose opts) = None"
| "request_id ListInstances = None"
| "request_id (PruneExpired max_age) = None"
| "request_id PruneAll = None"

fun takes_id_lock :: "request \<Rightarrow> bool" where
  "takes_id_lock (CreateInstance purpose) = True"
| "takes_id_lock (CreateStartInstance purpose opts) = True"
| "takes_id_lock q = False"

fun describe_request :: "request \<Rightarrow> string" where
  "describe_request (CreateInstance purpose) = ''CreateInstance''"
| "describe_request (CreateStartInstance purpose opts) = ''CreateStartInstance''"
| "describe_request (StartInstance i opts) = ''StartInstance('' @ show_nat i @ '')''"
| "describe_request (StopInstance i) = ''StopInstance('' @ show_nat i @ '')''"
| "describe_request (HoldInstance i) = ''HoldInstance('' @ show_nat i @ '')''"
| "describe_request (DestroyInstance i opts) = ''DestroyInstance('' @ show_nat i @ '')''"
| "describe_request (Deploy rq) = ''Deploy('' @ show_nat (dr_id rq) @ '')''"
| "describe_request (WaitForAdb i timeout) = ''WaitForAdb('' @ show_nat i @ '')''"
| "describe_request (Logs i lns opts) = ''Logs('' @ show_nat i @ '')''"
| "describe_request (Status i) = ''Status('' @ show_nat i @ '')''"
| "describe_request (Describe i lns) = ''Describe('' @ show_nat i @ '')''"
| "describe_request ListInstances = ''ListInstances''"
| "describe_request (PruneExpired max_age) =
     ''PruneExpired(max_age_secs='' @ show_nat max_age @ '')''"
| "describe_request PruneAll = ''PruneAll''"

text \<open>\<open>spawn_blocking(..).await\<close>: a panic of the closure is an error of the join handle.\<close>

definition join :: "'a res \<Rightarrow> 'a res" where
  "join m = (\<lambda>s. case m s of
       (Panic, t) \<Rightarrow> (Err (Msg (e_join_text (env t) (tick t))), t)
     | (r, t) \<Rightarrow> (r, t))"

definition dispatch :: "config \<Rightarrow> request \<Rightarrow> response res" where
  "dispatch cfg q = join (new_manager (handle cfg q))"

section \<open>A connection\<close>

text \<open>What \<open>read_line\<close> takes from the bytes of a connection: up to the first newline, with it.\<close>

fun first_line :: "string \<Rightarrow> string" where
  "first_line [] = []"
| "first_line (c # t) = (if c = newline then [c] else c # first_line t)"

definition read_line :: "string \<Rightarrow> string io" where
  "read_line incoming = syscall (\<lambda>f s. s)
     (\<lambda>s. if utf8 (first_line incoming) then (Ok (first_line incoming), s) else (Err bad_utf8, s))"

text \<open>The body, the newline and the shutdown are three writes; nothing after a failed one.\<close>

definition send_response :: "response \<Rightarrow> string res" where
  "send_response x =
     andThen (reading (\<lambda>s. e_compact (env s) (enc_response x))) (\<lambda>text.
     andThen (io plain_call) (\<lambda>_.
     andThen (io plain_call) (\<lambda>_.
     andThen (io plain_call) (\<lambda>_.
     ret (text @ [newline])))))"

text \<open>What is sent back on a connection that brings \<open>incoming\<close>; \<open>None\<close> when it is closed at once.\<close>

definition handle_stream :: "config \<Rightarrow> string \<Rightarrow> string option res" where
  "handle_stream cfg incoming =
     andThen (io (read_line incoming)) (\<lambda>line.
     if line = [] then ret None
     else
       andThen (reading (\<lambda>s. from_str (env s) dec_request line)) (\<lambda>parsed.
       case parsed of
         Inl msg \<Rightarrow> raise (Ctx (''decoding request JSON: '' @ trim line) (Msg msg))
       | Inr q \<Rightarrow>
           andThen (attempt (dispatch cfg q)) (\<lambda>r.
           let x = (case r of Inr x \<Rightarrow> x | Inl err \<Rightarrow> response_error (err_string err)) in
           andThen (send_response x) (\<lambda>out. ret (Some out)))))"

section \<open>Frames\<close>

lemma frame_request:
  assumes "apart cfg" and "request_id q = Some i"
  shows "within (frame (away cfg i) {i}) (handle cfg q)"
  using assms
  by (cases q) (auto intro!: frame_intros simp: action_ok_def)

lemma frame_create_instance [frame_intros]:
  assumes "apart cfg" shows "within (frame UNIV UNIV) (create_instance cfg purpose)"
proof -
  have alloc: "within (frame UNIV UNIV) (allocate_id cfg)"
    by (rule within_frame_mono [OF frame_allocate_id]) simp_all
  have put: "within (frame UNIV UNIV) (write_metadata (paths cfg i) m)" for i m
    by (rule within_frame_mono [OF frame_write_metadata]) simp_all
  show ?thesis
    unfolding create_instance_def Let_def
    by (intro alloc put frame_write_env_file [OF subset_UNIV assms] frame_intros subset_UNIV UNIV_I)
qed

lemma frame_wide: "within (frame A I) m \<Longrightarrow> within (frame UNIV UNIV) m"
  by (rule within_frame_mono) simp_all

lemma frame_create_and_start [frame_intros]:
  assumes "apart cfg" shows "within (frame UNIV UNIV) (create_and_start_instance cfg purpose opts)"
  unfolding create_and_start_instance_def
  by (intro frame_intros assms frame_wide [OF frame_start_instance [OF assms UNIV_I]])

lemma frame_prune_all [frame_intros]:
  assumes "apart cfg" shows "within (frame UNIV UNIV) (prune_all_instances cfg)"
  unfolding prune_all_instances_def prune_all_entry_def
  by (intro frame_intros frame_wide [OF frame_prune_instance [OF assms UNIV_I]])

lemma frame_prune_expired [frame_intros]:
  assumes "apart cfg" shows "within (frame UNIV UNIV) (prune_expired_instances cfg n)"
  unfolding prune_expired_instances_def prune_expired_entry_def
  by (intro frame_intros frame_wide [OF frame_prune_instance [OF assms UNIV_I]])

lemma frame_handle:
  assumes "apart cfg" shows "within (frame UNIV UNIV) (handle cfg q)"
proof (cases "request_id q")
  case (Some i)
  then show ?thesis using frame_wide [OF frame_request [OF assms]] by blast
next
  case None
  with assms show ?thesis by (cases q) (auto intro!: frame_intros simp: action_ok_def)
qed

lemma frame_join [frame_intros]: "within (frame A I) m \<Longrightarrow> within (frame A I) (join m)"
  by (rule withinI) (simp add: join_def withinD split: prod.split outcome.split)

lemma frame_dispatch: "apart cfg \<Longrightarrow> within (frame UNIV UNIV) (dispatch cfg q)"
  unfolding dispatch_def by (intro frame_intros frame_handle)

section \<open>Requests keep to their instance\<close>

text \<open>C1: A request for one instance leaves every other instance alone: whatever the request does and
  however it ends, no file in the directory of another instance changes but those the guest itself
  writes, the metadata stored for it stay the same, and so does its entry in the registry.\<close>

theorem dispatch_isolated:
  assumes "apart cfg" and "undisturbed cfg (env s)" and "request_id q = Some i" and "j \<noteq> i"
    and "dispatch cfg q s = (r, t)"
  shows "stored cfg t j = stored cfg s j \<and> registry t j = registry s j
    \<and> (\<forall>p. prefix (ip_root (paths cfg j)) p \<longrightarrow> e_area (env s) p \<or> fs t p = fs s p)"
proof -
  have "within (frame (away cfg i) {i}) (dispatch cfg q)"
    unfolding dispatch_def by (intro frame_intros frame_request assms)
  then have f: "frame (away cfg i) {i} s t" using assms(5) by (rule withinD)
  have "p \<notin> away cfg i" if "prefix (ip_root (paths cfg j)) p" for p
    using tree_away_iff [OF tree_root_below [OF that], of i] assms(4) by simp
  then show ?thesis
    using stored_away [OF f assms(2,4)] frame_registry [OF f, of j] frame_fs [OF f] assms(4) by auto
qed

lemma dispatch_isolated_witness:
  "\<exists>r t. dispatch default_config (StopInstance 5) booted = (r, t)
    \<and> stored default_config t 3 = Some (sample_metadata 3) \<and> registry t 3 = Some 0"
proof -
  obtain r t where run: "dispatch default_config (StopInstance 5) booted = (r, t)" by fastforce
  have "undisturbed default_config (env booted)" by (simp add: calm_undisturbed)
  from dispatch_isolated [OF apart_default this _ _ run, of 5 3] run show ?thesis
    by (simp add: booted_stored)
qed

section \<open>A panicking handler\<close>

lemma booted_empty_cache [simp]: "booted\<lparr>cache := \<lambda>_. None\<rparr> = booted"
  by (simp add: booted_def machine_def)






section \<open>A line that is no request\<close>

text \<open>C36: A line that is not UTF-8, not JSON or not a request is answered with nothing: the connection
  ends with an error, no handler runs, and apart from the call that read the line nothing changed.
  An empty connection is closed without an error.\<close>

theorem malformed_line_harmless:
  assumes "utf8 (first_line incoming) \<longrightarrow> (\<exists>msg. from_str (env s) dec_request (first_line incoming) = Inl msg)"
    and "handle_stream cfg incoming s = (r, t)"
  shows "t = step s \<and> (if first_line incoming = [] \<and> e_fault (env s) (tick s) = None then r = Ok None
    else \<exists>e. r = Err e)"
proof -
  consider (fault) f where "e_fault (env s) (tick s) = Some f"
    | (empty) "e_fault (env s) (tick s) = None" "first_line incoming = []"
    | (utf) "e_fault (env s) (tick s) = None" "first_line incoming \<noteq> []" "utf8 (first_line incoming)"
    | (bad) "e_fault (env s) (tick s) = None" "\<not> utf8 (first_line incoming)"
    by (cases "e_fault (env s) (tick s)") auto
  then show ?thesis
  proof cases
    case fault
    then have "io (read_line incoming) s = (Err (from_io (f_err f)), step s)"
      by (simp add: io_def read_line_def syscall_def)
    then show ?thesis using assms(2) fault by (auto simp: handle_stream_def)
  next
    case empty
    then have "io (read_line incoming) s = (Ok [], step s)"
      by (simp add: io_def read_line_def syscall_def)
    then show ?thesis using assms(2) empty by (simp add: handle_stream_def)
  next
    case utf
    then have "io (read_line incoming) s = (Ok (first_line incoming), step s)"
      by (simp add: io_def read_line_def syscall_def)
    moreover obtain msg where "from_str (env s) dec_request (first_line incoming) = Inl msg"
      using assms(1) utf by blast
    ultimately show ?thesis using assms(2) utf by (auto simp: handle_stream_def)
  next
    case bad
    then have "io (read_line incoming) s = (Err (from_io bad_utf8), step s)"
      by (simp add: io_def read_line_def syscall_def)
    moreover have "first_line incoming \<noteq> []" using bad by auto
    ultimately show ?thesis using assms(2) by (auto simp: handle_stream_def)
  qed
qed

lemma malformed_line_harmless_witness:
  "\<exists>e t. handle_stream default_config [CHR 0xC8, newline] booted = (Err e, t) \<and> t = step booted"
proof -
  let ?in = "[CHR 0xC8, newline]"
  obtain r t where run: "handle_stream default_config ?in booted = (r, t)" by fastforce
  have "\<not> utf8 (first_line ?in)" and "first_line ?in \<noteq> []"
    by (simp_all add: byte_def cont_byte_def)
  then show ?thesis using malformed_line_harmless [OF _ run] run by auto
qed

section \<open>Trash left behind\<close>

text \<open>
  Purging the trash is left to a thread; a daemon that dies first leaves the renamed directory.
  The sweep of the next daemon finds it by the mark in its name.
\<close>

lemma succeeds_sweep_entry [succeeds_intros]: "succeeds (sweep_entry base name)"
  unfolding sweep_entry_def by (intro succeeds_intros returns_intros)

lemma frame_sweep_entry [frame_intros]: "within (frame A I) (sweep_entry base name)"
  unfolding sweep_entry_def by (intro frame_intros)

lemma run_sweep_entry:
  assumes "calm (env s)"
  shows "(sweep_entry base name :: (sys, unit, 'e) act) s = (Ok (),
    (step s)\<lparr>trace := trace s @ (if utf8 name \<and> str_contains name trash_mark then [Started (PurgeTrash (base @ [name]))] else [])\<rparr>)"
  using assms by (simp add: sweep_entry_def calm_plain_call spawn_thread_def emit_def)

text \<open>The purges that a sweep of a base directory with these entries starts.\<close>

definition swept :: "path \<Rightarrow> string list \<Rightarrow> event list" where
  "swept base names =
     map (\<lambda>name. Started (PurgeTrash (base @ [name]))) (filter (\<lambda>name. utf8 name \<and> str_contains name trash_mark) names)"

lemma swept_simps [simp]:
  "swept base [] = []"
  "swept base (name # names) = (if utf8 name \<and> str_contains name trash_mark
     then Started (PurgeTrash (base @ [name])) # swept base names else swept base names)"
  by (simp_all add: swept_def)

lemma run_sweep_entries:
  assumes "calm (env s)"
  shows "\<exists>t. (forEach (sweep_entry base) names :: (sys, unit, 'e) act) s = (Ok (), t) \<and> env t = env s \<and> fs t = fs s
    \<and> tick t = tick s + length names \<and> trace t = trace s @ swept base names"
  using assms
proof (induction names arbitrary: s)
  case (Cons name names)
  let ?u = "(step s)\<lparr>trace := trace s @ (if utf8 name \<and> str_contains name trash_mark
    then [Started (PurgeTrash (base @ [name]))] else [])\<rparr>"
  have "calm (env ?u)" using Cons.prems by simp
  then obtain t where t: "(forEach (sweep_entry base) names :: (sys, unit, 'e) act) ?u = (Ok (), t)" "env t = env ?u"
    "fs t = fs ?u" "tick t = tick ?u + length names" "trace t = trace ?u @ swept base names"
    using Cons.IH by blast
  with Cons.prems show ?case by (intro exI [of _ t]) (simp add: run_sweep_entry)
qed simp

lemma run_sweep_base:
  assumes "calm (env s)" and "fs s base = Some Dir"
  shows "\<exists>t. (sweep_base base :: (sys, unit, 'e) act) s = (Ok (), t) \<and> env t = env s \<and> fs t = fs s
    \<and> tick t = tick s + 1 + length (e_listing (env s) (tick s + 1) base)
    \<and> trace t = trace s @ swept base (e_listing (env s) (tick s + 1) base)"
proof -
  have "read_dir base s = (Ok (e_listing (env s) (tick s + 1) base), step s)"
    using assms by (simp add: read_dir_def calm_syscall)
  moreover obtain t where "(forEach (sweep_entry base) (e_listing (env s) (tick s + 1) base) :: (sys, unit, 'e) act) (step s) = (Ok (), t)"
    "env t = env s" "fs t = fs s" "tick t = tick s + 1 + length (e_listing (env s) (tick s + 1) base)"
    "trace t = trace s @ swept base (e_listing (env s) (tick s + 1) base)"
    using run_sweep_entries [of "step s" base "e_listing (env s) (tick s + 1) base", where 'e = 'e] assms(1) by auto
  ultimately show ?thesis by (intro exI [of _ t]) (simp add: sweep_base_def)
qed

lemma run_sweep_trash:
  assumes "calm (env s)" and "fs s (cuttlefish_instances_dir cfg) = Some Dir"
    and "fs s (cuttlefish_assembly_dir cfg) = Some Dir"
  shows "\<exists>t. (sweep_trash cfg :: (sys, unit, 'e) act) s = (Ok (), t) \<and> trace t = trace s
    @ swept (cuttlefish_instances_dir cfg) (e_listing (env s) (tick s + 1) (cuttlefish_instances_dir cfg))
    @ swept (cuttlefish_assembly_dir cfg) (e_listing (env s)
        (tick s + 2 + length (e_listing (env s) (tick s + 1) (cuttlefish_instances_dir cfg))) (cuttlefish_assembly_dir cfg))"
proof -
  let ?l = "e_listing (env s) (tick s + 1) (cuttlefish_instances_dir cfg)"
  obtain u where u: "(sweep_base (cuttlefish_instances_dir cfg) :: (sys, unit, 'e) act) s = (Ok (), u)" "env u = env s"
    "fs u = fs s" "tick u = tick s + 1 + length ?l" "trace u = trace s @ swept (cuttlefish_instances_dir cfg) ?l"
    using run_sweep_base [OF assms(1,2), where 'e = 'e] by (elim exE conjE) (rule that)
  have "calm (env u)" "fs u (cuttlefish_assembly_dir cfg) = Some Dir" using u assms by simp_all
  from run_sweep_base [OF this, where 'e = 'e] obtain t where
    t: "(sweep_base (cuttlefish_assembly_dir cfg) :: (sys, unit, 'e) act) u = (Ok (), t)"
    "trace t = trace u @ swept (cuttlefish_assembly_dir cfg) (e_listing (env u) (tick u + 1) (cuttlefish_assembly_dir cfg))"
    by (elim exE conjE) (rule that)
  have "tick u + 1 = tick s + 2 + length ?l" using u(4) by simp
  with t u show ?thesis by (intro exI [of _ t]) (simp add: sweep_trash_def)
qed

text \<open>Preparing the directories and binding the socket leave the base directories and the trace alone.\<close>

lemma calm_create_dir:
  assumes "calm (env s)" and "ctx c (create_dir_all p) s = (Ok (), t)"
  shows "env t = env s \<and> tick t = tick s + 1 \<and> trace t = trace s \<and> (\<forall>q. fs s q = Some Dir \<longrightarrow> fs t q = Some Dir)"
  using assms by (auto simp: ctx_cases create_dir_all_def calm_syscall mkdirs_def split: if_splits)

lemma calm_ensure_dirs:
  assumes "calm (env s)" and "socket_path cfg \<noteq> []" and "ensure_dirs cfg s = (Ok (), t)"
  shows "env t = env s \<and> tick t = tick s + 3 \<and> trace t = trace s \<and> (\<forall>q. fs s q = Some Dir \<longrightarrow> fs t q = Some Dir)"
proof -
  obtain u v where u: "ctx (''creating state dir '' @ show_path (state_dir cfg)) (create_dir_all (state_dir cfg)) s = (Ok (), u)"
    and v: "ctx (''creating etc dir '' @ show_path (etc_instances_dir cfg)) (create_dir_all (etc_instances_dir cfg)) u = (Ok (), v)"
    and t: "ctx (''creating socket dir '' @ show_path (butlast (socket_path cfg)))
       (create_dir_all (butlast (socket_path cfg))) v = (Ok (), t)"
    using assms(2,3) unfolding ensure_dirs_def by (auto elim!: andThen_Ok_cases)
  note a = calm_create_dir [OF assms(1) u]
  have cu: "calm (env u)" using a assms(1) by simp
  note b = calm_create_dir [OF cu v]
  have cv: "calm (env v)" using b cu by simp
  from calm_create_dir [OF cv t] a b show ?thesis by simp
qed

lemma untraced_socket:
  "remove_file p s = (r, t) \<Longrightarrow> trace t = trace s" "bind_socket p s = (r, t) \<Longrightarrow> trace t = trace s"
  by (auto simp: remove_file_def bind_socket_def syscall_def put_file_def
      split: option.splits node.splits if_splits)

lemma set_permissions_Ok: "set_permissions p m s = (Ok (), t) \<Longrightarrow> trace t = trace s @ [ModeSet p m]"
  by (auto simp: set_permissions_def syscall_def split: option.splits if_splits)

lemma trash_name_marked:
  assumes "(make_trash_path (base @ [name]) :: path res) s = (Ok q, t)" and "ascii name"
  shows "utf8 (last q) \<and> str_contains (last q) trash_mark \<and> q = base @ [last q]"
proof -
  obtain a b where q: "q = base @ [name @ ''.__trash__.'' @ show_nat a @ ''.'' @ show_nat b]"
    using assms(1) by (auto simp: make_trash_path_def Let_def elim!: andThen_Ok_cases)
  let ?n = "name @ ''.__trash__.'' @ show_nat a @ ''.'' @ show_nat b"
  have "utf8 ?n" using assms(2) by (intro ascii_utf8) (simp add: byte_def)
  moreover have "?n = name @ trash_mark @ (show_nat a @ ''.'' @ show_nat b)" by (simp add: trash_mark_def)
  then have "str_contains ?n trash_mark" unfolding str_contains_iff by blast
  ultimately show ?thesis using q by simp
qed

text \<open>C37: A daemon that starts purges the trash an earlier one left, in both base directories.  On a
  machine without faults, once it listens it has read the two directories, has started a purge of every
  entry whose name carries the mark, and of no other one, and has set the mode of its socket.  Whatever
  the clock and the process id were, the name an earlier daemon renamed an instance directory to is such
  an entry, so the purge of that directory is among those started.\<close>

theorem trash_is_swept:
  assumes "calm (env s)" and "socket_path cfg \<noteq> []"
    and "fs s (cuttlefish_instances_dir cfg) = Some Dir" and "fs s (cuttlefish_assembly_dir cfg) = Some Dir"
    and "start_listening cfg s = (Ok (), t)"
    and "l = e_listing (env s) (tick s + 4) (cuttlefish_instances_dir cfg)"
    and "l' = e_listing (env s) (tick s + 5 + length l) (cuttlefish_assembly_dir cfg)"
  shows "trace t = trace s @ swept (cuttlefish_instances_dir cfg) l @ swept (cuttlefish_assembly_dir cfg) l'
      @ [ModeSet (socket_path cfg) 432]
    \<and> (\<forall>name q u v. ascii name \<and> (make_trash_path (cuttlefish_instances_dir cfg @ [name]) :: path res) u = (Ok q, v)
         \<and> last q \<in> set l \<longrightarrow> Started (PurgeTrash q) \<in> set (trace t))
    \<and> (\<forall>name q u v. ascii name \<and> (make_trash_path (cuttlefish_assembly_dir cfg @ [name]) :: path res) u = (Ok q, v)
         \<and> last q \<in> set l' \<longrightarrow> Started (PurgeTrash q) \<in> set (trace t))"
proof -
  obtain u where u: "ensure_dirs cfg s = (Ok (), u)" and rest: "andThen (sweep_trash cfg) (\<lambda>_.
     andThen (reading (path_exists (socket_path cfg))) (\<lambda>there.
     andThen (whenever there
       (ctx (''removing pre-existing socket '' @ show_path (socket_path cfg))
         (remove_file (socket_path cfg)))) (\<lambda>_.
     andThen (ctx (''binding socket '' @ show_path (socket_path cfg))
       (bind_socket (socket_path cfg))) (\<lambda>_.
     io (set_permissions (socket_path cfg) 432))))) u = (Ok (), t)"
    using assms(5) unfolding start_listening_def by (auto elim!: andThen_Ok_cases)
  note e = calm_ensure_dirs [OF assms(1,2) u]
  have cu: "calm (env u)" "fs u (cuttlefish_instances_dir cfg) = Some Dir" "fs u (cuttlefish_assembly_dir cfg) = Some Dir"
    using e assms by simp_all
  obtain v where v: "(sweep_trash cfg :: unit res) u = (Ok (), v)"
    "trace v = trace u @ swept (cuttlefish_instances_dir cfg) (e_listing (env u) (tick u + 1) (cuttlefish_instances_dir cfg))
    @ swept (cuttlefish_assembly_dir cfg) (e_listing (env u)
        (tick u + 2 + length (e_listing (env u) (tick u + 1) (cuttlefish_instances_dir cfg))) (cuttlefish_assembly_dir cfg))"
    using run_sweep_trash [OF cu, where 'e = anyhow] by (elim exE conjE) (rule that)
  have ticks: "tick u + 1 = tick s + 4" "tick u + 2 = tick s + 5" using e by simp_all
  have tv: "trace v = trace s @ swept (cuttlefish_instances_dir cfg) l @ swept (cuttlefish_assembly_dir cfg) l'"
    using v(2) e unfolding ticks assms(6,7) by simp
  obtain w x where "whenever (path_exists (socket_path cfg) v) (ctx (''removing pre-existing socket '' @ show_path (socket_path cfg))
         (remove_file (socket_path cfg))) v = (Ok (), w)"
    and x: "bind_socket (socket_path cfg) w = (Ok (), x)" "set_permissions (socket_path cfg) 432 x = (Ok (), t)"
    using rest v(1) by (auto elim!: andThen_Ok_cases simp: ctx_cases io_cases)
  then have "trace w = trace v"
    by (cases "path_exists (socket_path cfg) v") (auto simp: ctx_cases untraced_socket)
  then have tt: "trace t = trace s @ swept (cuttlefish_instances_dir cfg) l @ swept (cuttlefish_assembly_dir cfg) l'
      @ [ModeSet (socket_path cfg) 432]"
    using tv untraced_socket(2) [OF x(1)] set_permissions_Ok [OF x(2)] by simp
  have "Started (PurgeTrash q) \<in> set (swept base names)"
    if "ascii name" "(make_trash_path (base @ [name]) :: path res) a = (Ok q, b)" "last q \<in> set names"
    for base name q a b names
    using trash_name_marked [OF that(2,1)] that(3) by (auto simp: swept_def)
  with tt show ?thesis by auto
qed

text \<open>A machine whose instances directory holds an instance and the trash of another.\<close>

definition littered_fs :: filesystem where
  "littered_fs = (\<lambda>p. if p = socket_path default_config then None else Some Dir)"

definition littered :: sys where
  "littered = machine (quiet\<lparr>e_listing := \<lambda>_ d. if last d = ''instances'' then [''3'', ''4.__trash__.9.1''] else []\<rparr>)
     littered_fs"

lemma littered_simps:
  "calm (env littered)" "tick littered = 0" "trace littered = []" "fs littered = littered_fs"
  "e_listing (env littered) k d = (if last d = ''instances'' then [''3'', ''4.__trash__.9.1''] else [])"
  by (simp_all add: littered_def calm_def quiet_def)

lemma littered_dir:
  assumes "calm (env s)" and "fs s = littered_fs" and "\<not> prefix (socket_path default_config) p"
  shows "ctx c (create_dir_all p) s = (Ok (), step s)"
proof -
  have "create_dir_all p s = (Ok (), (step s)\<lparr>fs := mkdirs (\<lambda>_. True) p (fs s)\<rparr>)"
    using assms by (intro calm_create_dir_all) (auto simp: littered_fs_def is_file_def)
  moreover have "mkdirs (\<lambda>_. True) p (fs s) = fs s"
    using assms(2,3) by (auto simp: mkdirs_def littered_fs_def fun_eq_iff)
  moreover have "(step s)\<lparr>fs := fs s\<rparr> = step s" using calm_step_fs [OF assms(1)] by simp
  ultimately show ?thesis by (simp add: calm_ctx)
qed

lemma littered_listens: "\<exists>t. start_listening default_config littered = (Ok (), t)"
proof -
  have cfg: "socket_path default_config \<noteq> []" "\<not> prefix (socket_path default_config) (state_dir default_config)"
    "\<not> prefix (socket_path default_config) (etc_instances_dir default_config)"
    "\<not> prefix (socket_path default_config) (butlast (socket_path default_config))"
    "cuttlefish_instances_dir default_config \<noteq> socket_path default_config"
    "cuttlefish_assembly_dir default_config \<noteq> socket_path default_config"
    "butlast (socket_path default_config) \<noteq> socket_path default_config"
    by (simp_all add: default_config_def)
  let ?u = "step (step (step littered))"
  have u: "ensure_dirs default_config littered = (Ok (), ?u)"
    using cfg by (simp add: ensure_dirs_def littered_dir littered_simps)
  have cu: "calm (env ?u)" "fs ?u = littered_fs" by (simp_all add: littered_simps)
  obtain v where v: "(sweep_trash default_config :: unit res) ?u = (Ok (), v)"
    using run_sweep_trash [OF cu(1), where 'e = anyhow and cfg = default_config] cu(2) cfg by (auto simp: littered_fs_def)
  have "within (frame {} {}) (sweep_trash default_config :: unit res)"
    unfolding sweep_trash_def sweep_base_def by (intro frame_intros)
  then have "frame {} {} ?u v" using v by (rule withinD)
  then have cv: "calm (env v)" "fs v = littered_fs"
    using cu by (auto simp: frame_def calm_def)
  let ?p = "socket_path default_config"
  have "bind_socket ?p v = (Ok (), put_file ?p [] (step v))"
    using cv cfg by (simp add: bind_socket_def calm_syscall path_exists_def open_error_def littered_fs_def)
  moreover have "\<exists>t. set_permissions ?p 432 (put_file ?p [] (step v)) = (Ok (), t)"
    using cv cfg by (simp add: set_permissions_def calm_syscall path_exists_def put_file_def)
  moreover have "\<not> path_exists ?p v" using cv by (simp add: path_exists_def littered_fs_def)
  ultimately show ?thesis using u v by (auto simp: start_listening_def calm_ctx calm_io)
qed

lemma trash_is_swept_witness:
  "\<exists>t. start_listening default_config littered = (Ok (), t)
    \<and> trace t = [Started (PurgeTrash [''var'', ''lib'', ''cuttlefish'', ''instances'', ''4.__trash__.9.1'']),
        ModeSet (socket_path default_config) 432]"
proof -
  obtain t where t: "start_listening default_config littered = (Ok (), t)" using littered_listens ..
  have cfg: "cuttlefish_instances_dir default_config = [''var'', ''lib'', ''cuttlefish'', ''instances'']"
    "cuttlefish_assembly_dir default_config = [''var'', ''lib'', ''cuttlefish'', ''assembly'']"
    "socket_path default_config = [''run'', ''cfctl.sock'']"
    by (simp_all add: default_config_def)
  have "str_contains ''4.__trash__.9.1'' trash_mark" "\<not> str_contains ''3'' trash_mark" "utf8 ''4.__trash__.9.1''"
    by code_simp+
  moreover have "fs littered (cuttlefish_instances_dir default_config) = Some Dir"
    "fs littered (cuttlefish_assembly_dir default_config) = Some Dir"
    by (simp_all add: littered_simps littered_fs_def cfg)
  ultimately show ?thesis
    using trash_is_swept [OF littered_simps(1) _ _ _ t refl refl] t
    by (simp add: littered_simps cfg)
qed

end
