(* ===== verification/Cli.thy ===== *)
theory Cli
  imports Daemon
begin

text \<open>
  The command-line client \<open>cuttlefish/cfctl/src/bin/cfctl.rs\<close>: the commands as \<open>clap\<close> parses them,
  the request each becomes, the exchange with the daemon over one connection, and what the client
  prints and exits with.  Arguments are taken to be UTF-8.  The theorems compose the client with
  the daemon of \<open>Daemon\<close>.
\<close>

section \<open>Commands\<close>

datatype instance_command =
    CmdCreate "string option"
  | CmdStart instance_id bool "nat option" bool bool "string option"
  | CmdCreateStart "string option" bool "nat option" bool bool "string option"
  | CmdStop instance_id
  | CmdHold instance_id
  | CmdDestroy instance_id "nat option"
  | CmdStatus instance_id
  | CmdDescribe instance_id nat
  | CmdList
  | CmdPrune nat bool

datatype cli_command =
    CmdInstance instance_command
  | CmdDeploy instance_id "string option" "string option"
  | CmdWaitAdb instance_id "nat option"
  | CmdLogs instance_id "nat option" "nat option" bool

text \<open>The options of \<open>start\<close> and \<open>create-start\<close> as the request carries them.\<close>

definition cli_start_options ::
  "bool \<Rightarrow> nat option \<Rightarrow> bool \<Rightarrow> bool \<Rightarrow> string option \<Rightarrow> start_options"
where
  "cli_start_options disable_webrtc timeout verify skip track =
     \<lparr>so_disable_webrtc = disable_webrtc, so_timeout_secs = timeout, so_verify_boot = verify,
      so_skip_adb_wait = skip, so_track = track\<rparr>"

fun instance_request :: "instance_command \<Rightarrow> request" where
  "instance_request (CmdCreate purpose) = CreateInstance purpose"
| "instance_request (CmdStart i webrtc timeout verify skip track) =
     StartInstance i (cli_start_options webrtc timeout verify skip track)"
| "instance_request (CmdCreateStart purpose webrtc timeout verify skip track) =
     CreateStartInstance purpose (cli_start_options webrtc timeout verify skip track)"
| "instance_request (CmdStop i) = StopInstance i"
| "instance_request (CmdHold i) = HoldInstance i"
| "instance_request (CmdDestroy i timeout) = DestroyInstance i \<lparr>do_timeout_secs = timeout\<rparr>"
| "instance_request (CmdStatus i) = Status i"
| "instance_request (CmdDescribe i lns) = Describe i (Some lns)"
| "instance_request CmdList = ListInstances"
| "instance_request (CmdPrune max_age every) = (if every then PruneAll else PruneExpired max_age)"

fun cli_request :: "cli_command \<Rightarrow> anyhow + request" where
  "cli_request (CmdInstance c) = Inr (instance_request c)"
| "cli_request (CmdDeploy i boot init) =
     (if boot = None \<and> init = None then Inl (Msg ''deploy requires --boot and/or --init'')
      else Inr (Deploy \<lparr>dr_id = i, dr_boot_image = boot, dr_init_boot_image = init\<rparr>))"
| "cli_request (CmdWaitAdb i timeout) = Inr (WaitForAdb i timeout)"
| "cli_request (CmdLogs i lns timeout to_stdout) =
     Inr (Logs i lns \<lparr>lo_timeout_secs = timeout, lo_stream_stdout = to_stdout\<rparr>)"

section \<open>The exchange\<close>

text \<open>
  A connection as the client sees it: whether it can be made, whether each of the three sends
  (payload, newline, shutdown) goes through, and the bytes that come back until the daemon closes.
\<close>

record connection =
  c_connect :: "io_error option"
  c_send :: "nat \<Rightarrow> io_error option"
  c_reply :: "string \<Rightarrow> io_error + string"

definition connect_error :: "string \<Rightarrow> io_error \<Rightarrow> anyhow" where
  "connect_error sock err =
     (if io_kind err = ConnectionRefused \<or> io_kind err = NotFound then
        Msg (''Cannot connect to cfctl daemon at '' @ debug_str sock @ ''. Is the daemon running?'')
      else Msg (''connect to '' @ debug_str sock @ '': '' @ io_text err))"

definition read_error :: "io_error \<Rightarrow> anyhow" where
  "read_error err =
     (if io_kind err = UnexpectedEof \<or> io_kind err = ConnectionReset then
        Msg (''Connection to daemon was interrupted while reading response. ''
          @ ''The daemon may have crashed or been restarted.'')
      else Msg (''read response: '' @ io_text err))"

definition decode_reply :: "environ \<Rightarrow> string \<Rightarrow> anyhow + response" where
  "decode_reply e line =
     (if trim line = [] then
        Inl (Msg ''Received empty response from daemon. This may indicate a protocol error.'')
      else case from_str e dec_response line of
        Inl msg \<Rightarrow> Inl (Msg (''Failed to decode daemon response as JSON: '' @ msg
          @ ''. Response was: '' @ trim line))
      | Inr x \<Rightarrow> Inr x)"

definition reply_line :: "io_error + string \<Rightarrow> io_error + string" where
  "reply_line reply = (case reply of
       Inl err \<Rightarrow> Inl err
     | Inr bytes \<Rightarrow> if utf8 (first_line bytes) then Inr (first_line bytes) else Inl bad_utf8)"

definition send_request ::
  "environ \<Rightarrow> string \<Rightarrow> connection \<Rightarrow> request \<Rightarrow> anyhow + response"
where
  "send_request e sock c q = (case c_connect c of
       Some err \<Rightarrow> Inl (connect_error sock err)
     | None \<Rightarrow>
         let payload = e_compact e (enc_request q) in
         case c_send c 0 of
           Some err \<Rightarrow> Inl (with_ctx ''failed to send request to daemon'' err)
         | None \<Rightarrow>
         case c_send c 1 of
           Some err \<Rightarrow> Inl (with_ctx ''failed to send newline to daemon'' err)
         | None \<Rightarrow>
         case c_send c 2 of
           Some err \<Rightarrow> Inl (with_ctx ''failed to shutdown write side of connection'' err)
         | None \<Rightarrow>
         case reply_line (c_reply c (payload @ [newline])) of
           Inl err \<Rightarrow> Inl (read_error err)
         | Inr line \<Rightarrow> decode_reply e line)"

section \<open>Output and exit\<close>

datatype exit_status = Success | Failure | MainError anyhow

record cli_result =
  cl_stdout :: string
  cl_stderr :: "string list"
  cl_exit :: exit_status

text \<open>The lines \<open>emit_cleanup_feedback\<close> writes to the standard error.\<close>

definition destroy_failed_line :: "error_detail \<Rightarrow> string" where
  "destroy_failed_line d =
     ''Destroy failed: '' @ (case ed_message d of None \<Rightarrow> ''destroy failed without details'' | Some m \<Rightarrow> m)
       @ '' ('' @ ed_code d @ '')''"

definition cleanup_lines :: "cleanup_summary \<Rightarrow> string list" where
  "cleanup_lines c =
     (if cs_guest_processes_killed c then ''Destroy finished: no surviving processes.''
      else if cs_remaining_pids c = [] then ''Destroy finished: cleanup executed.''
      else ''Destroy finished: remaining processes '' @ debug_ints (cs_remaining_pids c))
     # (if cs_steps c = [] then [] else [''  Steps: '' @ str_join '' -> '' (cs_steps c)])"

definition emit_cleanup_feedback :: "response \<Rightarrow> string list" where
  "emit_cleanup_feedback x =
     (if \<not> r_ok x then
        (case r_error x of None \<Rightarrow> [] | Some d \<Rightarrow> [destroy_failed_line d])
      else case r_action x of
        None \<Rightarrow> []
      | Some action \<Rightarrow>
          (case ar_cleanup action of None \<Rightarrow> [] | Some c \<Rightarrow> cleanup_lines c))"

text \<open>The progress line of \<open>destroy\<close>: the message, a dot every two seconds, the end of the line when
  the printer is dropped.\<close>

definition progress_line :: "instance_id \<Rightarrow> nat \<Rightarrow> string" where
  "progress_line i dots = ''Destroying instance '' @ show_nat i @ replicate dots (CHR ''.'')"

definition print_response :: "environ \<Rightarrow> string list \<Rightarrow> response \<Rightarrow> cli_result" where
  "print_response e errs x =
     \<lparr>cl_stdout = e_print e (enc_response x) @ [newline], cl_stderr = errs,
      cl_exit = (if r_ok x then Success else Failure)\<rparr>"

definition main_error :: "string list \<Rightarrow> anyhow \<Rightarrow> cli_result" where
  "main_error errs err = \<lparr>cl_stdout = [], cl_stderr = errs, cl_exit = MainError err\<rparr>"

definition print_journal :: "response \<Rightarrow> cli_result" where
  "print_journal x =
     \<lparr>cl_stdout = (case r_logs x of None \<Rightarrow> []
         | Some l \<Rightarrow> (case lr_journal l of None \<Rightarrow> [] | Some journal \<Rightarrow> journal)),
      cl_stderr = [], cl_exit = Success\<rparr>"

text \<open>\<open>main\<close> after the arguments are parsed; \<open>dots\<close> is how often the progress timer went off.\<close>

definition cli_main ::
  "environ \<Rightarrow> string \<Rightarrow> connection \<Rightarrow> nat \<Rightarrow> cli_command \<Rightarrow> cli_result"
where
  "cli_main e sock c dots cmd = (case cli_request cmd of
       Inl err \<Rightarrow> main_error [] err
     | Inr q \<Rightarrow>
         let sent = send_request e sock c q in
         (case cmd of
            CmdInstance (CmdDestroy i timeout) \<Rightarrow>
              (case sent of
                 Inl err \<Rightarrow> main_error [progress_line i dots] err
               | Inr x \<Rightarrow> print_response e (progress_line i dots # emit_cleanup_feedback x) x)
          | CmdLogs i lns timeout to_stdout \<Rightarrow>
              (case sent of
                 Inl err \<Rightarrow> main_error [] err
               | Inr x \<Rightarrow> if to_stdout \<and> r_ok x then print_journal x else print_response e [] x)
          | _ \<Rightarrow>
              (case sent of Inl err \<Rightarrow> main_error [] err | Inr x \<Rightarrow> print_response e [] x)))"

section \<open>The exit status\<close>

text \<open>The exit status of the client tells whether the daemon did what was asked: it is success
  exactly when the command made a request and the daemon answered it with an ok response; a failed
  connection, a broken reply and a response that is not ok all end the client with a failure.\<close>

lemma exit_success_iff_ok:
  "cl_exit (cli_main e sock c dots cmd) = Success \<longleftrightarrow>
    (\<exists>q x. cli_request cmd = Inr q \<and> send_request e sock c q = Inr x \<and> r_ok x)"
proof (cases "cli_request cmd")
  case (Inl err)
  then show ?thesis by (simp add: cli_main_def main_error_def)
next
  case (Inr q)
  then show ?thesis
    by (cases "send_request e sock c q")
      (auto simp: cli_main_def Let_def main_error_def print_response_def print_journal_def
        split: cli_command.split instance_command.split)
qed

section \<open>Client and daemon together\<close>

text \<open>The connection of a client to a daemon in state \<open>s\<close>: what the daemon's task sends before the
  connection closes is what the client reads.\<close>

definition served :: "config \<Rightarrow> sys \<Rightarrow> connection" where
  "served cfg s = \<lparr>c_connect = None, c_send = \<lambda>_. None,
     c_reply = (\<lambda>payload. case handle_stream cfg payload s of
        (Ok (Some out), t) \<Rightarrow> Inr out | _ \<Rightarrow> Inr [])\<rparr>"

text \<open>The answer to a request: the handler's, or the text of its error.\<close>

definition answer :: "anyhow + response \<Rightarrow> response" where
  "answer r = (case r of Inr x \<Rightarrow> x | Inl err \<Rightarrow> response_error (err_string err))"

lemma first_line_line: "newline \<notin> set t \<Longrightarrow> first_line (t @ newline # r) = t @ [newline]"
  by (induction t) auto

lemma keeps_join: assumes "keeps sane Q m" shows "keeps sane Q (join m)"
  unfolding keeps_def
proof (intro allI impI)
  fix s r t
  assume s: "sane s" and run: "join m s = (r, t)"
  obtain r' where m: "m s = (r', t)" and r: "\<And>a. r = Ok a \<Longrightarrow> r' = Ok a"
    using run by (cases "m s"; cases "fst (m s)") (auto simp: join_def)
  show "sane t \<and> (\<forall>a. r = Ok a \<longrightarrow> Q a)"
    using keeps_state [OF assms s m] keeps_result [OF assms s] m r by blast
qed

lemma keeps_dispatch:
  "apart cfg \<Longrightarrow> proper_config cfg \<Longrightarrow> wf_request q \<Longrightarrow> keeps sane wf_response (dispatch cfg q)"
  unfolding dispatch_def by (intro keeps_join keeps_new_manager keeps_handle)

lemma answer_wf: "right_all wf_response r \<Longrightarrow> wf_response (answer r)"
  by (auto simp: answer_def wf_response_def response_error_def opt_all_def split: sum.splits)

lemma sent_line:
  assumes "send_response x s = (Ok out, t)"
  shows "out = e_compact (env s) (enc_response x) @ [newline]"
  using assms by (auto simp: send_response_def elim!: andThen_Ok_cases)

lemma request_line:
  assumes "codec_ok e"
  shows "first_line (e_compact e j @ [newline]) = e_compact e j @ [newline]"
    and "utf8 (e_compact e j @ [newline])" and "trim (e_compact e j @ [newline]) \<noteq> []"
  using assms first_line_line [of "e_compact e j" "[]"]
  by (auto simp: codec_ok_def utf8_newline trim_empty_iff)

lemma handle_stream_answers:
  assumes "codec_ok (env s)" and "wf_request q"
    and "handle_stream cfg (e_compact (env s) (enc_request q) @ [newline]) s = (Ok (Some out), t)"
  shows "\<exists>r u. attempt (dispatch cfg q) (step s) = (Ok r :: (anyhow + response, anyhow) outcome, u)
    \<and> out = e_compact (env u) (enc_response (answer r)) @ [newline]"
proof -
  let ?in = "e_compact (env s) (enc_request q) @ [newline]"
  have line: "first_line ?in = ?in" "utf8 ?in" using request_line [OF assms(1)] by auto
  have "e_fault (env s) (tick s) = None"
    using assms(3) by (auto simp: handle_stream_def read_line_def io_def syscall_def
        elim!: andThen_Ok_cases split: option.splits)
  then have rd: "io (read_line ?in) s = (Ok ?in, step s)"
    using line by (simp add: io_def read_line_def syscall_def)
  have "from_str (env s) dec_request ?in = Inr q" using assms(1,2) by (rule rq.from_line)
  then have "andThen (attempt (dispatch cfg q)) (\<lambda>r.
      andThen (send_response (answer r)) (\<lambda>out. ret (Some out))) (step s) = (Ok (Some out), t)"
    using assms(3) rd by (simp add: handle_stream_def Let_def answer_def)
  then obtain r u v where r: "attempt (dispatch cfg q) (step s) = (Ok r :: (anyhow + response, anyhow) outcome, u)"
    and v: "andThen (send_response (answer r)) (\<lambda>out. ret (Some out)) u = (Ok (Some out), t)"
    by (rule andThen_Ok_cases)
  from v have "\<exists>w. send_response (answer r) u = (Ok out, w)" by (auto elim!: andThen_Ok_cases)
  with r sent_line show ?thesis by blast
qed

text \<open>C5: What the client shows is what the daemon did.  When the daemon answers a well-formed
  request, the response the client decodes is exactly the one its dispatch returned, and when the
  dispatch returned an error, the error response with its text; nothing is lost, confused or
  reinterpreted on the two ways over the wire.\<close>

theorem client_receives_answer:
  assumes "apart cfg" and "proper_config cfg" and "codec_ok (env s)" and "sane s" and "wf_request q"
    and "handle_stream cfg (e_compact (env s) (enc_request q) @ [newline]) s = (Ok (Some out), t)"
  shows "\<exists>r u. attempt (dispatch cfg q) (step s) = (Ok r :: (anyhow + response, anyhow) outcome, u)
    \<and> send_request (env s) sock (served cfg s) q = Inr (answer r)"
proof -
  obtain r u where r: "attempt (dispatch cfg q) (step s) = (Ok r :: (anyhow + response, anyhow) outcome, u)"
    and out: "out = e_compact (env u) (enc_response (answer r)) @ [newline]"
    using handle_stream_answers [OF assms(3,5,6)] by blast
  have "within (frame UNIV UNIV) (attempt (dispatch cfg q) :: (sys, anyhow + response, anyhow) act)"
    by (intro fr.within_attempt frame_dispatch assms(1))
  then have "env u = env (step s)" using r by (metis frame_env withinD)
  then have e: "env u = env s" by simp
  have "sane (step s)" using assms(4) by (simp add: sane_def)
  then have "right_all wf_response r"
    using keeps_result [OF keeps_attempt [OF keeps_dispatch [OF assms(1,2,5)]] _ r] by blast
  then have wf: "wf_response (answer r)" by (rule answer_wf)
  have "from_str (env s) dec_response out = Inr (answer r)"
    unfolding out e using assms(3) wf by (rule rp.from_line)
  moreover have "first_line out = out" "utf8 out" "trim out \<noteq> []"
    using request_line [OF assms(3)] out e by auto
  ultimately have "send_request (env s) sock (served cfg s) q = Inr (answer r)"
    using assms(6) by (simp add: send_request_def served_def Let_def reply_line_def decode_reply_def)
  with r show ?thesis by blast
qed

text \<open>On a machine where no call fails, the daemon answers every request that comes back.\<close>

lemma calm_send_response:
  "calm (env s) \<Longrightarrow> \<exists>t. send_response x s = (Ok (e_compact (env s) (enc_response x) @ [newline]), t)"
  by (simp add: send_response_def calm_plain_call calm_io)

lemma calm_answered:
  assumes "apart cfg" and "calm (env s)" and "codec_ok (env s)" and "wf_request q"
    and "fst (dispatch cfg q (step s)) \<noteq> Hang"
  shows "\<exists>out t. handle_stream cfg (e_compact (env s) (enc_request q) @ [newline]) s = (Ok (Some out), t)"
proof -
  let ?in = "e_compact (env s) (enc_request q) @ [newline]"
  have rd: "io (read_line ?in) s = (Ok ?in, step s)"
    using request_line [OF assms(3)] assms(2) by (simp add: io_def read_line_def calm_syscall)
  have dec: "from_str (env s) dec_request ?in = Inr q" using assms(3,4) by (rule rq.from_line)
  obtain r u where du: "dispatch cfg q (step s) = (r, u)" by fastforce
  have "r \<noteq> Panic" using du by (auto simp: dispatch_def join_def split: prod.splits outcome.splits)
  then obtain r' where r': "attempt (dispatch cfg q) (step s) = (Ok r' :: (anyhow + response, anyhow) outcome, u)"
    using du assms(5) by (cases r) auto
  have "env u = env (step s)" using frame_env [OF withinD [OF frame_dispatch [OF assms(1)] du]] .
  then have "calm (env u)" using assms(2) by simp
  then obtain t where "send_response (answer r') u
      = (Ok (e_compact (env u) (enc_response (answer r')) @ [newline]), t)"
    using calm_send_response by blast
  then have sent: "andThen (send_response (answer r')) (\<lambda>out. ret (Some out)) u
      = (Ok (Some (e_compact (env u) (enc_response (answer r')) @ [newline])), t)"
    by simp
  have "handle_stream cfg ?in s = andThen (send_response (answer r')) (\<lambda>out. ret (Some out)) u"
    using rd dec r' by (simp add: handle_stream_def Let_def answer_def)
  with sent show ?thesis by auto
qed

lemma returns_dispatch_status: "fst (dispatch cfg (Status i) s) \<noteq> Hang"
proof -
  have "returns (new_manager (handle cfg (Status i)))"
    unfolding handle.simps status_def by (intro returns_intros)
  then show ?thesis
    by (cases rule: returns_cases [of _ s]) (simp_all add: dispatch_def join_def)
qed

lemma client_receives_answer_witness:
  "\<exists>r u. attempt (dispatch default_config (Status 3)) (step booted) = (Ok r :: (anyhow + response, anyhow) outcome, u)
    \<and> send_request booted_env ''/run/cfctl.sock'' (served default_config booted) (Status 3) = Inr (answer r)"
proof -
  have codec: "codec_ok (env booted)" and wf: "wf_request (Status 3)" by (simp_all add: u64_def)
  obtain out t where "handle_stream default_config
      (e_compact (env booted) (enc_request (Status 3)) @ [newline]) booted = (Ok (Some out), t)"
    using calm_answered [OF apart_default _ codec wf returns_dispatch_status] by auto
  moreover have "sane booted" using booted_lawful [of default_config] by (simp add: sane_def lawful_def)
  ultimately show ?thesis
    using client_receives_answer [OF apart_default proper_default codec _ wf] by simp
qed

end
