(* ===== verification/Lifecycle.thy ===== *)
theory Lifecycle
  imports Daemon
begin

text \<open>
  What the handlers of \<open>InstanceManager\<close> promise for the life of an instance: creation, the guards
  of a start, holding, stopping, destroying, the end of a guest, and what pruning and listing may
  and may not do.  The handlers read a record, change it and write it back; their effect on the
  disk is stated on the abstract view \<open>stored\<close> of \<open>Store\<close>.
\<close>

section \<open>Runs of a body\<close>

lemma good_clock: "good cfg s \<Longrightarrow> clock_ok (env s)"
  by (simp add: good_def lawful_def)

lemma good_epoch:
  assumes "good cfg s" and "epoch_secs s = (Ok t, u)"
  shows "u64 t" and "good cfg u" and "stored cfg u = stored cfg s"
  using epoch_u64 [OF good_clock [OF assms(1)] assms(2)] good_still [OF epoch_frame [OF assms(2)] assms(1)] by blast+

lemma good_metadata:
  assumes "good cfg s" and "metadata cfg i s = (Ok m, u)"
  shows "stored cfg s i = Some m" and "wf_metadata m" and "good cfg u" and "stored cfg u = stored cfg s"
  using ms.load_Ok [OF assms] ms.load_keeps [OF assms] by blast+

lemma save_then:
  assumes "good cfg s" and "wf_metadata m"
    and "andThen (write_metadata (paths cfg i) m) (\<lambda>_. andThen (cache_insert i m) k) s = (Ok x, t)"
  shows "\<exists>u. good cfg u \<and> stored cfg u = (stored cfg s)(i := Some m) \<and> frame (away cfg i) {i} s u
    \<and> registry u = registry s \<and> k () u = (Ok x, t)"
proof -
  obtain v where w: "write_metadata (paths cfg i) m s = (Ok (), v)"
    and k: "k () (v\<lparr>cache := (cache v)(i := Some m)\<rparr>) = (Ok x, t)"
    using assms(3) by (auto simp: cache_insert_def elim!: andThen_Ok_cases)
  let ?u = "v\<lparr>cache := (cache v)(i := Some m)\<rparr>"
  have sv: "save_metadata cfg i m s = (Ok (), ?u)"
    using w by (simp add: save_metadata_def cache_insert_def)
  have "within (frame (away cfg i) {i}) (save_metadata cfg i m)"
    unfolding save_metadata_def by (intro frame_intros) simp
  then have "frame (away cfg i) {i} s ?u" using sv by (rule withinD)
  moreover have "registry v = registry s"
    using frame_registry [OF write_metadata_frame [OF w]] by auto
  ultimately show ?thesis using ms.save_Ok [OF assms(1,2) sv] k by auto
qed

section \<open>Holding\<close>

definition held_at :: "nat \<Rightarrow> instance_metadata \<Rightarrow> instance_metadata" where
  "held_at t m = m\<lparr>im_held := True, im_updated_at := t\<rparr>"

text \<open>Holding an instance sets the held mark and the time stamp of its metadata on disk and
  changes nothing else there; the response is the summary of the new metadata.\<close>

lemma hold_instance_effect:
  assumes "good cfg s" and "hold_instance cfg i s = (Ok r, t)"
  shows "\<exists>m tm. stored cfg s i = Some m \<and> stored cfg t = (stored cfg s)(i := Some (held_at tm m))
    \<and> r = plain_action (summary (held_at tm m) (adb_host cfg)) \<and> registry t = registry s"
proof -
  obtain m u tm v where m: "metadata cfg i s = (Ok m, u)" and tm: "epoch_secs u = (Ok tm, v)"
    and k: "andThen (write_metadata (paths cfg i) (held_at tm m)) (\<lambda>_.
      andThen (cache_insert i (held_at tm m)) (\<lambda>_.
      ret (plain_action (summary (held_at tm m) (adb_host cfg))))) v = (Ok r, t)"
    using assms(2) unfolding hold_instance_def Let_def held_at_def
    by - (erule andThen_Ok_cases, erule andThen_Ok_cases, blast)
  note gm = good_metadata [OF assms(1) m] and ge = good_epoch [OF good_metadata(3) [OF assms(1) m] tm]
  have "wf_metadata (held_at tm m)" using gm(2) ge(1) by (simp add: held_at_def)
  from save_then [OF ge(2) this k] gm ge
  have "stored cfg t = (stored cfg s)(i := Some (held_at tm m)) \<and> registry t = registry v
    \<and> r = plain_action (summary (held_at tm m) (adb_host cfg))" by auto
  moreover have "registry v = registry s"
    by (rule trans [OF still_registry [OF epoch_frame [OF tm]] still_registry [OF metadata_frame [OF m]]])
  ultimately show ?thesis using gm(1) by (intro exI [of _ m] exI [of _ tm]) simp
qed

lemma hold_instance_effect_witness:
  "\<exists>r t tm. hold_instance default_config 3 booted = (Ok r, t)
    \<and> stored default_config t 3 = Some (held_at tm (sample_metadata 3))"
proof -
  let ?u = "step (step booted)"
  let ?m = "(sample_metadata 3)\<lparr>im_held := True, im_updated_at := 1000\<rparr>"
  have "epoch_secs ?u = (Ok 1000, step ?u)" by (simp add: epoch_secs_def)
  moreover have "writable default_config (step ?u) 3"
    using booted_writable by (simp add: writable_def del: paths_simps)
  then obtain v where "write_metadata (paths default_config 3) ?m (step ?u) = (Ok (), v)"
    using calm_write_metadata [of "step ?u" default_config 3] by auto
  ultimately have "\<exists>r t. hold_instance default_config 3 booted = (Ok r, t)"
    by (simp add: hold_instance_def booted_loads Let_def cache_insert_def)
  then obtain r t where run: "hold_instance default_config 3 booted = (Ok r, t)" by blast
  from hold_instance_effect [OF booted_good run] run booted_stored show ?thesis by auto
qed

section \<open>What pruning spares\<close>

text \<open>
  An instance is spared when every walk of the instances passes over it: it is held, or, for the
  pruning of expired instances, younger than the age asked for at every reading of the clock.
\<close>

fun spared :: "environ \<Rightarrow> request \<Rightarrow> instance_metadata \<Rightarrow> bool" where
  "spared e PruneAll m = im_held m"
| "spared e (PruneExpired max_age) m =
     (im_held m \<or> (\<forall>n tm. e_system e n = Some tm \<longrightarrow> tm - max_age < im_updated_at m))"
| "spared e q m = False"

definition untouched :: "config \<Rightarrow> instance_id \<Rightarrow> sys \<Rightarrow> sys \<Rightarrow> bool" where
  "untouched cfg j s t \<longleftrightarrow> env t = env s \<and> registry t j = registry s j
     \<and> (\<forall>p. prefix (ip_root (paths cfg j)) p \<longrightarrow> e_area (env s) p \<or> fs t p = fs s p)"

lemma untouched_refl: "untouched cfg j s s"
  by (simp add: untouched_def)

lemma untouched_trans: "untouched cfg j s t \<Longrightarrow> untouched cfg j t u \<Longrightarrow> untouched cfg j s u"
  unfolding untouched_def by metis

text \<open>The metadata of instance \<open>j\<close> are \<open>m\<close>, on disk and in the cache.\<close>

definition has_metadata :: "config \<Rightarrow> instance_id \<Rightarrow> instance_metadata \<Rightarrow> sys \<Rightarrow> bool" where
  "has_metadata cfg j m s \<longleftrightarrow> undisturbed cfg (env s) \<and> stored cfg s j = Some m
     \<and> (cache s j = None \<or> cache s j = Some m)"

definition kept_at :: "config \<Rightarrow> instance_id \<Rightarrow> instance_metadata \<Rightarrow> sys \<Rightarrow> sys \<Rightarrow> bool" where
  "kept_at cfg j m s t \<longleftrightarrow> (has_metadata cfg j m s \<longrightarrow> has_metadata cfg j m t \<and> untouched cfg j s t)"

interpretation ka: effect "kept_at cfg j m" for cfg j m
  by unfold_locales (auto simp: kept_at_def untouched_refl intro: untouched_trans)

lemma kept_at_frame:
  assumes "frame (away cfg i) {i} s t" and "i \<noteq> j" shows "kept_at cfg j m s t"
proof -
  have "p \<notin> away cfg i" if "prefix (ip_root (paths cfg j)) p" for p
    using tree_away_iff [OF tree_root_below [OF that], of i] assms(2) by simp
  then have "untouched cfg j s t"
    using frame_registry [OF assms(1), of j] frame_fs [OF assms(1)] frame_env [OF assms(1)] assms(2)
    by (auto simp: untouched_def)
  moreover have "has_metadata cfg j m s \<Longrightarrow> has_metadata cfg j m t"
    using stored_away [OF assms(1), of j] frame_cache [OF assms(1), of j] frame_env [OF assms(1)] assms(2)
    by (auto simp: has_metadata_def)
  ultimately show ?thesis by (simp add: kept_at_def)
qed

lemma kept_at_still: assumes "frame {} {} s t" shows "kept_at cfg j m s t"
proof -
  obtain i where "i \<noteq> j" using n_not_Suc_n by metis
  moreover have "frame (away cfg i) {i} s t" by (rule frame_mono [OF assms]) simp_all
  ultimately show ?thesis by (rule kept_at_frame [rotated])
qed

lemma kept_still: "within (frame {} {}) a \<Longrightarrow> within (kept_at cfg j m) a"
  by (simp add: within_def kept_at_still)

lemma prune_instance_keeps:
  assumes "apart cfg" and "i \<noteq> j" shows "within (kept_at cfg j m) (prune_instance cfg i)"
proof (rule withinI)
  fix s
  have "within (frame (away cfg i) {i}) (prune_instance cfg i)" by (intro frame_intros assms) simp
  then show "kept_at cfg j m s (snd (prune_instance cfg i s))"
    unfolding within_def by (rule allE) (rule kept_at_frame [OF _ assms(2)])
qed

text \<open>After the metadata of instance \<open>j\<close> were read, the walk goes on to \<open>f\<close> with them.\<close>

lemma after_metadata:
  assumes "metadata cfg j u = (Ok m', v)" and "has_metadata cfg j m u" shows "m' = m"
proof -
  have "stored cfg u j = Some m'"
    using assms(2) by (intro metadata_Ok_at [OF _ _ assms(1)]) (auto simp: has_metadata_def)
  then show ?thesis using assms(2) by (simp add: has_metadata_def)
qed

lemma walk_entry:
  assumes "\<And>i m'. i \<noteq> j \<or> m' = m \<Longrightarrow> within (kept_at cfg j m) (f i m')"
  shows "within (kept_at cfg j m)
    (andThen (io plain_call) (\<lambda>_. andThen (reading (entry_id cfg name)) (\<lambda>found. case found of
         None \<Rightarrow> ret c
       | Some i \<Rightarrow> andThen (attempt (metadata cfg i)) (\<lambda>r. case r of
             Inl err \<Rightarrow> ret c | Inr m' \<Rightarrow> f i m'))))"
proof -
  have body: "within (kept_at cfg j m) (andThen (attempt (metadata cfg i)) (\<lambda>r. case r of
      Inl err \<Rightarrow> ret c | Inr m' \<Rightarrow> f i m'))" for i
  proof (rule withinI)
    fix u
    let ?b = "andThen (attempt (metadata cfg i)) (\<lambda>r. case r of Inl err \<Rightarrow> ret c | Inr m' \<Rightarrow> f i m')"
    obtain r v where mv: "metadata cfg i u = (r, v)" by fastforce
    have uv: "kept_at cfg j m u v" by (rule kept_at_still [OF metadata_frame [OF mv]])
    show "kept_at cfg j m u (snd (?b u))"
    proof (cases r)
      case (Ok m')
      then have b: "?b u = f i m' v" using mv by simp
      show ?thesis
      proof (cases "i \<noteq> j \<or> m' = m")
        case True
        then have "kept_at cfg j m v (snd (f i m' v))" using assms by (simp add: within_def)
        then show ?thesis using b uv ka.chain by metis
      next
        case False
        with mv Ok have "\<not> has_metadata cfg j m u" using after_metadata by blast
        then show ?thesis by (simp add: kept_at_def)
      qed
    qed (use mv uv in \<open>simp_all\<close>)
  qed
  show ?thesis
    by (intro ka.within_andThen ka.within_reading ka.within_option ka.within_ret body kept_still frame_intros)
qed

lemma prune_all_entry_keeps:
  assumes "apart cfg" and "im_held m" shows "within (kept_at cfg j m) (prune_all_entry cfg c name)"
  unfolding prune_all_entry_def
proof (rule walk_entry)
  fix i m'
  assume "i \<noteq> j \<or> m' = m"
  then show "within (kept_at cfg j m) (if im_state m' = Destroyed then ret c
      else if im_held m' then ret (case c of (pruned, retained) \<Rightarrow> (pruned, Suc retained))
      else andThen (attempt (prune_instance cfg i)) (\<lambda>r. ret (count_pruned c r)))"
    using assms by (auto intro!: ka.within_intros prune_instance_keeps)
qed

lemma prune_expired_entry_keeps:
  assumes "apart cfg" and "im_held m \<or> im_updated_at m > cutoff"
  shows "within (kept_at cfg j m) (prune_expired_entry cfg cutoff c name)"
  unfolding prune_expired_entry_def
proof (rule walk_entry)
  fix i m'
  assume "i \<noteq> j \<or> m' = m"
  then show "within (kept_at cfg j m) (if im_state m' = Destroyed then ret c
      else if im_held m' then ret c
      else if im_updated_at m' > cutoff then ret c
      else andThen (attempt (prune_instance cfg i)) (\<lambda>r. ret (count_pruned c r)))"
    using assms by (auto intro!: ka.within_intros prune_instance_keeps)
qed

lemma prune_all_keeps:
  assumes "apart cfg" and "im_held m" shows "within (kept_at cfg j m) (prune_all_instances cfg)"
  unfolding prune_all_instances_def
  by (intro ka.within_andThen ka.within_option ka.within_ret ka.within_foldM
      prune_all_entry_keeps assms kept_still frame_intros)

lemma prune_expired_keeps:
  assumes "apart cfg" and "spared (env s) (PruneExpired n) m"
    and "prune_expired_instances cfg n s = (r, t)"
  shows "kept_at cfg j m s t"
proof -
  obtain r1 u where e: "instance_entries cfg s = (r1, u)" by fastforce
  have fu: "frame {} {} s u" by (rule withinD [OF frame_instance_entries e])
  note su = kept_at_still [OF fu]
  show ?thesis
  proof (cases "\<exists>names tm v. r1 = Ok (Some names) \<and> epoch_secs u = (Ok tm, v)")
    case True
    then obtain names tm v where r1: "r1 = Ok (Some names)" and tm: "epoch_secs u = (Ok tm, v)" by blast
    have "e_system (env s) (tick u) = Some tm"
      using tm frame_env [OF fu] by (auto simp: epoch_secs_def split: option.splits)
    then have young: "im_held m \<or> im_updated_at m > tm - n" using assms(2) by auto
    have "within (kept_at cfg j m) (foldM (prune_expired_entry cfg (tm - n)) (0, 0) names)"
      by (intro ka.within_foldM prune_expired_entry_keeps assms(1) young)
    moreover have "foldM (prune_expired_entry cfg (tm - n)) (0, 0) names v = (r, t)"
      using assms(3) e r1 tm by (simp add: prune_expired_instances_def)
    ultimately have "kept_at cfg j m v t" by (rule withinD)
    then show ?thesis using su kept_at_still [OF epoch_frame [OF tm]] ka.chain by metis
  next
    case False
    then have "t = u \<or> (\<exists>x. epoch_secs u = (x, t))"
      using assms(3) e
      by (cases r1; cases "epoch_secs u"; cases "fst (epoch_secs u)")
        (auto simp: prune_expired_instances_def split: option.splits)
    then show ?thesis using su kept_at_still epoch_frame ka.chain by metis
  qed
qed

text \<open>C8: Pruning spares what it must: an instance that is held is left alone by both kinds of
  pruning, and the pruning of expired instances also leaves alone every instance younger than the
  age asked for.  Its metadata, every file in its directory and its registry entry are after the
  request what they were before, whatever happens to the other instances.\<close>

theorem prune_spares:
  assumes "apart cfg" and "undisturbed cfg (env s)" and "stored cfg s j = Some m"
    and "spared (env s) q m" and "dispatch cfg q s = (r, t)"
  shows "stored cfg t j = Some m \<and> registry t j = registry s j
    \<and> (\<forall>p. prefix (ip_root (paths cfg j)) p \<longrightarrow> e_area (env s) p \<or> fs t p = fs s p)"
proof -
  let ?e = "s\<lparr>cache := \<lambda>_. None\<rparr>"
  obtain r' u where h: "handle cfg q ?e = (r', u)" by fastforce
  have "kept_at cfg j m ?e u"
  proof (cases q)
    case PruneAll
    then have "within (kept_at cfg j m) (handle cfg q)"
      using assms(1,4) by (auto intro!: ka.within_intros prune_all_keeps)
    then show ?thesis using h by (rule withinD)
  next
    case (PruneExpired n)
    obtain x v where x: "prune_expired_instances cfg n ?e = (x, v)" by fastforce
    have "spared (env ?e) (PruneExpired n) m" using assms(4) PruneExpired by simp
    then have "kept_at cfg j m ?e v" by (rule prune_expired_keeps [OF assms(1) _ x])
    moreover have "u = v" using h x PruneExpired by (cases x) auto
    ultimately show ?thesis by simp
  qed (use assms(4) in simp_all)
  moreover have "has_metadata cfg j m ?e" using assms(2,3) by (simp add: has_metadata_def)
  ultimately have "has_metadata cfg j m u" "untouched cfg j ?e u" by (simp_all add: kept_at_def)
  moreover have "t = u\<lparr>cache := cache s\<rparr>"
    using assms(5) h by (cases r') (auto simp: dispatch_def join_def new_manager_def)
  ultimately show ?thesis by (simp add: has_metadata_def untouched_def)
qed

lemma prune_spares_witness:
  "\<exists>r t. dispatch default_config (PruneExpired 996) booted = (r, t)
    \<and> stored default_config t 3 = Some (sample_metadata 3) \<and> registry t 3 = Some 0"
proof -
  obtain r t where run: "dispatch default_config (PruneExpired 996) booted = (r, t)" by fastforce
  have "spared (env booted) (PruneExpired 996) (sample_metadata 3)" by (simp add: sample_metadata_def)
  from prune_spares [OF apart_default _ booted_stored this run] run show ?thesis
    by (simp add: calm_undisturbed)
qed

section \<open>Starting\<close>

text \<open>C40: A start is refused before anything happens when its options contradict each other or the
  instance has a guest already: no file, no process and no registry entry changes, and the error
  says which.\<close>

theorem start_refused:
  assumes "so_skip_adb_wait opts \<and> so_verify_boot opts \<or> registry s i \<noteq> None"
  shows "\<exists>d. start_instance cfg i opts s = (Err d, s)
    \<and> ed_code d = (if so_skip_adb_wait opts \<and> so_verify_boot opts then ''start_instance_invalid_options''
        else ''start_instance_already_running'')"
  using assms by (auto simp: start_instance_def registry_contains_def mk_error_def)

lemma start_refused_witness:
  "\<exists>d. start_instance default_config 3 default_start_options booted = (Err d, booted)
    \<and> ed_code d = ''start_instance_already_running''"
  using start_refused [of default_start_options booted 3 default_config]
  by (simp add: default_start_options_def)

text \<open>An operation is \<open>settled\<close> when it leaves the metadata of all instances as they are.\<close>

definition settled :: "config \<Rightarrow> sys \<Rightarrow> sys \<Rightarrow> bool" where
  "settled cfg s t \<longleftrightarrow> (good cfg s \<longrightarrow> good cfg t \<and> stored cfg t = stored cfg s)"

interpretation se: effect "settled cfg" for cfg
  by unfold_locales (auto simp: settled_def)

lemma settled_frame:
  assumes "frame A {} s t" and "\<And>i. ip_metadata (paths cfg i) \<notin> A" shows "settled cfg s t"
  unfolding settled_def
proof
  assume g: "good cfg s"
  have st: "stored cfg t = stored cfg s"
    by (rule ext) (rule stored_frame [OF assms(1) good_undisturbed [OF g] assms(2)])
  have "cache t = cache s" using frame_cache [OF assms(1)] by auto
  then show "good cfg t \<and> stored cfg t = stored cfg s"
    using g st frame_env [OF assms(1)] by (simp add: good_def coherent_def)
qed

lemma settled_outside: "within (frame (outside cfg) {}) m \<Longrightarrow> within (settled cfg) m"
  unfolding within_def
proof (intro allI)
  fix s
  assume f: "\<forall>s. frame (outside cfg) {} s (snd (m s))"
  have "ip_metadata (paths cfg i) \<notin> outside cfg" for i
    using tree_paths(1) [OF prefix_order.order_refl, of cfg i] by (auto simp: outside_def simp del: paths_simps)
  with f show "settled cfg s (snd (m s))" using settled_frame by blast
qed

lemma settled_still: "within (frame {} {}) m \<Longrightarrow> within (settled cfg) m"
  by (rule settled_outside) (erule within_frame_mono; simp)

lemma settled_run_log: "within (settled cfg) (prepare_run_log (paths cfg i))"
proof -
  let ?A = "{q. prefix q (ip_root (paths cfg i))} \<union> {ip_run_log (paths cfg i)}"
  have "within (frame ?A {}) (prepare_run_log (paths cfg i))"
  proof -
    have "butlast (ip_run_log (paths cfg i)) = ip_root (paths cfg i)" by (simp add: butlast_append)
    then show ?thesis
      unfolding prepare_run_log_def by (simp only:) (intro frame_intros; blast)
  qed
  moreover have "ip_metadata (paths cfg j) \<notin> ?A" for j by (auto simp: prefix_def)
  ultimately show ?thesis unfolding within_def using settled_frame by blast
qed

lemma settled_registry: "within (settled cfg) (registry_insert i a)" "within (settled cfg) (new_handle pid)"
proof -
  have "settled cfg s (s\<lparr>registry := r\<rparr>)" "settled cfg s (s\<lparr>handles := h, next_handle := n\<rparr>)" for s r h n
    by (auto simp: settled_def good_def coherent_def stored_def)
  then show "within (settled cfg) (registry_insert i a)" "within (settled cfg) (new_handle pid)"
    by (simp_all add: within_def registry_insert_def new_handle_def set_handle_def)
qed

lemma settledE:
  assumes "andThen m k s = (Ok x, t)" and "within (settled cfg) m" and "good cfg s"
  obtains a u where "m s = (Ok a, u)" and "good cfg u" and "stored cfg u = stored cfg s"
    and "k a u = (Ok x, t)"
proof -
  obtain a u where "m s = (Ok a, u)" "k a u = (Ok x, t)" using assms(1) by (rule andThen_Ok_cases)
  moreover from withinD [OF assms(2) this(1)] assms(3) have "good cfg u \<and> stored cfg u = stored cfg s"
    by (simp add: settled_def)
  ultimately show thesis using that by blast
qed

lemma det_Ok [simp]: "det c m s = (Ok a, t) \<longleftrightarrow> m s = (Ok a, t)"
  by (simp add: det_cases)

text \<open>Writing the metadata with a new state, whatever comes between the write and the cache.\<close>

definition running_at :: "nat \<Rightarrow> instance_metadata \<Rightarrow> instance_metadata" where
  "running_at t m = m\<lparr>im_state := Running, im_updated_at := t\<rparr>"

lemma start_skip_adb_Ok:
  assumes "good cfg s" and "start_skip_adb cfg i a s = (Ok r, t)"
  shows "\<exists>m tm. stored cfg s i = Some m \<and> stored cfg t = (stored cfg s)(i := Some (running_at tm m))
    \<and> ar_summary r = summary (running_at tm m) (adb_host cfg) \<and> registry t = registry s
    \<and> last (trace t) = Started (ExitWatcher i a)"
proof -
  obtain m u where m: "metadata cfg i s = (Ok m, u)"
    and k1: "andThen (det ''start_instance_timestamp_after_skip'' epoch_secs) (\<lambda>tm.
      andThen (det ''start_instance_write_metadata_after_skip'' (write_metadata (paths cfg i) (running_at tm m))) (\<lambda>_.
      andThen (cache_insert i (running_at tm m)) (\<lambda>_.
      andThen (spawn_exit_watcher i a) (\<lambda>_.
      ret (plain_action (summary (running_at tm m) (adb_host cfg))))))) u = (Ok r, t)"
    using assms(2) unfolding start_skip_adb_def Let_def running_at_def
    by - (erule andThen_Ok_cases, simp)
  obtain tm v where tm: "epoch_secs u = (Ok tm, v)"
    and k2: "andThen (det ''start_instance_write_metadata_after_skip'' (write_metadata (paths cfg i) (running_at tm m))) (\<lambda>_.
      andThen (cache_insert i (running_at tm m)) (\<lambda>_.
      andThen (spawn_exit_watcher i a) (\<lambda>_.
      ret (plain_action (summary (running_at tm m) (adb_host cfg)))))) v = (Ok r, t)"
    using k1 by - (erule andThen_Ok_cases, simp)
  note gm = good_metadata [OF assms(1) m] and ge = good_epoch [OF good_metadata(3) [OF assms(1) m] tm]
  obtain w where w: "save_metadata cfg i (running_at tm m) v = (Ok (), w)"
    and k3: "(andThen (spawn_exit_watcher i a) (\<lambda>_.
      ret (plain_action (summary (running_at tm m) (adb_host cfg)))) :: action_response det) w = (Ok r, t)"
    using save_metadata_assoc [OF k2] by (elim exE conjE) (rule that)
  have wf: "wf_metadata (running_at tm m)" using gm(2) ge(1) by (simp add: running_at_def)
  have sw: "stored cfg w = (stored cfg s)(i := Some (running_at tm m))"
    using ms.save_Ok [OF ge(2) wf w] ge(3) gm(4) by simp
  have "t = w\<lparr>trace := trace w @ [Started (ExitWatcher i a)]\<rparr>"
    and "r = plain_action (summary (running_at tm m) (adb_host cfg))"
    using k3 by (auto simp: spawn_exit_watcher_def spawn_thread_def emit_def)
  moreover from this have "stored cfg t = stored cfg w" by (simp add: stored_def fun_eq_iff)
  moreover have "registry w = registry s"
    using save_metadata_registry [OF w] still_registry [OF epoch_frame [OF tm]]
      still_registry [OF metadata_frame [OF m]] by simp
  ultimately show ?thesis
    using gm(1) sw by (intro exI [of _ m] exI [of _ tm]) (simp add: plain_action_def)
qed

end
