(* ===== verification/InstanceLocks.thy ===== *)
theory InstanceLocks
  imports Main
begin

text \<open>
  The instance locks of \<open>cuttlefish/cfctl/src/daemon/mod.rs\<close>: \<open>lock_instance\<close>, the life of the guard
  in \<open>dispatch\<close>, and \<open>cleanup_instance_lock\<close>, as the steps that concurrent requests take.  The table
  maps an instance to its lock; a lock is shared by the table and by every request that waits for it
  or holds it (\<open>Arc::strong_count\<close>).  A request is one entry of the list of tasks: the instance it is
  about and how far it has come.  Requests without an instance take no part.
\<close>

section \<open>Tasks and locks\<close>

datatype lock_pc = Waiting nat | Holding nat | Finishing | Checked | Gone

record locks =
  lk_table :: "nat \<Rightarrow> nat option"
  lk_owner :: "nat \<Rightarrow> nat option"
  lk_next :: nat
  lk_tasks :: "(nat \<times> lock_pc) list"

datatype lock_action =
    Arrive nat
  | Acquire nat
  | FinishOk nat
  | FinishErr nat
  | Check nat
  | Remove nat

definition no_locks :: locks where
  "no_locks = \<lparr>lk_table = \<lambda>_. None, lk_owner = \<lambda>_. None, lk_next = 0, lk_tasks = []\<rparr>"

text \<open>The references to a lock: that of the table, and one for each task that waits for it or holds
  it.\<close>

definition uses_lock :: "nat \<Rightarrow> nat \<times> lock_pc \<Rightarrow> bool" where
  "uses_lock a p \<longleftrightarrow> snd p = Waiting a \<or> snd p = Holding a"

definition strong_count :: "nat \<Rightarrow> locks \<Rightarrow> nat" where
  "strong_count a s = Suc (length (filter (uses_lock a) (lk_tasks s)))"

definition task :: "nat \<Rightarrow> locks \<Rightarrow> (nat \<times> lock_pc) option" where
  "task t s = (if t < length (lk_tasks s) then Some (lk_tasks s ! t) else None)"

definition set_task :: "nat \<Rightarrow> nat \<times> lock_pc \<Rightarrow> locks \<Rightarrow> locks" where
  "set_task t p s = s\<lparr>lk_tasks := (lk_tasks s)[t := p]\<rparr>"

text \<open>
  \<open>Arrive\<close>: the entry of the table is found or made and its lock cloned.  \<open>Acquire\<close>: the mutex is free.
  \<open>FinishOk\<close>, \<open>FinishErr\<close>: the handler has returned and dropped the guard; after an error or a panic
  \<open>dispatch\<close> returns at once and never cleans up.  \<open>Check\<close>: the reference count of the table's entry is
  read; \<open>Remove\<close>: the entry, whatever it is by then, is removed.
\<close>

fun fire :: "lock_action \<Rightarrow> locks \<Rightarrow> locks option" where
  "fire (Arrive i) s = (case lk_table s i of
       Some a \<Rightarrow> Some (s\<lparr>lk_tasks := lk_tasks s @ [(i, Waiting a)]\<rparr>)
     | None \<Rightarrow> Some (s\<lparr>lk_table := (lk_table s)(i := Some (lk_next s)), lk_next := Suc (lk_next s),
         lk_tasks := lk_tasks s @ [(i, Waiting (lk_next s))]\<rparr>))"
| "fire (Acquire t) s = (case task t s of
       Some (i, Waiting a) \<Rightarrow>
         if lk_owner s a = None then
           Some (set_task t (i, Holding a) (s\<lparr>lk_owner := (lk_owner s)(a := Some t)\<rparr>))
         else None
     | _ \<Rightarrow> None)"
| "fire (FinishOk t) s = (case task t s of
       Some (i, Holding a) \<Rightarrow> Some (set_task t (i, Finishing) (s\<lparr>lk_owner := (lk_owner s)(a := None)\<rparr>))
     | _ \<Rightarrow> None)"
| "fire (FinishErr t) s = (case task t s of
       Some (i, Holding a) \<Rightarrow> Some (set_task t (i, Gone) (s\<lparr>lk_owner := (lk_owner s)(a := None)\<rparr>))
     | _ \<Rightarrow> None)"
| "fire (Check t) s = (case task t s of
       Some (i, Finishing) \<Rightarrow>
         (case lk_table s i of
            None \<Rightarrow> Some (set_task t (i, Gone) s)
          | Some a \<Rightarrow> Some (set_task t (i, if strong_count a s = 1 then Checked else Gone) s))
     | _ \<Rightarrow> None)"
| "fire (Remove t) s = (case task t s of
       Some (i, Checked) \<Rightarrow> Some (set_task t (i, Gone) (s\<lparr>lk_table := (lk_table s)(i := None)\<rparr>))
     | _ \<Rightarrow> None)"

text \<open>The states reached by steps that \<open>ok\<close> allows.\<close>

inductive reached :: "(locks \<Rightarrow> lock_action \<Rightarrow> bool) \<Rightarrow> locks \<Rightarrow> bool" for ok where
  start: "reached ok no_locks"
| step: "reached ok s \<Longrightarrow> ok s x \<Longrightarrow> fire x s = Some t \<Longrightarrow> reached ok t"

text \<open>All interleavings; those in which nobody asks for an instance between the check and the removal
  of its entry; and those in which no handler fails.\<close>

fun undisturbed_step :: "locks \<Rightarrow> lock_action \<Rightarrow> bool" where
  "undisturbed_step s (Arrive i) = ((i, Checked) \<notin> set (lk_tasks s))"
| "undisturbed_step s x = True"

fun no_failure :: "locks \<Rightarrow> lock_action \<Rightarrow> bool" where
  "no_failure s (FinishErr t) = False"
| "no_failure s x = True"

section \<open>Steps\<close>

lemma task_Some: "task t s = Some p \<longleftrightarrow> t < length (lk_tasks s) \<and> lk_tasks s ! t = p"
  by (auto simp: task_def)

lemma task_set_task [simp]:
  "task u (set_task t p s) = (if u = t \<and> t < length (lk_tasks s) then Some p else task u s)"
  by (auto simp: task_def set_task_def)

lemma set_task_simps [simp]:
  "lk_table (set_task t p s) = lk_table s" "lk_owner (set_task t p s) = lk_owner s"
  "lk_next (set_task t p s) = lk_next s" "length (lk_tasks (set_task t p s)) = length (lk_tasks s)"
  by (simp_all add: set_task_def)

lemma task_tables [simp]:
  "task t (s\<lparr>lk_table := f\<rparr>) = task t s" "task t (s\<lparr>lk_owner := g\<rparr>) = task t s"
  by (simp_all add: task_def)

lemma in_tasks: "p \<in> set (lk_tasks s) \<longleftrightarrow> (\<exists>t. task t s = Some p)"
  by (auto simp: task_def in_set_conv_nth)

lemma task_append:
  "task t (s\<lparr>lk_tasks := lk_tasks s @ [p]\<rparr>) =
    (if t = length (lk_tasks s) then Some p else task t s)"
  by (auto simp: task_def nth_append)

lemma strong_count_1: "strong_count a s = 1 \<longleftrightarrow> (\<forall>t i. task t s \<noteq> Some (i, Waiting a) \<and> task t s \<noteq> Some (i, Holding a))"
proof -
  have "strong_count a s = 1 \<longleftrightarrow> (\<forall>p \<in> set (lk_tasks s). \<not> uses_lock a p)"
    by (simp add: strong_count_def filter_empty_conv)
  also have "\<dots> \<longleftrightarrow> (\<forall>t p. task t s = Some p \<longrightarrow> \<not> uses_lock a p)"
    using in_tasks by blast
  finally show ?thesis by (auto simp: uses_lock_def)
qed

text \<open>What each action needs and does.\<close>

lemma fireE:
  assumes "fire x s = Some u"
  obtains (joins) i a where "x = Arrive i" and "lk_table s i = Some a"
      and "u = s\<lparr>lk_tasks := lk_tasks s @ [(i, Waiting a)]\<rparr>"
    | (founds) i where "x = Arrive i" and "lk_table s i = None"
      and "u = s\<lparr>lk_table := (lk_table s)(i := Some (lk_next s)), lk_next := Suc (lk_next s),
        lk_tasks := lk_tasks s @ [(i, Waiting (lk_next s))]\<rparr>"
    | (locks) t i a where "x = Acquire t" and "task t s = Some (i, Waiting a)" and "lk_owner s a = None"
      and "u = set_task t (i, Holding a) (s\<lparr>lk_owner := (lk_owner s)(a := Some t)\<rparr>)"
    | (unlocks) t i a where "x = FinishOk t" and "task t s = Some (i, Holding a)"
      and "u = set_task t (i, Finishing) (s\<lparr>lk_owner := (lk_owner s)(a := None)\<rparr>)"
    | (fails) t i a where "x = FinishErr t" and "task t s = Some (i, Holding a)"
      and "u = set_task t (i, Gone) (s\<lparr>lk_owner := (lk_owner s)(a := None)\<rparr>)"
    | (absent) t i where "x = Check t" and "task t s = Some (i, Finishing)" and "lk_table s i = None"
      and "u = set_task t (i, Gone) s"
    | (shared) t i a where "x = Check t" and "task t s = Some (i, Finishing)" and "lk_table s i = Some a"
      and "strong_count a s \<noteq> 1" and "u = set_task t (i, Gone) s"
    | (unshared) t i a where "x = Check t" and "task t s = Some (i, Finishing)" and "lk_table s i = Some a"
      and "strong_count a s = 1" and "u = set_task t (i, Checked) s"
    | (removes) t i where "x = Remove t" and "task t s = Some (i, Checked)"
      and "u = set_task t (i, Gone) (s\<lparr>lk_table := (lk_table s)(i := None)\<rparr>)"
  using assms
  by (cases x; auto split: option.splits lock_pc.splits if_splits prod.splits; blast)

section \<open>Mutual exclusion\<close>

definition exclusive :: "locks \<Rightarrow> bool" where
  "exclusive s \<longleftrightarrow>
     (\<forall>t i a. task t s = Some (i, Waiting a) \<or> task t s = Some (i, Holding a) \<longrightarrow> lk_table s i = Some a)
     \<and> (\<forall>t i a. task t s = Some (i, Holding a) \<longrightarrow> lk_owner s a = Some t)
     \<and> (\<forall>t i t' a. task t s = Some (i, Checked) \<longrightarrow>
          task t' s \<noteq> Some (i, Waiting a) \<and> task t' s \<noteq> Some (i, Holding a))"

lemma only_holder:
  assumes "exclusive s" and "task t s = Some (i, Holding a)" and "task t' s = Some (j, Holding a)"
  shows "t' = t"
proof -
  have "lk_owner s a = Some t" "lk_owner s a = Some t'"
    using assms unfolding exclusive_def by blast+
  then show ?thesis by simp
qed

lemma exclusive_release:
  assumes "exclusive s" and "task t s = Some (i, Holding a)" and "pc = Finishing \<or> pc = Gone"
  shows "exclusive (set_task t (i, pc) (s\<lparr>lk_owner := (lk_owner s)(a := None)\<rparr>))" (is "exclusive ?u")
proof -
  have u: "task v ?u = (if v = t then Some (i, pc) else task v s)" for v
    using assms(2) by (simp add: task_Some)
  have quiet: "pc \<noteq> Waiting b" "pc \<noteq> Holding b" "pc \<noteq> Checked" for b using assms(3) by auto
  have e: "\<And>v j b. task v s = Some (j, Waiting b) \<or> task v s = Some (j, Holding b) \<Longrightarrow> lk_table s j = Some b"
    "\<And>v j b. task v s = Some (j, Holding b) \<Longrightarrow> lk_owner s b = Some v"
    "\<And>v j w b. task v s = Some (j, Checked) \<Longrightarrow> task w s \<noteq> Some (j, Waiting b) \<and> task w s \<noteq> Some (j, Holding b)"
    using assms(1) unfolding exclusive_def by blast+
  have "lk_owner ?u b = Some v" if v: "task v ?u = Some (j, Holding b)" for v j b
  proof -
    have "v \<noteq> t" "task v s = Some (j, Holding b)" using v quiet unfolding u by (auto split: if_splits)
    moreover from this have "b \<noteq> a" using only_holder [OF assms(1,2)] by blast
    ultimately show ?thesis using e(2) by simp
  qed
  moreover have "lk_table ?u j = Some b"
    if "task v ?u = Some (j, Waiting b) \<or> task v ?u = Some (j, Holding b)" for v j b
    using that quiet e(1) [of v j b] unfolding u by (auto split: if_splits)
  moreover have "task w ?u \<noteq> Some (j, Waiting b) \<and> task w ?u \<noteq> Some (j, Holding b)"
    if "task v ?u = Some (j, Checked)" for v j w b
    using that quiet e(3) [of v j w b] unfolding u by (auto split: if_splits)
  ultimately show ?thesis unfolding exclusive_def by blast
qed

lemma exclusive_step:
  assumes "exclusive s" and "undisturbed_step s x" and "fire x s = Some u" shows "exclusive u"
  using assms(3)
proof (cases rule: fireE)
  case (joins i a)
  have "task t s \<noteq> Some (i, Checked)" for t using assms(2) joins(1) in_tasks by auto
  with joins assms(1) show ?thesis
    unfolding exclusive_def joins(3) task_append by (auto simp: task_Some split: if_splits)
next
  case (founds i)
  have none: "task t s \<noteq> Some (i, Checked)" for t using assms(2) founds(1) in_tasks by auto
  have u: "task t u = (if t = length (lk_tasks s) then Some (i, Waiting (lk_next s)) else task t s)" for t
    by (auto simp: founds(3) task_def nth_append)
  have "lk_table u = (lk_table s)(i := Some (lk_next s))" "lk_owner u = lk_owner s"
    by (simp_all add: founds(3))
  with none assms(1) founds(2) show ?thesis
    unfolding exclusive_def u by (auto simp: task_Some split: if_splits)
next
  case (locks t i a)
  then show ?thesis using assms(1) unfolding exclusive_def locks(4) by (auto split: if_splits)
next
  case (unlocks t i a)
  show ?thesis unfolding unlocks(3) by (rule exclusive_release [OF assms(1) unlocks(2)]) simp
next
  case (fails t i a)
  show ?thesis unfolding fails(3) by (rule exclusive_release [OF assms(1) fails(2)]) simp
next
  case (absent t i)
  then show ?thesis using assms(1) unfolding exclusive_def absent(4) by (auto split: if_splits)
next
  case (shared t i a)
  then show ?thesis using assms(1) unfolding exclusive_def shared(5) by (auto split: if_splits)
next
  case (unshared t i a)
  then show ?thesis using assms(1) unfolding exclusive_def unshared(5) strong_count_1 by (auto split: if_splits)
next
  case (removes t i)
  then show ?thesis using assms(1) unfolding exclusive_def removes(3) by (auto split: if_splits)
qed

lemma reached_exclusive: "reached undisturbed_step s \<Longrightarrow> exclusive s"
proof (induction rule: reached.induct)
  case start
  show ?case by (simp add: exclusive_def no_locks_def task_def)
next
  case (step s x t)
  then show ?case using exclusive_step by blast
qed

text \<open>C4: Requests for one instance exclude each other, as long as none arrives between another's look
  at the reference count and its removal of the entry: of two requests that hold the lock of the same
  instance, both are the same.\<close>

theorem locks_exclude:
  assumes "reached undisturbed_step s"
    and "task t s = Some (i, Holding a)" and "task t' s = Some (i, Holding b)"
  shows "t = t'"
proof -
  have e: "exclusive s" by (rule reached_exclusive) (rule assms(1))
  have "lk_table s i = Some a" "lk_table s i = Some b" "lk_owner s a = Some t" "lk_owner s b = Some t'"
    using e assms(2,3) unfolding exclusive_def by blast+
  then show ?thesis by simp
qed

text \<open>Running a list of actions.\<close>

fun fire_all :: "lock_action list \<Rightarrow> locks \<Rightarrow> locks option" where
  "fire_all [] s = Some s"
| "fire_all (x # xs) s = (case fire x s of None \<Rightarrow> None | Some t \<Rightarrow> fire_all xs t)"

fun allowed :: "(locks \<Rightarrow> lock_action \<Rightarrow> bool) \<Rightarrow> lock_action list \<Rightarrow> locks \<Rightarrow> bool" where
  "allowed ok [] s = True"
| "allowed ok (x # xs) s = (ok s x \<and> (case fire x s of None \<Rightarrow> True | Some t \<Rightarrow> allowed ok xs t))"

lemma reached_run:
  "reached ok s \<Longrightarrow> fire_all xs s = Some t \<Longrightarrow> allowed ok xs s \<Longrightarrow> reached ok t"
  by (induction xs arbitrary: s) (auto split: option.splits intro: reached.step)

lemmas run_locks = no_locks_def task_def set_task_def strong_count_def uses_lock_def

lemma locks_exclude_witness:
  "\<exists>s. reached undisturbed_step s \<and> task 1 s = Some (3, Holding 0) \<and> task 0 s = Some (3, Gone)
    \<and> (\<forall>t. task t s = Some (3, Holding 0) \<longrightarrow> t = 1)"
proof -
  let ?xs = "[Arrive 3, Acquire 0, Arrive 3, FinishOk 0, Check 0, Acquire 1]"
  have "\<exists>s. fire_all ?xs no_locks = Some s \<and> allowed undisturbed_step ?xs no_locks
    \<and> task 1 s = Some (3, Holding 0) \<and> task 0 s = Some (3, Gone)"
    by (simp add: run_locks)
  then obtain s where run: "fire_all ?xs no_locks = Some s" "allowed undisturbed_step ?xs no_locks"
    and t: "task 1 s = Some (3, Holding 0)" "task 0 s = Some (3, Gone)" by blast
  have r: "reached undisturbed_step s" by (rule reached_run [OF reached.start run])
  have "t = 1" if "task t s = Some (3, Holding 0)" for t by (rule locks_exclude [OF r that t(1)])
  then show ?thesis using r t by blast
qed

text \<open>C21: The removal of an entry that looked unused can break the exclusion.  A request that arrives
  after another looked at the count and before it removed the entry holds a lock that is no longer in
  the table; the next request makes a new lock, and both work on the instance at the same time.\<close>

theorem removal_races:
  "\<exists>s t t' a b. reached (\<lambda>_ _. True) s \<and> t \<noteq> t'
    \<and> task t s = Some (i, Holding a) \<and> task t' s = Some (i, Holding b)"
proof -
  let ?xs = "[Arrive i, Acquire 0, FinishOk 0, Check 0, Arrive i, Acquire 1, Remove 0, Arrive i, Acquire 2]"
  have "\<exists>s. fire_all ?xs no_locks = Some s \<and> allowed (\<lambda>_ _. True) ?xs no_locks
    \<and> task 1 s = Some (i, Holding 0) \<and> task 2 s = Some (i, Holding 1)"
    by (simp add: run_locks)
  then obtain s where "fire_all ?xs no_locks = Some s" "allowed (\<lambda>_ _. True) ?xs no_locks"
    and "task 1 s = Some (i, Holding 0)" "task 2 s = Some (i, Holding 1)" by blast
  moreover from this(1,2) have "reached (\<lambda>_ _. True) s" by (rule reached_run [OF reached.start])
  ultimately show ?thesis by (intro exI [of _ s] exI [of _ 1] exI [of _ 2] exI [of _ 0] exI [of _ 1]) simp
qed

section \<open>Cleaning up\<close>

text \<open>Every entry of the table has a request that will look at it, and a lock belongs to one instance.\<close>

definition minded :: "locks \<Rightarrow> bool" where
  "minded s \<longleftrightarrow> (\<forall>i a. lk_table s i = Some a \<longrightarrow> (\<exists>t pc. task t s = Some (i, pc) \<and> pc \<noteq> Gone))"

definition owned :: "locks \<Rightarrow> bool" where
  "owned s \<longleftrightarrow> (\<forall>i a. lk_table s i = Some a \<longrightarrow> a < lk_next s)
     \<and> (\<forall>t i a j. (task t s = Some (i, Waiting a) \<or> task t s = Some (i, Holding a)) \<longrightarrow>
          a < lk_next s \<and> (lk_table s j = Some a \<longrightarrow> j = i))
     \<and> (\<forall>i j a. lk_table s i = Some a \<and> lk_table s j = Some a \<longrightarrow> i = j)"

lemma owned_step: assumes "owned s" and "fire x s = Some u" shows "owned u"
  using assms(2)
proof (cases rule: fireE)
  case (joins i a)
  then show ?thesis using assms(1) unfolding owned_def joins(3) task_append by (auto split: if_splits)
next
  case (founds i)
  have u: "task t u = (if t = length (lk_tasks s) then Some (i, Waiting (lk_next s)) else task t s)" for t
    by (auto simp: founds(3) task_def nth_append)
  have "lk_table u = (lk_table s)(i := Some (lk_next s))" "lk_next u = Suc (lk_next s)"
    by (simp_all add: founds(3))
  moreover have "task t s \<noteq> Some (j, Waiting (lk_next s))" "task t s \<noteq> Some (j, Holding (lk_next s))" for t j
    using assms(1) unfolding owned_def by blast+
  ultimately show ?thesis using assms(1) unfolding owned_def u by (auto simp: less_Suc_eq split: if_splits)
next
  case (locks t i a)
  then show ?thesis using assms(1) unfolding owned_def locks(4) by (auto split: if_splits)
next
  case (unlocks t i a)
  then show ?thesis using assms(1) unfolding owned_def unlocks(3) by (auto split: if_splits)
next
  case (fails t i a)
  then show ?thesis using assms(1) unfolding owned_def fails(3) by (auto split: if_splits)
next
  case (absent t i)
  then show ?thesis using assms(1) unfolding owned_def absent(4) by (auto split: if_splits)
next
  case (shared t i a)
  then show ?thesis using assms(1) unfolding owned_def shared(5) by (auto split: if_splits)
next
  case (unshared t i a)
  then show ?thesis using assms(1) unfolding owned_def unshared(5) by (auto split: if_splits)
next
  case (removes t i)
  then show ?thesis using assms(1) unfolding owned_def removes(3) by (auto split: if_splits)
qed

text \<open>A task that changes its place but does not leave keeps what it minds; one that leaves must leave
  somebody behind.\<close>

lemma minded_change:
  assumes "minded s" and "task t s = Some (i, pc')" and "lk_table u = lk_table s"
    and "\<And>v. task v u = (if v = t then Some (i, pc) else task v s)"
    and "pc \<noteq> Gone \<or> lk_table s i = None \<or> (\<exists>v qc. v \<noteq> t \<and> task v s = Some (i, qc) \<and> qc \<noteq> Gone)"
  shows "minded u"
  unfolding minded_def assms(3)
proof (intro allI impI)
  fix j a
  assume j: "lk_table s j = Some a"
  then obtain v qc where v: "task v s = Some (j, qc)" "qc \<noteq> Gone" using assms(1) unfolding minded_def by blast
  show "\<exists>v qc. task v u = Some (j, qc) \<and> qc \<noteq> Gone"
  proof (cases "v = t")
    case True
    then have "j = i" using v(1) assms(2) by simp
    then show ?thesis using assms(4,5) j by (cases "pc = Gone") auto
  next
    case False
    then show ?thesis using v assms(4) by auto
  qed
qed

lemma minded_step:
  assumes "minded s" and "owned s" and "no_failure s x" and "fire x s = Some u" shows "minded u"
  using assms(4)
proof (cases rule: fireE)
  case (joins i a)
  have "task t u = (if t = length (lk_tasks s) then Some (i, Waiting a) else task t s)" for t
    by (simp add: joins(3) task_append)
  with assms(1) joins(3) show ?thesis
    unfolding minded_def by (auto simp: task_Some split: if_splits) (metis less_irrefl)
next
  case (founds i)
  have u: "task t u = (if t = length (lk_tasks s) then Some (i, Waiting (lk_next s)) else task t s)" for t
    by (auto simp: founds(3) task_def nth_append)
  have old: "t < length (lk_tasks s)" if "task t s = Some p" for t p using that by (simp add: task_Some)
  show ?thesis unfolding minded_def
  proof (intro allI impI)
    fix j a
    assume j: "lk_table u j = Some a"
    show "\<exists>t pc. task t u = Some (j, pc) \<and> pc \<noteq> Gone"
    proof (cases "j = i")
      case True
      then show ?thesis unfolding u by (intro exI [of _ "length (lk_tasks s)"]) simp
    next
      case False
      then obtain t pc where "task t s = Some (j, pc)" "pc \<noteq> Gone"
        using j assms(1) unfolding minded_def founds(3) by auto
      then show ?thesis unfolding u using old by (intro exI [of _ t]) auto
    qed
  qed
next
  case (locks t i a)
  show ?thesis
    by (rule minded_change [OF assms(1) locks(2), of _ "Holding a"]) (use locks in \<open>auto simp: task_Some\<close>)
next
  case (unlocks t i a)
  show ?thesis
    by (rule minded_change [OF assms(1) unlocks(2), of _ Finishing]) (use unlocks in \<open>auto simp: task_Some\<close>)
next
  case (absent t i)
  show ?thesis
    by (rule minded_change [OF assms(1) absent(2), of _ Gone]) (use absent in \<open>auto simp: task_Some\<close>)
next
  case (shared t i a)
  then obtain v j qc where v: "task v s = Some (j, qc)" "qc = Waiting a \<or> qc = Holding a"
    unfolding strong_count_1 by blast
  have "i = j" using assms(2) v shared(3) unfolding owned_def by blast
  moreover have "v \<noteq> t" using v shared(2) by auto
  ultimately have "\<exists>v qc. v \<noteq> t \<and> task v s = Some (i, qc) \<and> qc \<noteq> Gone" using v by blast
  then show ?thesis
    by (intro minded_change [OF assms(1) shared(2), of _ Gone]) (use shared in \<open>auto simp: task_Some\<close>)
next
  case (unshared t i a)
  show ?thesis
    by (rule minded_change [OF assms(1) unshared(2), of _ Checked]) (use unshared in \<open>auto simp: task_Some\<close>)
next
  case (removes t i)
  show ?thesis unfolding minded_def
  proof (intro allI impI)
    fix j a
    assume "lk_table u j = Some a"
    then have j: "j \<noteq> i" "lk_table s j = Some a" by (auto simp: removes(3) split: if_splits)
    then obtain v pc where "task v s = Some (j, pc)" "pc \<noteq> Gone" using assms(1) unfolding minded_def by blast
    then show "\<exists>t pc. task t u = Some (j, pc) \<and> pc \<noteq> Gone"
      using removes(2) j(1) by (intro exI [of _ v] exI [of _ pc]) (auto simp: removes(3))
  qed
qed (use assms(3) in simp_all)

lemma reached_minded: "reached no_failure s \<Longrightarrow> minded s \<and> owned s"
proof (induction rule: reached.induct)
  case start
  show ?case by (simp add: minded_def owned_def no_locks_def task_def)
next
  case (step s x t)
  then show ?case using minded_step owned_step by blast
qed

text \<open>C22: The table does not grow for ever: when no handler fails, the requests leave nothing behind,
  in whatever order they run and even when a removal races with an arrival.  Once all are gone, the
  table is empty.\<close>

theorem no_lock_left_behind:
  assumes "reached no_failure s" and "\<forall>p \<in> set (lk_tasks s). snd p = Gone"
  shows "lk_table s = (\<lambda>_. None)"
proof
  fix i
  show "lk_table s i = None"
  proof (rule ccontr)
    assume "lk_table s i \<noteq> None"
    then obtain t pc where "task t s = Some (i, pc)" "pc \<noteq> Gone"
      using reached_minded [OF assms(1)] unfolding minded_def by blast
    moreover from this have "(i, pc) \<in> set (lk_tasks s)" using in_tasks by blast
    ultimately show False using assms(2) by auto
  qed
qed

lemma no_lock_left_behind_witness:
  "\<exists>s. fire_all [Arrive 3, Acquire 0, Arrive 3, FinishOk 0, Check 0, Acquire 1, FinishOk 1, Check 1, Remove 1] no_locks = Some s
    \<and> lk_table s = (\<lambda>_. None)"
proof -
  let ?xs = "[Arrive 3, Acquire 0, Arrive 3, FinishOk 0, Check 0, Acquire 1, FinishOk 1, Check 1, Remove 1]"
  have "\<exists>s. fire_all ?xs no_locks = Some s \<and> allowed no_failure ?xs no_locks \<and> (\<forall>p \<in> set (lk_tasks s). snd p = Gone)"
    by (simp add: run_locks)
  then obtain s where run: "fire_all ?xs no_locks = Some s" "allowed no_failure ?xs no_locks"
    and gone: "\<forall>p \<in> set (lk_tasks s). snd p = Gone" by blast
  have "lk_table s = (\<lambda>_. None)"
    by (rule no_lock_left_behind [OF reached_run [OF reached.start run] gone])
  then show ?thesis using run(1) by blast
qed

text \<open>A handler that fails leaves the entry of its instance behind.\<close>

lemma failure_leaves_entry:
  "\<exists>s. fire_all [Arrive i, Acquire 0, FinishErr 0] no_locks = Some s
    \<and> (\<forall>p \<in> set (lk_tasks s). snd p = Gone) \<and> lk_table s i = Some 0"
  by (simp add: run_locks)

end
