(* ===== verification/Drm.thy ===== *)
theory Drm
  imports RustStd "HOL-Library.Word"
begin

text \<open>
  The display device as the programs \<open>compositor-rs\<close> and \<open>rust/drm_rect\<close> see it.  The calls of the
  crate \<open>drm\<close> are answered by an environment \<open>kms\<close> that may answer differently at every call (the
  second argument of each field counts the calls); the calls that change the device are kept in a
  log.  Both programs extend the record \<open>device\<close> with their own memory.  Handles are numbers, a
  mode is its size and a number for the timings neither program reads.
\<close>

section \<open>The device\<close>

record mode =
  mo_width :: "16 word"
  mo_height :: "16 word"
  mo_timings :: nat

record connector_info =
  ci_handle :: nat
  ci_connected :: bool
  ci_modes :: "mode list"
  ci_current_encoder :: "nat option"
  ci_encoders :: "nat list"

record dumb_buffer =
  du_handle :: nat
  du_bytes :: nat

datatype device_call =
    Opened string
  | CreatedDumb nat nat dumb_buffer
  | AddedFramebuffer dumb_buffer nat
  | SetCrtc nat "nat option" "nat list" "mode option"
  | DestroyedFramebuffer nat
  | DestroyedDumb nat
  | SleptSecs nat
  | ConsoleMode nat
  | Wrote string string
  | MadeDir string
  | Listening string

record kms =
  k_open :: "nat \<Rightarrow> string \<Rightarrow> string option"
  k_resources :: "nat \<Rightarrow> string + nat list"
  k_connector :: "nat \<Rightarrow> nat \<Rightarrow> bool \<Rightarrow> string + connector_info"
  k_encoder :: "nat \<Rightarrow> nat \<Rightarrow> string + nat option"
  k_dumb :: "nat \<Rightarrow> nat \<Rightarrow> nat \<Rightarrow> string + dumb_buffer"
  k_framebuffer :: "nat \<Rightarrow> dumb_buffer \<Rightarrow> string + nat"
  k_call :: "nat \<Rightarrow> string option"
  k_debug :: "nat \<Rightarrow> string"

record device =
  dv_kms :: kms
  dv_tick :: nat
  dv_log :: "device_call list"

type_synonym ('m, 'a) drm = "('m device_scheme, 'a, string) act"

section \<open>Its calls\<close>

definition tock :: "'m device_scheme \<Rightarrow> 'm device_scheme" where
  "tock s = s\<lparr>dv_tick := Suc (dv_tick s)\<rparr>"

definition logged :: "device_call \<Rightarrow> ('m device_scheme, unit, 'e) act" where
  "logged c = modify (\<lambda>s. s\<lparr>dv_log := dv_log s @ [c]\<rparr>)"

definition ask :: "(kms \<Rightarrow> nat \<Rightarrow> 'e + 'a) \<Rightarrow> ('m device_scheme, 'a, 'e) act" where
  "ask f = (\<lambda>s. case f (dv_kms s) (dv_tick s) of
       Inl e \<Rightarrow> (Err e, tock s)
     | Inr a \<Rightarrow> (Ok a, tock s))"

definition verdict :: "string option \<Rightarrow> string + unit" where
  "verdict e = (case e of None \<Rightarrow> Inr () | Some err \<Rightarrow> Inl err)"

text \<open>A call that fails or happens, and is then in the log.\<close>

definition perform :: "device_call \<Rightarrow> ('m, unit) drm" where
  "perform c = andThen (ask (\<lambda>k n. verdict (k_call k n))) (\<lambda>_. logged c)"

definition open_device :: "string \<Rightarrow> ('m, unit) drm" where
  "open_device path = andThen (ask (\<lambda>k n. verdict (k_open k n path))) (\<lambda>_. logged (Opened path))"

definition resource_handles :: "('m, nat list) drm" where
  "resource_handles = ask k_resources"

text \<open>With \<open>force\<close> the driver probes the connector, without it answers with the state it has cached.\<close>

definition get_connector :: "nat \<Rightarrow> bool \<Rightarrow> ('m, connector_info) drm" where
  "get_connector h force = ask (\<lambda>k n. k_connector k n h force)"

definition get_encoder :: "nat \<Rightarrow> ('m, nat option) drm" where
  "get_encoder h = ask (\<lambda>k n. k_encoder k n h)"

definition create_dumb_buffer :: "nat \<Rightarrow> nat \<Rightarrow> ('m, dumb_buffer) drm" where
  "create_dumb_buffer w h = andThen (ask (\<lambda>k n. k_dumb k n w h)) (\<lambda>d.
     andThen (logged (CreatedDumb w h d)) (\<lambda>_. ret d))"

definition add_framebuffer :: "dumb_buffer \<Rightarrow> ('m, nat) drm" where
  "add_framebuffer d = andThen (ask (\<lambda>k n. k_framebuffer k n d)) (\<lambda>fb.
     andThen (logged (AddedFramebuffer d fb)) (\<lambda>_. ret fb))"

text \<open>Mapping a dumb buffer changes nothing; unmapping it cannot fail.\<close>

definition map_dumb_buffer :: "('m, unit) drm" where
  "map_dumb_buffer = ask (\<lambda>k n. verdict (k_call k n))"

definition set_crtc ::
  "nat \<Rightarrow> nat option \<Rightarrow> nat list \<Rightarrow> mode option \<Rightarrow> ('m, unit) drm"
where
  "set_crtc crtc fb connectors m = perform (SetCrtc crtc fb connectors m)"

section \<open>What a call does to the device\<close>

lemma run_logged [simp]: "logged c s = (Ok (), s\<lparr>dv_log := dv_log s @ [c]\<rparr>)"
  by (simp add: logged_def)

lemma run_ask:
  "ask f s = (case f (dv_kms s) (dv_tick s) of Inl e \<Rightarrow> (Err e, tock s) | Inr a \<Rightarrow> (Ok a, tock s))"
  by (simp add: ask_def)

lemma tock_simps [simp]:
  "dv_kms (tock s) = dv_kms s" "dv_log (tock s) = dv_log s" "dv_tick (tock s) = Suc (dv_tick s)"
  "device.more (tock s) = device.more s"
  by (simp_all add: tock_def)

text \<open>A run of \<open>m\<close> that returns \<open>a\<close> appends the calls \<open>calls a\<close> to the log and keeps the environment
  and the program's own memory.\<close>

definition logs_of ::
  "('m device_scheme \<Rightarrow> ('a, 'e) outcome \<times> 'm device_scheme) \<Rightarrow>
   ('a \<Rightarrow> device_call list) \<Rightarrow> bool"
where
  "logs_of m calls \<longleftrightarrow> (\<forall>s a t. m s = (Ok a, t) \<longrightarrow>
     dv_log t = dv_log s @ calls a \<and> dv_kms t = dv_kms s \<and> device.more t = device.more s)"

lemma logs_ask: "logs_of (ask f) (\<lambda>_. [])"
  by (auto simp: logs_of_def ask_def split: sum.splits)

lemma logs_logged: "logs_of (logged c) (\<lambda>_. [c])"
  by (simp add: logs_of_def)

lemma logs_ret: "logs_of (ret a) (\<lambda>_. [])"
  by (simp add: logs_of_def)

lemma logs_then:
  assumes "logs_of m c" and "\<And>a. logs_of (f a) (d a)" and "\<And>a b. c a @ d a b = e b"
  shows "logs_of (andThen m f) e"
  unfolding logs_of_def
proof (intro allI impI)
  fix s b u
  assume "andThen m f s = (Ok b, u)"
  then obtain a t where m: "m s = (Ok a, t)" and f: "f a t = (Ok b, u)" by (rule andThen_Ok_cases)
  have "dv_log t = dv_log s @ c a \<and> dv_kms t = dv_kms s \<and> device.more t = device.more s"
    using assms(1) m unfolding logs_of_def by blast
  moreover have "dv_log u = dv_log t @ d a b \<and> dv_kms u = dv_kms t \<and> device.more u = device.more t"
    using assms(2) [of a] f unfolding logs_of_def by blast
  ultimately show "dv_log u = dv_log s @ e b \<and> dv_kms u = dv_kms s \<and> device.more u = device.more s"
    using assms(3) [of a b] by simp
qed

lemma logs_perform: "logs_of (perform c) (\<lambda>_. [c])"
  unfolding perform_def by (rule logs_then [OF logs_ask logs_logged]) simp

lemma perform_Err: "perform c s = (Err e, t) \<Longrightarrow> dv_log t = dv_log s"
  by (auto simp: perform_def ask_def split: sum.splits elim!: andThen_Err_cases)

section \<open>The first usable connector\<close>

text \<open>A connector is usable when something is connected to it and it has a mode.\<close>

definition usable :: "connector_info \<Rightarrow> bool" where
  "usable info \<longleftrightarrow> ci_connected info \<and> ci_modes info \<noteq> []"

text \<open>The search both programs make, as a function of what the connectors answer: the first usable one
  with its answer, unless the query of one before it fails.\<close>

fun first_usable ::
  "(nat \<Rightarrow> string + connector_info) \<Rightarrow> nat list \<Rightarrow> nat \<times> string + (nat \<times> connector_info) option"
where
  "first_usable info [] = Inr None"
| "first_usable info (h # hs) = (case info h of
       Inl e \<Rightarrow> Inl (h, e)
     | Inr i \<Rightarrow> if usable i then Inr (Some (h, i)) else first_usable info hs)"

lemma first_usable_Some:
  "first_usable info hs = Inr (Some (h, i)) \<Longrightarrow> h \<in> set hs \<and> info h = Inr i \<and> usable i"
  by (induction hs) (auto split: sum.splits if_splits)

text \<open>The connectors are \<open>steady\<close> when each answers the same query with the same answer; the answers to
  a forced and to an ordinary query may differ.\<close>

definition steady :: "kms \<Rightarrow> (bool \<Rightarrow> nat \<Rightarrow> string + connector_info) \<Rightarrow> bool" where
  "steady k info \<longleftrightarrow> (\<forall>n h force. k_connector k n h force = info force h)"

text \<open>A device with two connectors, the second of which shows a mode of two pixels.\<close>

definition sample_mode :: mode where
  "sample_mode = \<lparr>mo_width = 2, mo_height = 1, mo_timings = 60\<rparr>"

definition sample_connector :: "nat \<Rightarrow> connector_info" where
  "sample_connector h = \<lparr>ci_handle = h, ci_connected = (h = 32), ci_modes = [sample_mode],
     ci_current_encoder = None, ci_encoders = [40]\<rparr>"

definition sample_kms :: kms where
  "sample_kms = \<lparr>k_open = \<lambda>_ _. None, k_resources = \<lambda>_. Inr [31, 32],
     k_connector = \<lambda>_ h _. Inr (sample_connector h), k_encoder = \<lambda>_ _. Inr (Some 41),
     k_dumb = \<lambda>_ w h. Inr \<lparr>du_handle = 1, du_bytes = 4 * w * h + 1\<rparr>,
     k_framebuffer = \<lambda>_ _. Inr 50, k_call = \<lambda>_. None, k_debug = \<lambda>_. ''handle''\<rparr>"

end
