(* ===== verification/Post.thy ===== *)
theory Post
  imports Prelude
begin

text \<open>
  Weakest postconditions of runs: \<open>post m Q E s\<close> holds when a run of \<open>m\<close> from \<open>s\<close> that returns \<open>a\<close>
  in state \<open>t\<close> satisfies \<open>Q a t\<close> and one that returns the error \<open>e\<close> satisfies \<open>E e t\<close>; a run that
  panics or blocks owes nothing.  The equations take the combinators apart, so that the programs of
  \<open>compositor-rs\<close> and \<open>drm_rect\<close> are verified by rewriting down to their calls.
\<close>

named_theorems post_simps
named_theorems post_intros

definition post ::
  "('s, 'a, 'e) act \<Rightarrow> ('a \<Rightarrow> 's \<Rightarrow> bool) \<Rightarrow> ('e \<Rightarrow> 's \<Rightarrow> bool) \<Rightarrow> 's \<Rightarrow> bool"
where
  "post m Q E s = (case m s of
       (Ok a, t) \<Rightarrow> Q a t | (Err e, t) \<Rightarrow> E e t | (Panic, t) \<Rightarrow> True | (Hang, t) \<Rightarrow> True)"

lemma post_Ok: "post m Q E s \<Longrightarrow> m s = (Ok a, t) \<Longrightarrow> Q a t"
  by (simp add: post_def)

lemma post_Err: "post m Q E s \<Longrightarrow> m s = (Err e, t) \<Longrightarrow> E e t"
  by (simp add: post_def)

lemma postI:
  "(\<And>a t. m s = (Ok a, t) \<Longrightarrow> Q a t) \<Longrightarrow> (\<And>e t. m s = (Err e, t) \<Longrightarrow> E e t) \<Longrightarrow> post m Q E s"
  by (cases "m s"; cases "fst (m s)") (simp_all add: post_def)

lemma post_mono:
  "post m Q E s \<Longrightarrow> (\<And>a t. Q a t \<Longrightarrow> Q' a t) \<Longrightarrow> (\<And>e t. E e t \<Longrightarrow> E' e t) \<Longrightarrow> post m Q' E' s"
  by (cases "m s"; cases "fst (m s)") (simp_all add: post_def)

lemma post_any [simp]: "post m (\<lambda>_ _. True) (\<lambda>_ _. True) s"
  by (simp add: post_def split: prod.split outcome.split)

lemma post_ret [post_simps]: "post (ret a) Q E = Q a"
  by (simp add: post_def fun_eq_iff)

lemma post_raise [post_simps]: "post (raise e) Q E = E e"
  by (simp add: post_def fun_eq_iff)

lemma post_panic [post_simps]: "post panic Q E = (\<lambda>_. True)"
  by (simp add: post_def fun_eq_iff)

lemma post_hang [post_simps]: "post hang Q E = (\<lambda>_. True)"
  by (simp add: post_def fun_eq_iff)

text \<open>The forms the simplifier gives these actions.\<close>

lemma post_Pair [post_simps]:
  "post (Pair (Ok a)) Q E = Q a" "post (Pair (Err e)) Q E = E e"
  "post (Pair Panic) Q E = (\<lambda>_. True)" "post (Pair Hang) Q E = (\<lambda>_. True)"
  by (simp_all add: post_def fun_eq_iff)

lemma post_reading [post_simps]: "post (reading f) Q E = (\<lambda>s. Q (f s) s)"
  by (simp add: post_def fun_eq_iff)

lemma post_modify [post_simps]: "post (modify f) Q E = (\<lambda>s. Q () (f s))"
  by (simp add: post_def fun_eq_iff)

lemma post_andThen [post_simps]: "post (andThen m f) Q E = post m (\<lambda>a. post (f a) Q E) E"
  by (simp add: post_def run_andThen fun_eq_iff split: prod.split outcome.split)

lemma post_attempt [post_simps]:
  "post (attempt m) Q E = post m (\<lambda>a. Q (Inr a)) (\<lambda>e. Q (Inl e))"
  by (simp add: post_def attempt_def fun_eq_iff split: prod.split outcome.split)

lemma post_mapErr [post_simps]: "post (mapErr g m) Q E = post m Q (\<lambda>e. E (g e))"
  by (simp add: post_def mapErr_def fun_eq_iff split: prod.split outcome.split)

lemma post_ignoring [post_simps]: "post (ignoring m) Q E = post m (\<lambda>_. Q ()) (\<lambda>_. Q ())"
  by (simp add: ignoring_def post_simps)

lemma post_whenever [post_simps]:
  "post (whenever b m) Q E = (if b then post m Q E else Q ())"
  by (simp add: whenever_def post_simps)

lemma post_conj:
  "post m (\<lambda>a t. Q a t \<and> Q' a t) (\<lambda>e t. E e t \<and> E' e t) s \<longleftrightarrow> post m Q E s \<and> post m Q' E' s"
  by (auto simp: post_def split: prod.split outcome.split)

text \<open>Branches.\<close>

lemma post_if [post_intros]:
  "(b \<Longrightarrow> post m Q E s) \<Longrightarrow> (\<not> b \<Longrightarrow> post n Q E s) \<Longrightarrow> post (if b then m else n) Q E s"
  by simp

lemma post_option [post_intros]:
  "(z = None \<Longrightarrow> post m Q E s) \<Longrightarrow> (\<And>x. z = Some x \<Longrightarrow> post (f x) Q E s) \<Longrightarrow>
   post (case z of None \<Rightarrow> m | Some x \<Rightarrow> f x) Q E s"
  by (cases z) simp_all

lemma post_sum [post_intros]:
  "(\<And>x. z = Inl x \<Longrightarrow> post (f x) Q E s) \<Longrightarrow> (\<And>y. z = Inr y \<Longrightarrow> post (g y) Q E s) \<Longrightarrow>
   post (case z of Inl x \<Rightarrow> f x | Inr y \<Rightarrow> g y) Q E s"
  by (cases z) simp_all

lemma post_list [post_intros]:
  "(z = [] \<Longrightarrow> post m Q E s) \<Longrightarrow> (\<And>x xs. z = x # xs \<Longrightarrow> post (f x xs) Q E s) \<Longrightarrow>
   post (case z of [] \<Rightarrow> m | x # xs \<Rightarrow> f x xs) Q E s"
  by (cases z) simp_all

text \<open>Loops, by an invariant.\<close>

lemma post_forEach:
  assumes "I s" and "\<And>x t. x \<in> set xs \<Longrightarrow> I t \<Longrightarrow> post (f x) (\<lambda>_. I) E t"
    and "\<And>t. I t \<Longrightarrow> Q () t"
  shows "post (forEach f xs) Q E s"
  using assms
proof (induction xs arbitrary: s)
  case (Cons x xs)
  have "post (f x) (\<lambda>_ t. post (forEach f xs) Q E t) E s"
    by (rule post_mono [OF Cons.prems(2) [OF _ Cons.prems(1)]]) (use Cons in auto)
  then show ?case by (simp add: post_simps)
qed (simp add: post_simps)

section \<open>Runs that do not block\<close>

named_theorems nonblocking_intros

definition nonblocking :: "('s, 'a, 'e) act \<Rightarrow> bool" where
  "nonblocking m \<longleftrightarrow> (\<forall>s. fst (m s) \<noteq> Hang)"

lemma nonblocking_basic [nonblocking_intros]:
  "nonblocking (ret a)" "nonblocking (raise e)" "nonblocking panic" "nonblocking (reading f)"
  "nonblocking (modify g)"
  by (simp_all add: nonblocking_def)

lemma nonblocking_run: "nonblocking m \<Longrightarrow> m s \<noteq> (Hang, t)"
  unfolding nonblocking_def by (metis fst_conv)

lemma nonblocking_andThen [nonblocking_intros]:
  assumes "nonblocking m" and "\<And>a. nonblocking (f a)" shows "nonblocking (andThen m f)"
  unfolding nonblocking_def
proof
  fix s
  show "fst (andThen m f s) \<noteq> Hang"
    using nonblocking_run [OF assms(1), of s] assms(2)
    by (cases "m s"; cases "fst (m s)") (auto simp: nonblocking_def)
qed

lemma nonblocking_attempt [nonblocking_intros]: "nonblocking m \<Longrightarrow> nonblocking (attempt m)"
  unfolding nonblocking_def attempt_def by (auto split: prod.split outcome.split) (metis fst_conv)

lemma nonblocking_ignoring [nonblocking_intros]: "nonblocking m \<Longrightarrow> nonblocking (ignoring m)"
  unfolding ignoring_def by (intro nonblocking_intros)

lemma nonblocking_forEach [nonblocking_intros]: "(\<And>x. nonblocking (f x)) \<Longrightarrow> nonblocking (forEach f xs)"
  by (induction xs) (simp_all add: nonblocking_intros)

lemma nonblocking_if [nonblocking_intros]: "nonblocking m \<Longrightarrow> nonblocking n \<Longrightarrow> nonblocking (if b then m else n)"
  by simp

lemma nonblocking_option [nonblocking_intros]:
  "nonblocking m \<Longrightarrow> (\<And>x. nonblocking (f x)) \<Longrightarrow> nonblocking (case z of None \<Rightarrow> m | Some x \<Rightarrow> f x)"
  by (simp split: option.split)

lemma nonblocking_sum [nonblocking_intros]:
  "(\<And>x. nonblocking (f x)) \<Longrightarrow> (\<And>y. nonblocking (g y)) \<Longrightarrow>
   nonblocking (case z of Inl x \<Rightarrow> f x | Inr y \<Rightarrow> g y)"
  by (simp split: sum.split)

lemma nonblocking_prod [nonblocking_intros]:
  "(\<And>x y. nonblocking (f x y)) \<Longrightarrow> nonblocking (case z of (x, y) \<Rightarrow> f x y)"
  by (simp split: prod.split)

section \<open>Counting loops\<close>

text \<open>Counting loops that return, by an invariant of the counter.\<close>

lemma forEach_append: "forEach f (xs @ ys) = andThen (forEach f xs) (\<lambda>_. forEach f ys)"
  by (induction xs) (simp_all only: append_Nil append_Cons forEach.simps andThen_ret andThen_assoc)

lemma forEach_range:
  assumes "I 0 s" and "\<And>k t. k < n \<Longrightarrow> I k t \<Longrightarrow> \<exists>u. f k t = (Ok (), u) \<and> I (Suc k) u"
  shows "\<exists>t. forEach f [0..<n] s = (Ok (), t) \<and> I n t"
  using assms
proof (induction n)
  case (Suc n)
  then obtain t where t: "forEach f [0..<n] s = (Ok (), t)" "I n t" by auto
  obtain u where "f n t = (Ok (), u)" "I (Suc n) u" using Suc.prems(2) [OF _ t(2)] by auto
  with t(1) show ?case by (simp add: forEach_append run_andThen)
qed simp

end
