(* ===== verification/Compositor.thy ===== *)
theory Compositor
  imports Drm Post
begin

text \<open>
  \<open>compositor-rs/src/main.rs\<close>: the state of the compositor, \<open>render_buffer\<close> and the handlers of the
  Wayland requests (\<open>Dispatch\<close> and \<open>GlobalDispatch\<close>).  The display device is that of \<open>Drm\<close>.

  Requests come from numbered clients.  A resource is a client and a protocol id; the tables of the
  program are keyed by the protocol id alone, as in the source.  The mutexes around the tables are
  never contended nor poisoned, because one thread runs everything.  What the process asks of the
  kernel (\<open>mmap\<close>, \<open>dup\<close>, the clock) is answered by the environment \<open>host\<close>; a mapping shows the pixels
  that can be read through it, and \<open>None\<close> where a read is a fault.  A panic or a fault ends the
  process, with its cause in \<open>cp_death\<close>.  \<open>cp_now\<close> is the time in milliseconds.
\<close>

section \<open>Data\<close>

type_synonym object_id = "32 word"
type_synonym resource = "nat \<times> object_id"

datatype shm_format = Argb8888 | Xrgb8888 | OtherFormat "32 word"

record shm_pool_data =
  sp_fd :: int
  sp_size :: "32 word"

record buffer_data =
  bd_pool_id :: object_id
  bd_offset :: "32 word"
  bd_width :: "32 word"
  bd_height :: "32 word"
  bd_stride :: "32 word"
  bd_format :: shm_format

record surface_data =
  sd_buffer_id :: "object_id option"
  sd_frame_callback :: "resource option"

text \<open>The dumb buffer is the memory behind its mapping, in pixels.\<close>

record drm_state =
  ds_fb :: nat
  ds_crtc :: nat
  ds_connector :: nat
  ds_mode :: mode
  ds_db :: "32 word list"

record input_state =
  in_focused_surface :: "object_id option"
  in_pointer :: "resource option"
  in_keyboard :: "resource option"

datatype key_state = Released | Pressed

datatype wl_event =
    Done resource "32 word"
  | Capabilities resource
  | SeatName resource string
  | Format resource shm_format
  | Key resource "32 word" "32 word" "32 word" key_state

datatype death = Overflow | BadSlice | BadAccess | BadClock

record host =
  h_checks :: bool
  h_mmap :: "nat \<Rightarrow> int \<Rightarrow> int \<Rightarrow> nat \<Rightarrow> int + (nat \<Rightarrow> 32 word option)"
  h_dup :: "nat \<Rightarrow> int \<Rightarrow> int"
  h_epoch_ms :: "nat \<Rightarrow> nat option"
  h_errno_text :: "int \<Rightarrow> string"
  h_lag :: "nat \<Rightarrow> nat"

record compositor = device +
  cp_host :: host
  cp_surfaces :: "object_id \<Rightarrow> surface_data option"
  cp_pools :: "object_id \<Rightarrow> shm_pool_data option"
  cp_buffers :: "object_id \<Rightarrow> buffer_data option"
  cp_drm :: "drm_state option"
  cp_input :: input_state
  cp_mapped :: nat
  cp_closed :: "int list"
  cp_sent :: "wl_event list"
  cp_death :: "death option"
  cp_now :: nat

type_synonym 'a comp = "(compositor, 'a, string) act"

section \<open>Arithmetic\<close>

text \<open>With overflow checks (the debug profile) an overflow panics, without them it wraps.\<close>

definition die :: "death \<Rightarrow> (compositor, 'a, 'e) act" where
  "die d = andThen (modify (\<lambda>s. s\<lparr>cp_death := Some d\<rparr>)) (\<lambda>_. panic)"

definition checked :: "bool \<Rightarrow> 'a \<Rightarrow> (compositor, 'a, 'e) act" where
  "checked fits a = andThen (reading (\<lambda>s. h_checks (cp_host s))) (\<lambda>checks.
     if checks \<and> \<not> fits then die Overflow else ret a)"

definition i32_mul :: "32 word \<Rightarrow> 32 word \<Rightarrow> 32 word comp" where
  "i32_mul a b = checked (- (2 ^ 31) \<le> sint a * sint b \<and> sint a * sint b < 2 ^ 31) (a * b)"

definition u16_mul :: "16 word \<Rightarrow> 16 word \<Rightarrow> 16 word comp" where
  "u16_mul a b = checked (unat a * unat b < 2 ^ 16) (a * b)"

definition usize_add :: "nat \<Rightarrow> nat \<Rightarrow> nat comp" where
  "usize_add a b = checked (a + b < 2 ^ 64) ((a + b) mod 2 ^ 64)"

definition usize_mul :: "nat \<Rightarrow> nat \<Rightarrow> nat comp" where
  "usize_mul a b = checked (a * b < 2 ^ 64) ((a * b) mod 2 ^ 64)"

definition usize_of_i32 :: "32 word \<Rightarrow> nat" where
  "usize_of_i32 w = nat (sint w mod 2 ^ 64)"

text \<open>Division by four truncates towards zero.\<close>

definition stride_pixels :: "buffer_data \<Rightarrow> nat" where
  "stride_pixels b =
     (let s = sint (bd_stride b); q = (if 0 \<le> s then s div 4 else - ((- s) div 4))
      in nat (q mod 2 ^ 64))"

section \<open>Rendering\<close>

type_synonym mapping = "nat \<Rightarrow> 32 word option"

definition mmap :: "int \<Rightarrow> 32 word \<Rightarrow> nat \<Rightarrow> mapping comp" where
  "mmap fd offset len = (\<lambda>s.
     case h_mmap (cp_host s) (dv_tick s) fd (sint offset) len of
       Inl errno \<Rightarrow> (Err (''Failed to mmap SHM buffer: errno '' @ h_errno_text (cp_host s) errno), tock s)
     | Inr m \<Rightarrow> (Ok m, (tock s)\<lparr>cp_mapped := Suc (cp_mapped s)\<rparr>))"

definition munmap :: "unit comp" where
  "munmap = modify (\<lambda>s. s\<lparr>cp_mapped := cp_mapped s - 1\<rparr>)"

text \<open>A slice must not span more than \<open>isize::MAX\<close> bytes.\<close>

definition slice_len :: "nat \<Rightarrow> nat comp" where
  "slice_len n = (if 4 * n < 2 ^ 63 then ret n else die BadSlice)"

definition read_pixel :: "mapping \<Rightarrow> nat \<Rightarrow> 32 word comp" where
  "read_pixel m i = (case m i of Some p \<Rightarrow> ret p | None \<Rightarrow> die BadAccess)"

definition fb_memory :: "compositor \<Rightarrow> 32 word list" where
  "fb_memory s = (case cp_drm s of None \<Rightarrow> [] | Some d \<Rightarrow> ds_db d)"

definition set_fb :: "32 word list \<Rightarrow> compositor \<Rightarrow> compositor" where
  "set_fb px s = s\<lparr>cp_drm := map_option (\<lambda>d. d\<lparr>ds_db := px\<rparr>) (cp_drm s)\<rparr>"

definition write_pixel :: "nat \<Rightarrow> 32 word \<Rightarrow> unit comp" where
  "write_pixel i p = andThen (reading fb_memory) (\<lambda>px.
     if i < length px then modify (set_fb (px[i := p])) else die BadAccess)"

text \<open>The body of the inner loop.\<close>

definition copy_pixel :: "mapping \<Rightarrow> nat \<Rightarrow> nat \<Rightarrow> nat \<Rightarrow> nat \<Rightarrow> nat \<Rightarrow> nat \<Rightarrow> unit comp" where
  "copy_pixel m client_len fb_len stride fb_width y x =
     andThen (usize_mul y stride) (\<lambda>a.
     andThen (usize_add a x) (\<lambda>src_idx.
     andThen (usize_mul y fb_width) (\<lambda>b.
     andThen (usize_add b x) (\<lambda>dst_idx.
     if src_idx < client_len \<and> dst_idx < fb_len then
       andThen (read_pixel m src_idx) (\<lambda>p. write_pixel dst_idx p)
     else ret ()))))"

definition copy_pixels :: "mapping \<Rightarrow> buffer_data \<Rightarrow> nat \<Rightarrow> nat \<Rightarrow> mode \<Rightarrow> unit comp" where
  "copy_pixels m b client_len fb_len md =
     (let fb_width = unat (mo_width md); buf_width = usize_of_i32 (bd_width b);
        buf_height = usize_of_i32 (bd_height b); stride = stride_pixels b in
     forEach (\<lambda>y. forEach (copy_pixel m client_len fb_len stride fb_width y)
         [0..<min buf_width fb_width])
       [0..<min buf_height (unat (mo_height md))])"

definition render_buffer :: "object_id \<Rightarrow> unit comp" where
  "render_buffer buffer_id =
     andThen (reading (\<lambda>s. cp_buffers s buffer_id)) (\<lambda>found.
     case found of None \<Rightarrow> raise ''Buffer not found'' | Some b \<Rightarrow>
     andThen (reading (\<lambda>s. cp_pools s (bd_pool_id b))) (\<lambda>found.
     case found of None \<Rightarrow> raise ''Pool not found'' | Some pool \<Rightarrow>
     andThen (i32_mul (bd_height b) (bd_stride b)) (\<lambda>bytes.
     andThen (mmap (sp_fd pool) (bd_offset b) (usize_of_i32 bytes)) (\<lambda>m.
     andThen (i32_mul (bd_width b) (bd_height b)) (\<lambda>pixels.
     andThen (slice_len (usize_of_i32 pixels)) (\<lambda>client_len.
     andThen (reading cp_drm) (\<lambda>drm.
     andThen
       (case drm of None \<Rightarrow> ret () | Some d \<Rightarrow>
          andThen map_dumb_buffer (\<lambda>_.
          andThen (u16_mul (mo_width (ds_mode d)) (mo_height (ds_mode d))) (\<lambda>fb_len.
          andThen (copy_pixels m b client_len (unat fb_len) (ds_mode d)) (\<lambda>_.
          set_crtc (ds_crtc d) (Some (ds_fb d)) [ds_connector d] (Some (ds_mode d)))))) (\<lambda>_.
     munmap))))))))"

section \<open>Requests\<close>

datatype compositor_request = CreateSurface object_id | CreateRegion object_id | OtherCompositor

datatype surface_request =
    Attach "object_id option" "32 word" "32 word"
  | Commit
  | Frame object_id
  | Damage "32 word" "32 word" "32 word" "32 word"
  | OtherSurface

datatype shm_request = CreatePool object_id int "32 word" | OtherShm

datatype pool_request =
    CreateBuffer object_id "32 word" "32 word" "32 word" "32 word" "32 word + shm_format"
  | Resize "32 word"
  | OtherPool

datatype buffer_request = DestroyBuffer | OtherBuffer
datatype seat_request = GetPointer object_id | GetKeyboard object_id | OtherSeat
datatype pointer_request = SetCursor | ReleasePointer | OtherPointer
datatype keyboard_request = ReleaseKeyboard | OtherKeyboard
datatype wl_global = GlobalCompositor | GlobalShm | GlobalSeat

text \<open>A request with the protocol id of the object it is made on.\<close>

datatype message =
    ToCompositor compositor_request
  | ToSurface object_id surface_request
  | ToRegion
  | ToShm shm_request
  | ToPool object_id pool_request
  | ToBuffer object_id buffer_request
  | ToCallback
  | ToSeat seat_request
  | ToPointer pointer_request
  | ToKeyboard keyboard_request
  | Bind wl_global object_id

definition send :: "wl_event \<Rightarrow> (compositor, unit, 'e) act" where
  "send e = modify (\<lambda>s. s\<lparr>cp_sent := cp_sent s @ [e]\<rparr>)"

section \<open>Surfaces\<close>

definition fresh_surface :: surface_data where
  "fresh_surface = \<lparr>sd_buffer_id = None, sd_frame_callback = None\<rparr>"

text \<open>\<open>surfaces.entry(id).or_insert(..)\<close>, updated.\<close>

definition with_surface ::
  "object_id \<Rightarrow> (surface_data \<Rightarrow> surface_data) \<Rightarrow> (compositor, unit, 'e) act"
where
  "with_surface i f = modify (\<lambda>s. s\<lparr>cp_surfaces := (cp_surfaces s)(i :=
     Some (f (case cp_surfaces s i of None \<Rightarrow> fresh_surface | Some d \<Rightarrow> d)))\<rparr>)"

text \<open>Milliseconds since the epoch, \<open>as u32\<close>; a clock before the epoch panics (\<open>unwrap\<close>).\<close>

definition epoch_millis :: "(compositor, 32 word, 'e) act" where
  "epoch_millis = (\<lambda>s. case h_epoch_ms (cp_host s) (dv_tick s) of
       None \<Rightarrow> die BadClock (tock s)
     | Some ms \<Rightarrow> (Ok (word_of_nat ms), tock s))"

definition fire_frame_callback :: "object_id \<Rightarrow> (compositor, unit, 'e) act" where
  "fire_frame_callback i =
     andThen (reading (\<lambda>s. cp_surfaces s i)) (\<lambda>found.
     case found of None \<Rightarrow> ret () | Some d \<Rightarrow>
     case sd_frame_callback d of None \<Rightarrow> ret () | Some cb \<Rightarrow>
     andThen (with_surface i (\<lambda>d. d\<lparr>sd_frame_callback := None\<rparr>)) (\<lambda>_.
     andThen epoch_millis (\<lambda>time.
     send (Done cb time))))"

definition commit :: "object_id \<Rightarrow> (compositor, unit, 'e) act" where
  "commit i =
     andThen (reading (\<lambda>s. case cp_surfaces s i of None \<Rightarrow> None | Some d \<Rightarrow> sd_buffer_id d)) (\<lambda>buffer_id.
     andThen (case buffer_id of None \<Rightarrow> ret () | Some b \<Rightarrow> ignoring (render_buffer b)) (\<lambda>_.
     fire_frame_callback i))"

fun on_surface :: "nat \<Rightarrow> object_id \<Rightarrow> surface_request \<Rightarrow> (compositor, unit, 'e) act" where
  "on_surface client i (Attach buffer x y) = with_surface i (\<lambda>d. d\<lparr>sd_buffer_id := buffer\<rparr>)"
| "on_surface client i Commit = commit i"
| "on_surface client i (Frame cb) =
     with_surface i (\<lambda>d. d\<lparr>sd_frame_callback := Some (client, cb)\<rparr>)"
| "on_surface client i (Damage x y w h) = ret ()"
| "on_surface client i OtherSurface = ret ()"

section \<open>Pools and buffers\<close>

text \<open>A pool that is replaced or dropped closes its file descriptor.\<close>

definition insert_pool :: "object_id \<Rightarrow> shm_pool_data \<Rightarrow> (compositor, unit, 'e) act" where
  "insert_pool i p = modify (\<lambda>s. s\<lparr>cp_pools := (cp_pools s)(i := Some p),
     cp_closed := cp_closed s @ (case cp_pools s i of
         Some old \<Rightarrow> (if 0 \<le> sp_fd old then [sp_fd old] else []) | None \<Rightarrow> [])\<rparr>)"

definition dup :: "int \<Rightarrow> (compositor, int, 'e) act" where
  "dup fd = (\<lambda>s. (Ok (h_dup (cp_host s) (dv_tick s) fd), tock s))"

fun on_shm :: "shm_request \<Rightarrow> (compositor, unit, 'e) act" where
  "on_shm (CreatePool pool fd len) =
     andThen (dup fd) (\<lambda>dup_fd.
     if dup_fd < 0 then ret () else insert_pool pool \<lparr>sp_fd = dup_fd, sp_size = len\<rparr>)"
| "on_shm OtherShm = ret ()"

definition format_or_argb :: "32 word + shm_format \<Rightarrow> shm_format" where
  "format_or_argb f = (case f of Inr g \<Rightarrow> g | Inl _ \<Rightarrow> Argb8888)"

fun on_pool :: "object_id \<Rightarrow> pool_request \<Rightarrow> (compositor, unit, 'e) act" where
  "on_pool pool (CreateBuffer buffer offset width height stride fmt) =
     modify (\<lambda>s. s\<lparr>cp_buffers := (cp_buffers s)(buffer := Some
       \<lparr>bd_pool_id = pool, bd_offset = offset, bd_width = width, bd_height = height,
        bd_stride = stride, bd_format = format_or_argb fmt\<rparr>)\<rparr>)"
| "on_pool pool (Resize len) =
     modify (\<lambda>s. s\<lparr>cp_pools := (cp_pools s)(pool :=
       map_option (\<lambda>p. p\<lparr>sp_size := len\<rparr>) (cp_pools s pool))\<rparr>)"
| "on_pool pool OtherPool = ret ()"

fun on_buffer :: "object_id \<Rightarrow> buffer_request \<Rightarrow> (compositor, unit, 'e) act" where
  "on_buffer buffer DestroyBuffer = modify (\<lambda>s. s\<lparr>cp_buffers := (cp_buffers s)(buffer := None)\<rparr>)"
| "on_buffer buffer OtherBuffer = ret ()"

section \<open>Input\<close>

definition on_input :: "(input_state \<Rightarrow> input_state) \<Rightarrow> (compositor, unit, 'e) act" where
  "on_input f = modify (\<lambda>s. s\<lparr>cp_input := f (cp_input s)\<rparr>)"

fun on_seat :: "nat \<Rightarrow> seat_request \<Rightarrow> (compositor, unit, 'e) act" where
  "on_seat client (GetPointer p) = on_input (\<lambda>n. n\<lparr>in_pointer := Some (client, p)\<rparr>)"
| "on_seat client (GetKeyboard k) = on_input (\<lambda>n. n\<lparr>in_keyboard := Some (client, k)\<rparr>)"
| "on_seat client OtherSeat = ret ()"

text \<open>The requests of a pointer and a keyboard, of a region and a callback are accepted silently, and
  the creation of a surface or a region leaves no trace in the tables.\<close>

fun bind_global :: "nat \<Rightarrow> wl_global \<Rightarrow> object_id \<Rightarrow> (compositor, unit, 'e) act" where
  "bind_global client GlobalCompositor i = ret ()"
| "bind_global client GlobalShm i =
     andThen (send (Format (client, i) Argb8888)) (\<lambda>_. send (Format (client, i) Xrgb8888))"
| "bind_global client GlobalSeat i =
     andThen (send (Capabilities (client, i))) (\<lambda>_. send (SeatName (client, i) ''seat0''))"

fun on_pointer :: "pointer_request \<Rightarrow> (compositor, unit, 'e) act" where
  "on_pointer SetCursor = ret ()"
| "on_pointer ReleasePointer = ret ()"
| "on_pointer OtherPointer = ret ()"

fun on_keyboard :: "keyboard_request \<Rightarrow> (compositor, unit, 'e) act" where
  "on_keyboard ReleaseKeyboard = ret ()"
| "on_keyboard OtherKeyboard = ret ()"

fun on_compositor :: "compositor_request \<Rightarrow> (compositor, unit, 'e) act" where
  "on_compositor (CreateSurface i) = ret ()"
| "on_compositor (CreateRegion i) = ret ()"
| "on_compositor OtherCompositor = ret ()"

fun on_message :: "nat \<Rightarrow> message \<Rightarrow> (compositor, unit, 'e) act" where
  "on_message client (ToCompositor q) = on_compositor q"
| "on_message client (ToSurface i q) = on_surface client i q"
| "on_message client ToRegion = ret ()"
| "on_message client (ToShm q) = on_shm q"
| "on_message client (ToPool i q) = on_pool i q"
| "on_message client (ToBuffer i q) = on_buffer i q"
| "on_message client ToCallback = ret ()"
| "on_message client (ToSeat q) = on_seat client q"
| "on_message client (ToPointer q) = on_pointer q"
| "on_message client (ToKeyboard q) = on_keyboard q"
| "on_message client (Bind g i) = bind_global client g i"

section \<open>Relations the handlers stay within\<close>

text \<open>A relation of states that allows what rendering does allows rendering; one that also allows the
  changes of the tables allows every request.  Stated once, for every relation.\<close>

locale render_effect = effect R for R :: "compositor \<Rightarrow> compositor \<Rightarrow> bool" +
  assumes dies: "R s (s\<lparr>cp_death := d\<rparr>)"
    and ticks: "R s (tock s)"
    and paints: "R s (set_fb px s)"
    and maps: "R s (s\<lparr>cp_mapped := n\<rparr>)"
    and shows_screen: "R s (s\<lparr>dv_log := dv_log s @ [SetCrtc crtc fb cs md]\<rparr>)"
begin

lemma within_die: "within R (die d)"
  unfolding die_def by (intro within_intros within_modify dies)

lemma within_checked: "within R (checked b a)"
  unfolding checked_def by (intro within_intros within_die)

lemma within_ask: "within R (ask f)"
  by (rule withinI) (simp add: ask_def ticks split: sum.split)

lemma within_mmap: "within R (mmap fd off len)"
proof (rule withinI)
  fix s
  show "R s (snd (mmap fd off len s))"
    using chain [OF ticks maps] ticks by (simp add: mmap_def split: sum.split)
qed

lemma within_show: "within R (set_crtc crtc fb cs md)"
  unfolding set_crtc_def perform_def logged_def
  by (intro within_andThen within_ask within_modify shows_screen)

lemma within_render: "within R (render_buffer b)"
  unfolding render_buffer_def copy_pixels_def copy_pixel_def write_pixel_def read_pixel_def slice_len_def
    i32_mul_def u16_mul_def usize_add_def usize_mul_def map_dumb_buffer_def munmap_def Let_def
  by (intro within_intros within_die within_checked within_ask within_mmap within_show within_modify
      paints maps)

end

locale handler_effect = render_effect +
  assumes surfaces: "R s (s\<lparr>cp_surfaces := f\<rparr>)"
    and pools: "R s (s\<lparr>cp_pools := g, cp_closed := cp_closed s @ closed\<rparr>)"
    and buffers: "R s (s\<lparr>cp_buffers := h\<rparr>)"
    and input: "R s (s\<lparr>cp_input := n\<rparr>)"
    and sends: "R s (s\<lparr>cp_sent := cp_sent s @ evs\<rparr>)"
    and waits: "R s (s\<lparr>cp_now := cp_now s + lag\<rparr>)"
begin

lemma within_with_surface: "within R (with_surface i f)"
  unfolding with_surface_def by (intro within_modify surfaces)

lemma within_send: "within R (send ev)"
  unfolding send_def by (intro within_modify sends)

lemma within_epoch: "within R epoch_millis"
proof (rule withinI)
  fix s
  show "R s (snd (epoch_millis s))"
    using chain [OF ticks dies] ticks by (simp add: epoch_millis_def die_def split: option.split)
qed

lemma within_commit: "within R (commit i)"
  unfolding commit_def fire_frame_callback_def
  by (intro within_intros within_render within_with_surface within_epoch within_send)

lemma within_on_surface: "within R (on_surface client i q)"
  by (cases q) (simp_all add: within_with_surface within_commit within_ret del: run_ret)

lemma within_on_shm: "within R (on_shm q)"
proof (cases q)
  case (CreatePool pool fd len)
  have "within R (dup fd)" by (rule withinI) (simp add: dup_def ticks)
  then show ?thesis
    unfolding CreatePool on_shm.simps insert_pool_def
    by (intro within_intros within_modify pools)
qed (simp add: within_ret del: run_ret)

lemma within_on_pool: "within R (on_pool i q)"
proof (cases q)
  case (Resize len)
  have "R s (s\<lparr>cp_pools := g\<rparr>)" for s g using pools [where s = s and g = g and closed = "[]"] by simp
  then show ?thesis unfolding Resize on_pool.simps by (rule within_modify)
next
  case CreateBuffer
  show ?thesis unfolding CreateBuffer on_pool.simps by (rule within_modify) (rule buffers)
qed (simp add: within_ret del: run_ret)

lemma within_on_buffer: "within R (on_buffer i q)"
proof (cases q)
  case DestroyBuffer
  show ?thesis unfolding DestroyBuffer on_buffer.simps by (rule within_modify) (rule buffers)
qed (simp add: within_ret del: run_ret)

lemma within_on_input: "within R (on_input f)"
  unfolding on_input_def by (rule within_modify) (rule input)

lemma within_bind: "within R (bind_global client g i)"
  by (cases g) (simp_all add: within_ret within_andThen within_send del: run_ret)

lemma within_message: "within R (on_message client q)"
proof (cases q)
  case (ToSeat r)
  then show ?thesis by (cases r) (simp_all add: within_on_input within_ret del: run_ret)
next
  case (ToCompositor r)
  then show ?thesis by (cases r) (simp_all add: within_ret del: run_ret)
next
  case (ToPointer r)
  then show ?thesis by (cases r) (simp_all add: within_ret del: run_ret)
next
  case (ToKeyboard r)
  then show ?thesis by (cases r) (simp_all add: within_ret del: run_ret)
qed (simp_all add: within_on_surface within_on_shm within_on_pool within_on_buffer within_bind within_ret
    del: run_ret)

end

text \<open>Rendering changes the framebuffer, the log of the device, the mappings and the cause of death,
  and nothing else.\<close>

definition rendered :: "compositor \<Rightarrow> compositor \<Rightarrow> bool" where
  "rendered s t \<longleftrightarrow> cp_surfaces t = cp_surfaces s \<and> cp_pools t = cp_pools s \<and> cp_buffers t = cp_buffers s
     \<and> cp_input t = cp_input s \<and> cp_closed t = cp_closed s \<and> cp_sent t = cp_sent s
     \<and> cp_host t = cp_host s \<and> cp_now t = cp_now s \<and> dv_kms t = dv_kms s"

interpretation re: render_effect rendered
  by unfold_locales (simp_all add: rendered_def tock_def set_fb_def)

end
