(* ===== verification/Blit.thy ===== *)
theory Blit
  imports Compositor
begin

text \<open>
  What \<open>render_buffer\<close> puts on the screen: the copying loops against a closed form of the
  framebuffer, and the sizes of buffers and screens for which that is what the client drew.
\<close>

section \<open>The picture\<close>

text \<open>The framebuffer \<open>px\<close> after the rows above \<open>y\<close> and the first \<open>x\<close> pixels of row \<open>y\<close> were copied.\<close>

definition source :: "buffer_data \<Rightarrow> mode \<Rightarrow> nat \<Rightarrow> nat" where
  "source b md k = (k div unat (mo_width md)) * stride_pixels b + k mod unat (mo_width md)"

definition copied :: "buffer_data \<Rightarrow> mode \<Rightarrow> nat \<Rightarrow> nat \<Rightarrow> nat \<Rightarrow> bool" where
  "copied b md client_len fb_len k \<longleftrightarrow>
     k mod unat (mo_width md) < min (usize_of_i32 (bd_width b)) (unat (mo_width md))
     \<and> k div unat (mo_width md) < min (usize_of_i32 (bd_height b)) (unat (mo_height md))
     \<and> source b md k < client_len \<and> k < fb_len"

definition before :: "mode \<Rightarrow> nat \<Rightarrow> nat \<Rightarrow> nat \<Rightarrow> bool" where
  "before md y x k \<longleftrightarrow> k div unat (mo_width md) < y
     \<or> k div unat (mo_width md) = y \<and> k mod unat (mo_width md) < x"

definition picture ::
  "mapping \<Rightarrow> buffer_data \<Rightarrow> nat \<Rightarrow> nat \<Rightarrow> mode \<Rightarrow> (nat \<Rightarrow> bool) \<Rightarrow> 32 word list \<Rightarrow> 32 word list"
where
  "picture m b client_len fb_len md reached px =
     map (\<lambda>k. if reached k \<and> copied b md client_len fb_len k then the (m (source b md k)) else px ! k)
       [0..<length px]"

lemma length_picture [simp]: "length (picture m b cl fl md r px) = length px"
  by (simp add: picture_def)

lemma picture_none: "(\<And>k. k < length px \<Longrightarrow> \<not> (r k \<and> copied b md cl fl k)) \<Longrightarrow> picture m b cl fl md r px = px"
  by (rule nth_equalityI) (auto simp: picture_def)

lemma picture_cong:
  "(\<And>k. k < length px \<Longrightarrow> copied b md cl fl k \<Longrightarrow> r k = r' k) \<Longrightarrow>
   picture m b cl fl md r px = picture m b cl fl md r' px"
  by (auto simp: picture_def)

lemma set_fb_simps [simp]:
  "cp_host (set_fb px s) = cp_host s" "cp_mapped (set_fb px s) = cp_mapped s"
  "dv_kms (set_fb px s) = dv_kms s" "dv_log (set_fb px s) = dv_log s" "dv_tick (set_fb px s) = dv_tick s"
  "set_fb px (set_fb py s) = set_fb px s" "cp_buffers (set_fb px s) = cp_buffers s"
  by (cases "cp_drm s"; simp add: set_fb_def)+

lemma fb_memory_set [simp]: "cp_drm s \<noteq> None \<Longrightarrow> fb_memory (set_fb px s) = px"
  by (auto simp: fb_memory_def set_fb_def)

section \<open>The loops\<close>

lemma run_checked: "fits \<Longrightarrow> checked fits a s = (Ok a, s)"
  by (simp add: checked_def)

lemma run_usize:
  "a + b < 2 ^ 64 \<Longrightarrow> usize_add a b s = (Ok (a + b), s)"
  "a * b < 2 ^ 64 \<Longrightarrow> usize_mul a b s = (Ok (a * b), s)"
  by (simp_all add: usize_add_def usize_mul_def run_checked)

text \<open>The rows and columns of a screen stay below the largest 16-bit number, the stride of a buffer
  below that of 32 bits, so the indices never wrap.\<close>

lemma small_index:
  assumes "y < 2 ^ 16" and "x < 2 ^ 16" and "(n :: nat) < 2 ^ 32"
  shows "y * n < 2 ^ 64" and "y * n + x < 2 ^ 64"
proof -
  have "y * n \<le> (2 ^ 16 - 1) * (2 ^ 32 - 1)" using assms by (intro mult_le_mono) auto
  then show "y * n < 2 ^ 64" and "y * n + x < 2 ^ 64" using assms(2) by simp_all
qed

lemma u16_bound: "unat (w :: 16 word) < 2 ^ 16"
  using unsigned_less [of w, where ?'a = nat] by simp

lemma place:
  assumes "(x :: nat) < w"
  shows "(y * w + x) div w = y" and "(y * w + x) mod w = x"
  using assms by simp_all

lemma copy_pixel_step:
  assumes "x < min (usize_of_i32 (bd_width b)) (unat (mo_width md))"
    and "y < min (usize_of_i32 (bd_height b)) (unat (mo_height md))"
    and "stride_pixels b < 2 ^ 32" and "cp_drm s \<noteq> None"
    and "\<And>k. k < cl \<Longrightarrow> m k \<noteq> None" and "fl \<le> length px"
  shows "copy_pixel m cl fl (stride_pixels b) (unat (mo_width md)) y x
      (set_fb (picture m b cl fl md (before md y x) px) s)
    = (Ok (), set_fb (picture m b cl fl md (before md y (Suc x)) px) s)"
proof -
  let ?w = "unat (mo_width md)" let ?sp = "stride_pixels b"
  let ?px = "picture m b cl fl md (before md y x) px" let ?k = "y * ?w + x"
  have y: "y < 2 ^ 16" and x: "x < 2 ^ 16" and w: "x < ?w" "?w < 2 ^ 32"
    using assms(1,2) u16_bound [of "mo_height md"] u16_bound [of "mo_width md"] by auto
  note idx = small_index [OF y x assms(3)] small_index [OF y x w(2)]
  have here: "k div ?w = y \<and> k mod ?w = x \<longleftrightarrow> k = ?k" for k
    using place [OF w(1)] div_mult_mod_eq [of k ?w] by auto
  have src: "source b md ?k = y * ?sp + x" using w(1) by (simp add: source_def)
  have cp: "copied b md cl fl ?k \<longleftrightarrow> y * ?sp + x < cl \<and> ?k < fl"
    using assms(1,2) w(1) place [OF w(1)] by (simp add: copied_def src)
  have step: "before md y (Suc x) k \<longleftrightarrow> before md y x k \<or> k = ?k" for k
    unfolding before_def less_Suc_eq here [of k, symmetric] by blast
  have not: "\<not> before md y x ?k" using place [OF w(1)] w(1) by (simp add: before_def)
  show ?thesis
  proof (cases "y * ?sp + x < cl \<and> ?k < fl")
    case True
    then obtain p where p: "m (y * ?sp + x) = Some p" using assms(5) by blast
    have "?px[?k := p] = picture m b cl fl md (before md y (Suc x)) px"
    proof (rule nth_equalityI)
      fix k
      assume "k < length (?px[?k := p])"
      then show "?px[?k := p] ! k = picture m b cl fl md (before md y (Suc x)) px ! k"
        using True p cp src step [of k] not by (cases "k = ?k") (auto simp: picture_def)
    qed simp
    with True p idx assms(4,6) show ?thesis
      by (simp add: copy_pixel_def run_usize read_pixel_def write_pixel_def)
  next
    case False
    then have "?px = picture m b cl fl md (before md y (Suc x)) px"
      using cp step by (intro picture_cong) auto
    with False idx show ?thesis by (auto simp: copy_pixel_def run_usize)
  qed
qed

lemma copy_pixels_picture:
  assumes "stride_pixels b < 2 ^ 32" and "cp_drm s \<noteq> None"
    and "\<And>k. k < cl \<Longrightarrow> m k \<noteq> None" and "fl \<le> length (fb_memory s)"
  shows "copy_pixels m b cl fl md s
    = (Ok (), set_fb (picture m b cl fl md (\<lambda>_. True) (fb_memory s)) s)"
proof -
  let ?px = "fb_memory s" let ?w = "unat (mo_width md)" let ?h = "unat (mo_height md)"
  let ?W = "min (usize_of_i32 (bd_width b)) ?w" let ?H = "min (usize_of_i32 (bd_height b)) ?h"
  let ?at = "\<lambda>y x. set_fb (picture m b cl fl md (before md y x) ?px) s"
  have s: "s = ?at 0 0"
  proof -
    have "picture m b cl fl md (before md 0 0) ?px = ?px" by (rule picture_none) (simp add: before_def)
    then show ?thesis using assms(2) by (auto simp: set_fb_def fb_memory_def)
  qed
  have row: "forEach (copy_pixel m cl fl (stride_pixels b) ?w y) [0..<?W] (?at y 0) = (Ok (), ?at (Suc y) 0)"
    if "y < ?H" for y
  proof -
    have "\<exists>t. forEach (copy_pixel m cl fl (stride_pixels b) ?w y) [0..<?W] (?at y 0) = (Ok (), t) \<and> t = ?at y ?W"
      by (rule forEach_range) (use copy_pixel_step [OF _ that assms(1,2,3,4)] in auto)
    moreover have "picture m b cl fl md (before md y ?W) ?px = picture m b cl fl md (before md (Suc y) 0) ?px"
    proof (rule picture_cong)
      fix k
      assume c: "copied b md cl fl k"
      then have "k mod ?w < ?W" by (simp add: copied_def)
      then show "before md y ?W k = before md (Suc y) 0 k" by (auto simp: before_def)
    qed
    ultimately show ?thesis by simp
  qed
  have "\<exists>t. forEach (\<lambda>y. forEach (copy_pixel m cl fl (stride_pixels b) ?w y) [0..<?W]) [0..<?H] s = (Ok (), t)
    \<and> t = ?at ?H 0"
    by (rule forEach_range) (use s row in auto)
  moreover have "picture m b cl fl md (before md ?H 0) ?px = picture m b cl fl md (\<lambda>_. True) ?px"
    by (rule picture_cong) (auto simp: before_def copied_def)
  ultimately show ?thesis by (simp add: copy_pixels_def Let_def)
qed

section \<open>Rendering\<close>

text \<open>A buffer with a positive size, rows that hold their pixels and no more bytes than a signed 32-bit
  number counts.\<close>

definition renderable :: "buffer_data \<Rightarrow> bool" where
  "renderable b \<longleftrightarrow> 0 < sint (bd_width b) \<and> 0 < sint (bd_height b)
     \<and> 4 * sint (bd_width b) \<le> sint (bd_stride b)
     \<and> sint (bd_height b) * sint (bd_stride b) < 2 ^ 31"

definition buffer_pixels :: "buffer_data \<Rightarrow> nat" where
  "buffer_pixels b = nat (sint (bd_width b)) * nat (sint (bd_height b))"

definition buffer_bytes :: "buffer_data \<Rightarrow> nat" where
  "buffer_bytes b = nat (sint (bd_height b)) * nat (sint (bd_stride b))"

lemma usize_nonneg: "0 \<le> sint w \<Longrightarrow> usize_of_i32 w = nat (sint w)"
  using sint_lt [of w] by (simp add: usize_of_i32_def)

lemma sint_mult_fits:
  fixes a b :: "32 word"
  assumes "0 \<le> sint a" and "0 \<le> sint b" and "sint a * sint b < 2 ^ 31"
  shows "sint (a * b) = sint a * sint b" and "i32_mul a b s = (Ok (a * b), s)"
    and "usize_of_i32 (a * b) = nat (sint a) * nat (sint b)"
proof -
  have p: "0 \<le> sint a * sint b" using assms by simp
  then show e: "sint (a * b) = sint a * sint b"
    using assms(3) by (simp add: sint_word_ariths signed_take_bit_int_eq_self)
  show "i32_mul a b s = (Ok (a * b), s)"
    unfolding i32_mul_def using p assms(3) by (intro run_checked) simp
  show "usize_of_i32 (a * b) = nat (sint a) * nat (sint b)"
    using usize_nonneg [of "a * b"] p e assms by (simp add: nat_mult_distrib)
qed

lemma renderable_bounds:
  assumes "renderable b"
  shows "stride_pixels b = nat (sint (bd_stride b)) div 4" and "stride_pixels b < 2 ^ 32"
    and "4 * buffer_pixels b \<le> buffer_bytes b" and "buffer_bytes b < 2 ^ 31"
    and "sint (bd_width b) * sint (bd_height b) < 2 ^ 31"
    and "usize_of_i32 (bd_width b) = nat (sint (bd_width b))"
    and "usize_of_i32 (bd_height b) = nat (sint (bd_height b))"
proof -
  let ?w = "sint (bd_width b)" let ?h = "sint (bd_height b)" let ?s = "sint (bd_stride b)"
  have r: "0 < ?w" "0 < ?h" "4 * ?w \<le> ?s" "?h * ?s < 2 ^ 31" using assms by (simp_all add: renderable_def)
  have s: "0 \<le> ?s" "?s < 2 ^ 31" using r sint_lt [of "bd_stride b"] by simp_all
  have "?s div 4 \<le> ?s" using s(1) by presburger
  then have "?s div 4 < 2 ^ 64" using s(2) by simp
  then show "stride_pixels b = nat ?s div 4" using s
    by (simp add: stride_pixels_def Let_def nat_div_distrib)
  then show "stride_pixels b < 2 ^ 32" using s by simp
  have "?h * (4 * ?w) \<le> ?h * ?s" using r by (intro mult_left_mono) simp_all
  then have le: "4 * (?w * ?h) \<le> ?h * ?s" by (simp add: algebra_simps)
  then have "nat (4 * (?w * ?h)) \<le> nat (?h * ?s)" by simp
  then show "4 * buffer_pixels b \<le> buffer_bytes b"
    using r s by (simp add: buffer_pixels_def buffer_bytes_def nat_mult_distrib)
  have "nat (?h * ?s) < 2 ^ 31" using r(4) by simp
  then show "buffer_bytes b < 2 ^ 31" using r s by (simp add: buffer_bytes_def nat_mult_distrib)
  have "0 \<le> ?w * ?h" using r by simp
  then show "?w * ?h < 2 ^ 31" using le r(4) by linarith
  show "usize_of_i32 (bd_width b) = nat ?w" "usize_of_i32 (bd_height b) = nat ?h"
    using r by (simp_all add: usize_nonneg)
qed

text \<open>Mapping the buffer works and every pixel that lies within the mapped bytes can be read.\<close>

definition maps :: "compositor \<Rightarrow> shm_pool_data \<Rightarrow> buffer_data \<Rightarrow> mapping \<Rightarrow> bool" where
  "maps s pool b m \<longleftrightarrow>
     (\<forall>n. h_mmap (cp_host s) n (sp_fd pool) (sint (bd_offset b)) (buffer_bytes b) = Inr m)
     \<and> (\<forall>k. 4 * k + 4 \<le> buffer_bytes b \<longrightarrow> m k \<noteq> None)"

text \<open>What the device shows in the slice the program makes of the framebuffer's memory.\<close>

definition slice_pixels :: "mode \<Rightarrow> nat" where
  "slice_pixels md = unat (mo_width md * mo_height md)"

definition screen_ready :: "compositor \<Rightarrow> drm_state \<Rightarrow> bool" where
  "screen_ready s d \<longleftrightarrow> cp_drm s = Some d \<and> (\<forall>n. k_call (dv_kms s) n = None)
     \<and> slice_pixels (ds_mode d) \<le> length (ds_db d)
     \<and> (h_checks (cp_host s) \<longrightarrow> unat (mo_width (ds_mode d)) * unat (mo_height (ds_mode d)) < 2 ^ 16)"

definition show_crtc :: "drm_state \<Rightarrow> device_call" where
  "show_crtc d = SetCrtc (ds_crtc d) (Some (ds_fb d)) [ds_connector d] (Some (ds_mode d))"

definition mapped :: "compositor \<Rightarrow> compositor" where
  "mapped s = tock ((tock s)\<lparr>cp_mapped := Suc (cp_mapped s)\<rparr>)"

lemma mapped_simps [simp]:
  "cp_drm (mapped s) = cp_drm s" "cp_host (mapped s) = cp_host s" "dv_kms (mapped s) = dv_kms s"
  "dv_log (mapped s) = dv_log s" "cp_mapped (mapped s) = Suc (cp_mapped s)" "cp_death (mapped s) = cp_death s"
  by (simp_all add: mapped_def tock_def)

text \<open>Up to the copying, with the buffer and the screen mapped.\<close>

lemma render_mapped:
  assumes "cp_buffers s i = Some b" and "cp_pools s (bd_pool_id b) = Some pool" and "renderable b"
    and "maps s pool b m" and "cp_drm s = Some d" and "\<forall>n. k_call (dv_kms s) n = None"
  shows "render_buffer i s =
    andThen (andThen (u16_mul (mo_width (ds_mode d)) (mo_height (ds_mode d))) (\<lambda>fb_len.
      andThen (copy_pixels m b (buffer_pixels b) (unat fb_len) (ds_mode d)) (\<lambda>_.
      set_crtc (ds_crtc d) (Some (ds_fb d)) [ds_connector d] (Some (ds_mode d))))) (\<lambda>_. munmap) (mapped s)"
proof -
  note r = assms(3) [unfolded renderable_def] and bounds = renderable_bounds [OF assms(3)]
  have bytes: "i32_mul (bd_height b) (bd_stride b) s' = (Ok (bd_height b * bd_stride b), s')"
    "usize_of_i32 (bd_height b * bd_stride b) = buffer_bytes b" for s'
    using sint_mult_fits [of "bd_height b" "bd_stride b"] r by (simp_all add: buffer_bytes_def)
  have pixels: "i32_mul (bd_width b) (bd_height b) s' = (Ok (bd_width b * bd_height b), s')"
    "usize_of_i32 (bd_width b * bd_height b) = buffer_pixels b" for s'
    using sint_mult_fits [of "bd_width b" "bd_height b"] r bounds(5) by (simp_all add: buffer_pixels_def)
  define u where "u = (tock s)\<lparr>cp_mapped := Suc (cp_mapped s)\<rparr>"
  have map: "mmap (sp_fd pool) (bd_offset b) (buffer_bytes b) s = (Ok m, u)"
    using assms(4) by (simp add: mmap_def maps_def u_def)
  have len: "slice_len (buffer_pixels b) s' = (Ok (buffer_pixels b), s')" for s'
    using bounds(3,4) by (simp add: slice_len_def)
  have u: "cp_drm u = Some d" "map_dumb_buffer u = (Ok (), tock u)" "tock u = mapped s"
    using assms(5,6) by (simp_all add: u_def tock_def mapped_def map_dumb_buffer_def run_ask verdict_def)
  show ?thesis
    using assms(1,2) bytes pixels map len u by (simp add: render_buffer_def run_andThen)
qed

lemma run_render:
  assumes "cp_buffers s i = Some b" and "cp_pools s (bd_pool_id b) = Some pool" and "renderable b"
    and "maps s pool b m" and "screen_ready s d"
  shows "\<exists>t. render_buffer i s = (Ok (), t)
    \<and> cp_drm t = Some (d\<lparr>ds_db := picture m b (buffer_pixels b) (slice_pixels (ds_mode d)) (ds_mode d)
        (\<lambda>_. True) (ds_db d)\<rparr>)
    \<and> dv_log t = dv_log s @ [show_crtc d] \<and> cp_mapped t = cp_mapped s \<and> cp_death t = cp_death s"
proof -
  note bounds = renderable_bounds [OF assms(3)]
  have d: "cp_drm s = Some d" "\<forall>n. k_call (dv_kms s) n = None" using assms(5) by (simp_all add: screen_ready_def)
  have fb: "u16_mul (mo_width (ds_mode d)) (mo_height (ds_mode d)) (mapped s)
      = (Ok (mo_width (ds_mode d) * mo_height (ds_mode d)), mapped s)"
    using assms(5) by (auto simp: u16_mul_def checked_def screen_ready_def)
  let ?px = "picture m b (buffer_pixels b) (slice_pixels (ds_mode d)) (ds_mode d) (\<lambda>_. True) (ds_db d)"
  have copy: "copy_pixels m b (buffer_pixels b) (slice_pixels (ds_mode d)) (ds_mode d) (mapped s)
      = (Ok (), set_fb ?px (mapped s))"
  proof -
    have "m k \<noteq> None" if "k < buffer_pixels b" for k
      using assms(4) that bounds(3) unfolding maps_def by auto
    moreover have "fb_memory (mapped s) = ds_db d" using d by (simp add: fb_memory_def)
    ultimately show ?thesis
      using copy_pixels_picture [OF bounds(2), of "mapped s"] d assms(5) by (simp add: screen_ready_def)
  qed
  have crtc: "set_crtc (ds_crtc d) (Some (ds_fb d)) [ds_connector d] (Some (ds_mode d)) (set_fb ?px (mapped s))
      = (Ok (), (tock (set_fb ?px (mapped s)))\<lparr>dv_log := dv_log s @ [show_crtc d]\<rparr>)"
    using d(2) by (simp add: set_crtc_def perform_def run_ask verdict_def show_crtc_def)
  show ?thesis
    unfolding render_mapped [OF assms(1-4) d]
    using fb copy crtc d(1) by (simp add: slice_pixels_def munmap_def set_fb_def tock_def)
qed

lemma picture_at:
  assumes "x < unat (mo_width md)" and "y * unat (mo_width md) + x < length px"
  shows "picture m b cl fl md (\<lambda>_. True) px ! (y * unat (mo_width md) + x) =
    (if x < usize_of_i32 (bd_width b) \<and> y < min (usize_of_i32 (bd_height b)) (unat (mo_height md))
        \<and> y * stride_pixels b + x < cl \<and> y * unat (mo_width md) + x < fl
     then the (m (y * stride_pixels b + x)) else px ! (y * unat (mo_width md) + x))"
  using assms place [OF assms(1), of y] by (simp add: picture_def copied_def source_def)

lemma picture_beyond: "k < length px \<Longrightarrow> fl \<le> k \<Longrightarrow> picture m b cl fl md r px ! k = px ! k"
  by (simp add: picture_def copied_def)

text \<open>A small compositor: one client's buffer 7 in pool 5, over a screen of black pixels; the pixels of
  the pool are numbered from one.\<close>

definition sample_mapping :: mapping where
  "sample_mapping k = Some (word_of_nat (k + 1))"

definition sample_host :: "bool \<Rightarrow> host" where
  "sample_host checks = \<lparr>h_checks = checks, h_mmap = \<lambda>_ _ _ _. Inr sample_mapping,
     h_dup = \<lambda>_ fd. fd + 1, h_epoch_ms = \<lambda>_. Some 5000, h_errno_text = \<lambda>_. [], h_lag = \<lambda>_. 1\<rparr>"

definition sample_pool :: shm_pool_data where
  "sample_pool = \<lparr>sp_fd = 9, sp_size = 65536\<rparr>"

definition sample_buffer :: "32 word \<Rightarrow> 32 word \<Rightarrow> 32 word \<Rightarrow> buffer_data" where
  "sample_buffer w h stride = \<lparr>bd_pool_id = 5, bd_offset = 0, bd_width = w, bd_height = h,
     bd_stride = stride, bd_format = Argb8888\<rparr>"

definition sample_drm :: "16 word \<Rightarrow> 16 word \<Rightarrow> drm_state" where
  "sample_drm w h = \<lparr>ds_fb = 50, ds_crtc = 41, ds_connector = 32,
     ds_mode = \<lparr>mo_width = w, mo_height = h, mo_timings = 60\<rparr>, ds_db = replicate (unat w * unat h) 0\<rparr>"

definition sample_compositor :: "bool \<Rightarrow> drm_state \<Rightarrow> buffer_data \<Rightarrow> compositor" where
  "sample_compositor checks d b = \<lparr>dv_kms = sample_kms, dv_tick = 0, dv_log = [],
     cp_host = sample_host checks, cp_surfaces = \<lambda>_. None,
     cp_pools = (\<lambda>_. None)(5 := Some sample_pool), cp_buffers = (\<lambda>_. None)(7 := Some b), cp_drm = Some d,
     cp_input = \<lparr>in_focused_surface = None, in_pointer = None, in_keyboard = None\<rparr>,
     cp_mapped = 0, cp_closed = [], cp_sent = [], cp_death = None, cp_now = 0\<rparr>"

lemma sample_simps [simp]:
  "cp_buffers (sample_compositor c d b) 7 = Some b" "cp_drm (sample_compositor c d b) = Some d"
  "bd_pool_id (sample_buffer w h stride) = 5"
  "cp_pools (sample_compositor c d b) 5 = Some sample_pool" "cp_mapped (sample_compositor c d b) = 0"
  "ds_mode (sample_drm mw mh) = \<lparr>mo_width = mw, mo_height = mh, mo_timings = 60\<rparr>"
  "ds_db (sample_drm mw mh) = replicate (unat mw * unat mh) 0"
  by (simp_all add: sample_compositor_def sample_buffer_def sample_drm_def)

lemma sample_maps [simp]: "maps (sample_compositor c d b) p b' sample_mapping"
  by (simp add: maps_def sample_compositor_def sample_host_def sample_mapping_def)

lemma slice_le: "slice_pixels md \<le> unat (mo_width md) * unat (mo_height md)"
  by (simp add: slice_pixels_def unat_word_ariths)

lemma sample_ready:
  "(c \<longrightarrow> unat mw * unat mh < 2 ^ 16) \<Longrightarrow> screen_ready (sample_compositor c (sample_drm mw mh) b) (sample_drm mw mh)"
  using slice_le [of "ds_mode (sample_drm mw mh)"]
  by (simp add: screen_ready_def sample_compositor_def sample_kms_def sample_host_def)

section \<open>What the client drew\<close>

lemma render_pixels:
  assumes "cp_buffers s i = Some b" and "cp_pools s (bd_pool_id b) = Some pool" and "renderable b"
    and "maps s pool b m" and "screen_ready s d"
    and "sint (bd_stride b) = 4 * sint (bd_width b)"
    and "unat (mo_width (ds_mode d)) * unat (mo_height (ds_mode d)) < 2 ^ 16"
  shows "\<exists>t. render_buffer i s = (Ok (), t) \<and> dv_log t = dv_log s @ [show_crtc d]
    \<and> cp_mapped t = cp_mapped s \<and> length (fb_memory t) = length (ds_db d)
    \<and> (\<forall>y x. x < unat (mo_width (ds_mode d)) \<and> y < unat (mo_height (ds_mode d)) \<longrightarrow>
        fb_memory t ! (y * unat (mo_width (ds_mode d)) + x) =
          (if x < nat (sint (bd_width b)) \<and> y < nat (sint (bd_height b))
           then the (m (y * nat (sint (bd_width b)) + x))
           else ds_db d ! (y * unat (mo_width (ds_mode d)) + x)))"
proof -
  let ?md = "ds_mode d"
  let ?w = "unat (mo_width ?md)" let ?h = "unat (mo_height ?md)"
  note bounds = renderable_bounds [OF assms(3)]
  obtain t where t: "render_buffer i s = (Ok (), t)" "dv_log t = dv_log s @ [show_crtc d]" "cp_mapped t = cp_mapped s"
    and drm: "cp_drm t = Some (d\<lparr>ds_db := picture m b (buffer_pixels b) (slice_pixels ?md) ?md (\<lambda>_. True) (ds_db d)\<rparr>)"
    using run_render [OF assms(1-5)] by blast
  have slice: "slice_pixels ?md = ?w * ?h" using assms(7) by (simp add: slice_pixels_def unat_word_ariths)
  have sp: "stride_pixels b = nat (sint (bd_width b))"
    using bounds(1) assms(3,6) by (simp add: nat_mult_distrib renderable_def)
  have "fb_memory t ! (y * ?w + x) = (if x < nat (sint (bd_width b)) \<and> y < nat (sint (bd_height b))
      then the (m (y * nat (sint (bd_width b)) + x)) else ds_db d ! (y * ?w + x))"
    if "x < ?w" "y < ?h" for y x
  proof -
    have in_screen: "y * ?w + x < ?w * ?h"
      using mult_le_mono1 [of "Suc y" ?h ?w] that by (simp add: mult.commute)
    have in_buffer: "y * nat (sint (bd_width b)) + x < buffer_pixels b"
      if "x < nat (sint (bd_width b))" "y < nat (sint (bd_height b))"
      using mult_le_mono1 [of "Suc y" "nat (sint (bd_height b))" "nat (sint (bd_width b))"] that
      by (simp add: buffer_pixels_def mult.commute)
    have "y * ?w + x < length (ds_db d)" using in_screen slice assms(5) by (simp add: screen_ready_def)
    then show ?thesis
      using picture_at [OF that(1)] drm in_screen in_buffer slice sp bounds(6,7) that(2)
      by (simp add: fb_memory_def)
  qed
  moreover have "length (fb_memory t) = length (ds_db d)" using drm by (simp add: fb_memory_def)
  ultimately show ?thesis using t by (intro exI [of _ t]) blast
qed

text \<open>C3: A client whose buffer has no padding between its rows sees its picture: on a screen of less
  than 65536 pixels, rendering succeeds, every pixel of the screen that the buffer covers has the
  client's colour, every other pixel keeps its colour, the screen is shown, and no mapping is left
  behind.  All reads are within the mapped bytes and all writes within the framebuffer: any other
  access would have ended the process.\<close>

theorem render_shows_client:
  assumes "cp_buffers s i = Some b" and "cp_pools s (bd_pool_id b) = Some pool" and "renderable b"
    and "maps s pool b m" and "screen_ready s d"
    and "sint (bd_stride b) = 4 * sint (bd_width b)"
    and "unat (mo_width (ds_mode d)) * unat (mo_height (ds_mode d)) < 2 ^ 16"
  shows "\<exists>t. render_buffer i s = (Ok (), t) \<and> dv_log t = dv_log s @ [show_crtc d]
    \<and> cp_mapped t = cp_mapped s \<and> length (fb_memory t) = length (ds_db d)
    \<and> (\<forall>y x. x < unat (mo_width (ds_mode d)) \<and> y < unat (mo_height (ds_mode d)) \<longrightarrow>
        fb_memory t ! (y * unat (mo_width (ds_mode d)) + x) =
          (if x < nat (sint (bd_width b)) \<and> y < nat (sint (bd_height b))
           then the (m (y * nat (sint (bd_width b)) + x))
           else ds_db d ! (y * unat (mo_width (ds_mode d)) + x)))"
  using assms by (rule render_pixels)

lemma render_shows_client_witness:
  "\<exists>t. render_buffer 7 (sample_compositor True (sample_drm 3 2) (sample_buffer 2 2 8)) = (Ok (), t)
    \<and> fb_memory t ! 4 = 4 \<and> fb_memory t ! 5 = 0"
proof -
  let ?s = "sample_compositor True (sample_drm 3 2) (sample_buffer 2 2 8)"
  have "renderable (sample_buffer 2 2 8)" by (simp add: renderable_def sample_buffer_def)
  moreover have "sint (bd_stride (sample_buffer 2 2 8)) = 4 * sint (bd_width (sample_buffer 2 2 8))"
    by (simp add: sample_buffer_def)
  ultimately obtain t where "render_buffer 7 ?s = (Ok (), t)"
    and px: "\<forall>y x. x < unat (3 :: 16 word) \<and> y < unat (2 :: 16 word) \<longrightarrow> fb_memory t ! (y * unat (3 :: 16 word) + x) =
      (if x < nat (sint (bd_width (sample_buffer 2 2 8))) \<and> y < nat (sint (bd_height (sample_buffer 2 2 8)))
       then the (sample_mapping (y * nat (sint (bd_width (sample_buffer 2 2 8))) + x))
       else ds_db (sample_drm 3 2) ! (y * unat (3 :: 16 word) + x))"
    using render_shows_client [of ?s 7 "sample_buffer 2 2 8" sample_pool sample_mapping "sample_drm 3 2"]
      sample_ready [of True 3 2] by auto
  moreover have "fb_memory t ! 4 = 4" "fb_memory t ! 5 = 0"
    using px [rule_format, of 1 1] px [rule_format, of 2 1] by (simp_all add: sample_buffer_def sample_mapping_def)
  ultimately show ?thesis by auto
qed

section \<open>What it loses\<close>

text \<open>C26: A client whose rows are padded loses the bottom of its picture: the slice of the mapped
  pixels is as long as the visible pixels alone, so every pixel that lies behind that many pixels of
  the buffer is not copied, although it is in the buffer and on the screen.  The screen keeps there
  what it showed before.\<close>

theorem padded_rows_are_lost:
  assumes "cp_buffers s i = Some b" and "cp_pools s (bd_pool_id b) = Some pool" and "renderable b"
    and "maps s pool b m" and "screen_ready s d"
    and "x < unat (mo_width (ds_mode d))" and "y * unat (mo_width (ds_mode d)) + x < length (ds_db d)"
    and "buffer_pixels b \<le> y * (nat (sint (bd_stride b)) div 4) + x"
  shows "\<exists>t. render_buffer i s = (Ok (), t)
    \<and> fb_memory t ! (y * unat (mo_width (ds_mode d)) + x) = ds_db d ! (y * unat (mo_width (ds_mode d)) + x)"
proof -
  let ?md = "ds_mode d"
  obtain t where "render_buffer i s = (Ok (), t)"
    and "cp_drm t = Some (d\<lparr>ds_db := picture m b (buffer_pixels b) (slice_pixels ?md) ?md (\<lambda>_. True) (ds_db d)\<rparr>)"
    using run_render [OF assms(1-5)] by blast
  then show ?thesis
    using picture_at [OF assms(6,7)] renderable_bounds(1) [OF assms(3)] assms(8)
    by (intro exI [of _ t]) (simp add: fb_memory_def)
qed

text \<open>A buffer of 100 by 100 pixels with rows of 128: row 80, column 0 is visible and lost.\<close>

lemma padded_rows_are_lost_witness:
  "\<exists>t. render_buffer 7 (sample_compositor True (sample_drm 200 200) (sample_buffer 100 100 512)) = (Ok (), t)
    \<and> fb_memory t ! (80 * 200 + 0) = 0"
proof -
  let ?b = "sample_buffer 100 100 512"
  have "renderable ?b" by (simp add: renderable_def sample_buffer_def)
  moreover have "buffer_pixels ?b \<le> 80 * (nat (sint (bd_stride ?b)) div 4) + 0"
    by (simp add: buffer_pixels_def sample_buffer_def)
  ultimately show ?thesis
    using padded_rows_are_lost [of "sample_compositor True (sample_drm 200 200) ?b" 7 ?b sample_pool
      sample_mapping "sample_drm 200 200" 0 80] sample_ready [of True 200 200]
    by simp
qed

text \<open>C25: On the screen the compositor announces, 640 by 480, the product of the two 16-bit sizes
  overflows.  With overflow checks the first commit of a buffer ends the process; without them the
  slice of the framebuffer has 45056 of the 307200 pixels, and nothing a client draws ever reaches
  the screen below row 70.\<close>

theorem screen_640_480:
  assumes "cp_buffers s i = Some b" and "cp_pools s (bd_pool_id b) = Some pool" and "renderable b"
    and "maps s pool b m" and "cp_drm s = Some d" and "\<forall>n. k_call (dv_kms s) n = None"
    and "mo_width (ds_mode d) = 640" and "mo_height (ds_mode d) = 480" and "length (ds_db d) = 640 * 480"
  shows "if h_checks (cp_host s)
    then \<exists>t. render_buffer i s = (Panic, t) \<and> cp_death t = Some Overflow \<and> cp_drm t = Some d
    else \<exists>t. render_buffer i s = (Ok (), t)
      \<and> (\<forall>k. 45056 \<le> k \<and> k < 640 * 480 \<longrightarrow> fb_memory t ! k = ds_db d ! k)"
proof (cases "h_checks (cp_host s)")
  case False
  have slice: "slice_pixels (ds_mode d) = 45056" using assms(7,8) by (simp add: slice_pixels_def)
  then have "screen_ready s d" using assms False by (simp add: screen_ready_def)
  from run_render [OF assms(1-4) this] slice obtain t where "render_buffer i s = (Ok (), t)"
    and "cp_drm t = Some (d\<lparr>ds_db := picture m b (buffer_pixels b) 45056 (ds_mode d) (\<lambda>_. True) (ds_db d)\<rparr>)"
    by auto
  then show ?thesis using False assms(9) picture_beyond [of _ "ds_db d" 45056]
    by (auto simp: fb_memory_def intro!: exI [of _ t])
next
  case True
  then have "u16_mul (mo_width (ds_mode d)) (mo_height (ds_mode d)) (mapped s)
      = (Panic, (mapped s)\<lparr>cp_death := Some Overflow\<rparr>)"
    using assms(7,8) by (simp add: u16_mul_def checked_def die_def)
  then have "render_buffer i s = (Panic, (mapped s)\<lparr>cp_death := Some Overflow\<rparr>)"
    unfolding render_mapped [OF assms(1-6)] by simp
  then show ?thesis using True assms(5) by simp
qed

lemma screen_640_480_witness:
  "(\<exists>t. render_buffer 7 (sample_compositor True (sample_drm 640 480) (sample_buffer 200 200 800)) = (Panic, t)
      \<and> cp_death t = Some Overflow)
    \<and> (\<exists>t. render_buffer 7 (sample_compositor False (sample_drm 640 480) (sample_buffer 200 200 800)) = (Ok (), t)
      \<and> fb_memory t ! (100 * 640) = 0)"
proof -
  let ?b = "sample_buffer 200 200 800" and ?d = "sample_drm 640 480"
  have r: "renderable ?b" by (simp add: renderable_def sample_buffer_def)
  have calls: "\<forall>n. k_call (dv_kms (sample_compositor c ?d ?b)) n = None"
    and host: "h_checks (cp_host (sample_compositor c ?d ?b)) = c" for c
    by (simp_all add: sample_compositor_def sample_kms_def sample_host_def)
  note run = screen_640_480 [of _ 7 ?b sample_pool sample_mapping ?d, OF _ _ r _ _ calls]
  show ?thesis
    using run [of True] run [of False] host by auto
qed

end
