(* ===== verification/Frames.thy ===== *)
theory Frames
  imports Blit
begin

text \<open>
  The frame callbacks of the compositor over whole conversations: what a sequence of requests from
  any number of clients does to the callbacks that were asked for, and what a commit owes the client.
\<close>

section \<open>Conversations\<close>

type_synonym conversation = "(nat \<times> message) list"

definition serve :: "conversation \<Rightarrow> (compositor, unit, 'e) act" where
  "serve msgs = forEach (\<lambda>(client, q). on_message client q) msgs"

text \<open>The callbacks a conversation asks for, and those that were answered.\<close>

fun asked :: "conversation \<Rightarrow> resource list" where
  "asked [] = []"
| "asked ((client, ToSurface i (Frame cb)) # msgs) = (client, cb) # asked msgs"
| "asked (q # msgs) = asked msgs"

fun done_of :: "wl_event \<Rightarrow> resource list" where
  "done_of (Done cb t) = [cb]"
| "done_of e = []"

definition answered :: "compositor \<Rightarrow> resource list" where
  "answered s = concat (map done_of (cp_sent s))"

definition waiting :: "compositor \<Rightarrow> object_id \<Rightarrow> resource option" where
  "waiting s i = (case cp_surfaces s i of None \<Rightarrow> None | Some d \<Rightarrow> sd_frame_callback d)"

section \<open>What requests do to them\<close>

lemma waiting_same: "rendered s t \<Longrightarrow> waiting t = waiting s \<and> answered t = answered s"
  by (simp add: rendered_def waiting_def answered_def fun_eq_iff)

text \<open>A request leaves the callbacks alone, stores one, or answers one.\<close>

definition frames_step :: "resource list \<Rightarrow> compositor \<Rightarrow> compositor \<Rightarrow> bool" where
  "frames_step news s t \<longleftrightarrow>
     (news = [] \<and> waiting t = waiting s \<and> answered t = answered s)
     \<or> (\<exists>i cb. news = [cb] \<and> waiting t = (waiting s)(i := Some cb) \<and> answered t = answered s)
     \<or> (\<exists>i cb. news = [] \<and> waiting s i = Some cb \<and> waiting t = (waiting s)(i := None)
          \<and> answered t = answered s @ [cb])"

lemma step_quiet: "news = [] \<Longrightarrow> rendered s t \<Longrightarrow> frames_step news s t"
  using waiting_same by (auto simp: frames_step_def)

lemma step_answers:
  "waiting s i = Some cb \<Longrightarrow> waiting t = (waiting s)(i := None) \<Longrightarrow> answered t = answered s @ [cb] \<Longrightarrow>
   frames_step [] s t"
  unfolding frames_step_def by blast

lemma post_fire:
  "post (fire_frame_callback i :: unit comp) (\<lambda>_. frames_step [] s) (\<lambda>_ _. True) s"
proof (cases "waiting s i")
  case None
  then have "cp_surfaces s i = None \<or> (\<exists>d. cp_surfaces s i = Some d \<and> sd_frame_callback d = None)"
    by (auto simp: waiting_def split: option.splits)
  then have "fire_frame_callback i s = (Ok () :: (unit, string) outcome, s)"
    by (auto simp: fire_frame_callback_def)
  then show ?thesis by (simp add: post_def frames_step_def)
next
  case (Some cb)
  then obtain d where d: "cp_surfaces s i = Some d" "sd_frame_callback d = Some cb"
    by (auto simp: waiting_def split: option.splits)
  let ?u = "s\<lparr>cp_surfaces := (cp_surfaces s)(i := Some (d\<lparr>sd_frame_callback := None\<rparr>))\<rparr>"
  have run: "fire_frame_callback i s = (andThen epoch_millis (\<lambda>time. send (Done cb time)) :: unit comp) ?u"
    using d by (simp add: fire_frame_callback_def with_surface_def run_andThen)
  have w: "waiting ?u = (waiting s)(i := None)" by (auto simp: waiting_def)
  show ?thesis
  proof (cases "h_epoch_ms (cp_host s) (dv_tick s)")
    case None
    then have "(epoch_millis :: 32 word comp) ?u = (Panic, (tock ?u)\<lparr>cp_death := Some BadClock\<rparr>)"
      by (simp add: epoch_millis_def die_def)
    then show ?thesis unfolding post_def run by simp
  next
    case (Some ms)
    then have e: "(epoch_millis :: 32 word comp) ?u = (Ok (word_of_nat ms), tock ?u)"
      by (simp add: epoch_millis_def)
    then have "fire_frame_callback i s = (Ok () :: (unit, string) outcome, (tock ?u)\<lparr>cp_sent := cp_sent s @ [Done cb (word_of_nat ms)]\<rparr>)"
      unfolding run by (simp add: send_def tock_def)
    moreover have "frames_step [] s ((tock ?u)\<lparr>cp_sent := cp_sent s @ [Done cb (word_of_nat ms)]\<rparr>)"
    proof (rule step_answers)
      show "waiting ((tock ?u)\<lparr>cp_sent := cp_sent s @ [Done cb (word_of_nat ms)]\<rparr>) = (waiting s)(i := None)"
        unfolding w [symmetric] by (rule ext) (simp add: waiting_def tock_def)
    qed (use \<open>waiting s i = Some cb\<close> in \<open>simp_all add: answered_def\<close>)
    ultimately show ?thesis by (simp add: post_def)
  qed
qed

lemma post_commit: "post (commit i :: unit comp) (\<lambda>_. frames_step [] s) (\<lambda>_ _. True) s"
proof (rule postI)
  fix a t
  let ?id = "case cp_surfaces s i of None \<Rightarrow> None | Some d \<Rightarrow> sd_buffer_id d"
  let ?m = "(case ?id of None \<Rightarrow> ret () | Some b \<Rightarrow> ignoring (render_buffer b)) :: unit comp"
  assume "commit i s = (Ok a :: (unit, string) outcome, t)"
  then obtain x u where u: "?m s = (Ok x, u)"
    and f: "fire_frame_callback i u = (Ok a :: (unit, string) outcome, t)"
    unfolding commit_def by (auto elim: andThen_Ok_cases)
  have "within rendered ?m" by (intro re.within_intros re.within_render)
  then have "rendered s u" using u by (rule withinD)
  with post_Ok [OF post_fire f] show "frames_step [] s t"
    by (simp add: frames_step_def waiting_same)
qed simp

lemma waiting_with_surface:
  "with_surface i f s = (Ok x, t) \<Longrightarrow>
   waiting t = (waiting s)(i := sd_frame_callback (f (case cp_surfaces s i of None \<Rightarrow> fresh_surface | Some d \<Rightarrow> d)))
   \<and> answered t = answered s"
  by (auto simp: with_surface_def waiting_def answered_def)

lemma post_message:
  "post (on_message client q :: unit comp) (\<lambda>_. frames_step (asked [(client, q)]) s) (\<lambda>_ _. True) s"
proof (cases q)
  case (ToSurface i r)
  show ?thesis
  proof (cases r)
    case (Attach b x y)
    have "sd_frame_callback (case cp_surfaces s i of None \<Rightarrow> fresh_surface | Some d \<Rightarrow> d) = waiting s i"
      by (simp add: waiting_def fresh_surface_def split: option.split)
    then show ?thesis
      using ToSurface Attach waiting_with_surface [of i "\<lambda>d. d\<lparr>sd_buffer_id := b\<rparr>" s]
      by (auto intro!: postI simp: frames_step_def with_surface_def)
  next
    case Commit
    then show ?thesis using ToSurface post_commit by simp
  next
    case (Frame cb)
    then show ?thesis
      using ToSurface waiting_with_surface [of i "\<lambda>d. d\<lparr>sd_frame_callback := Some (client, cb)\<rparr>" s]
      by (auto intro!: postI simp: frames_step_def with_surface_def)
  qed (simp_all add: ToSurface post_simps frames_step_def)
next
  case (ToShm r)
  then show ?thesis
    by (cases r) (simp_all add: post_def dup_def insert_pool_def run_andThen frames_step_def waiting_def
        answered_def tock_def fun_eq_iff)
next
  case (ToPool i r)
  then show ?thesis
    by (cases r) (auto simp: post_simps frames_step_def waiting_def answered_def)
next
  case (ToBuffer i r)
  then show ?thesis
    by (cases r) (auto simp: post_simps frames_step_def waiting_def answered_def)
next
  case (ToSeat r)
  then show ?thesis
    by (cases r) (auto simp: post_simps frames_step_def waiting_def answered_def on_input_def)
next
  case (Bind g i)
  then show ?thesis
    by (cases g) (auto simp: post_simps frames_step_def waiting_def answered_def send_def)
next
  case (ToCompositor r)
  then show ?thesis by (cases r) (simp_all add: post_simps frames_step_def)
next
  case (ToPointer r)
  then show ?thesis by (cases r) (simp_all add: post_simps frames_step_def)
next
  case (ToKeyboard r)
  then show ?thesis by (cases r) (simp_all add: post_simps frames_step_def)
qed (simp_all add: post_simps frames_step_def)

section \<open>Answered at most once\<close>

text \<open>The callbacks answered and waiting, when \<open>R\<close> were asked for.\<close>

definition frames_ok :: "resource list \<Rightarrow> compositor \<Rightarrow> bool" where
  "frames_ok R s \<longleftrightarrow> distinct (answered s) \<and> set (answered s) \<subseteq> set R
     \<and> (\<forall>i cb. waiting s i = Some cb \<longrightarrow> cb \<in> set R \<and> cb \<notin> set (answered s)
          \<and> (\<forall>j. waiting s j = Some cb \<longrightarrow> j = i))"

lemma frames_ok_step:
  assumes "frames_ok R s" and "frames_step news s t" and "distinct (R @ news)"
  shows "frames_ok (R @ news) t"
  using assms(2)
proof (unfold frames_step_def, elim disjE exE conjE)
  fix i cb
  assume t: "news = [cb]" "waiting t = (waiting s)(i := Some cb)" "answered t = answered s"
  then have "cb \<notin> set R" using assms(3) by simp
  with t assms(1) show ?thesis unfolding frames_ok_def by auto
next
  fix i cb
  assume t: "news = []" "waiting s i = Some cb" "waiting t = (waiting s)(i := None)" "answered t = answered s @ [cb]"
  have "cb \<in> set R \<and> cb \<notin> set (answered s)" using t(2) assms(1) unfolding frames_ok_def by blast
  with t show ?thesis using assms(1) unfolding frames_ok_def by (auto simp del: split_paired_All split: if_splits)
qed (use assms(1) in \<open>simp add: frames_ok_def\<close>)

lemma asked_Cons: "asked (q # msgs) = asked [q] @ asked msgs"
  by (cases "q # msgs" rule: asked.cases) auto

lemma frames_ok_serve:
  assumes "frames_ok R s" and "distinct (R @ asked msgs)" and "(serve msgs :: unit comp) s = (Ok (), t)"
  shows "frames_ok (R @ asked msgs) t"
  using assms
proof (induction msgs arbitrary: R s)
  case (Cons q msgs)
  obtain client r where q: "q = (client, r)" by fastforce
  obtain x u where u: "(on_message client r :: unit comp) s = (Ok x, u)"
    and k: "(serve msgs :: unit comp) u = (Ok (), t)"
    using Cons.prems(3) unfolding serve_def q by (auto elim: andThen_Ok_cases)
  have d: "distinct (R @ asked [q])" "distinct ((R @ asked [q]) @ asked msgs)"
    using Cons.prems(2) unfolding asked_Cons [of q msgs] by auto
  have "frames_step (asked [q]) s u" using post_Ok [OF post_message u] q by simp
  then have "frames_ok (R @ asked [q]) u" by (rule frames_ok_step [OF Cons.prems(1) _ d(1)])
  from Cons.IH [OF this d(2) k] show ?case unfolding asked_Cons [of q msgs] by simp
qed (simp add: serve_def)

text \<open>C6: A frame callback is answered at most once, and only if a client asked for it.  Whatever
  requests the clients make, in whatever order and with whatever buffers, as long as the callbacks
  they ask for are different objects, the callbacks answered are different and among those asked for.\<close>

theorem callbacks_answered_once:
  assumes "distinct (asked msgs)" and "cp_surfaces s = (\<lambda>_. None)" and "cp_sent s = []"
    and "(serve msgs :: unit comp) s = (Ok (), t)"
  shows "distinct (answered t) \<and> set (answered t) \<subseteq> set (asked msgs)"
proof -
  have "frames_ok [] s" using assms(2,3) by (simp add: frames_ok_def waiting_def answered_def)
  from frames_ok_serve [OF this _ assms(4)] assms(1) show ?thesis by (simp add: frames_ok_def)
qed

definition sample_frames :: conversation where
  "sample_frames = [(1, ToSurface 3 (Attach (Some 8) 0 0)), (1, ToSurface 3 (Frame 11)), (1, ToSurface 3 Commit),
     (1, ToSurface 3 (Frame 12)), (1, ToSurface 3 Commit), (1, ToSurface 3 Commit)]"

lemma run_sample_frames:
  "\<exists>t. (serve sample_frames :: unit comp) (sample_compositor True (sample_drm 3 2) (sample_buffer 2 2 8)) = (Ok (), t)
    \<and> answered t = [(1, 11), (1, 12)]"
  by (simp add: serve_def sample_frames_def sample_compositor_def with_surface_def commit_def
      render_buffer_def fire_frame_callback_def epoch_millis_def sample_host_def send_def tock_def
      answered_def run_andThen ignoring_def attempt_def)

lemma callbacks_answered_once_witness:
  "\<exists>t. (serve sample_frames :: unit comp) (sample_compositor True (sample_drm 3 2) (sample_buffer 2 2 8)) = (Ok (), t)
    \<and> distinct (answered t) \<and> set (answered t) \<subseteq> {(1, 11), (1, 12)}"
proof -
  let ?s = "sample_compositor True (sample_drm 3 2) (sample_buffer 2 2 8)"
  obtain t where t: "(serve sample_frames :: unit comp) ?s = (Ok (), t)" using run_sample_frames by auto
  have "asked sample_frames = [(1, 11), (1, 12)]" by (simp add: sample_frames_def)
  then show ?thesis
    using callbacks_answered_once [OF _ _ _ t] t by (auto simp: sample_compositor_def)
qed

text \<open>A callback nobody waits for and nobody asks for again is never answered.\<close>

lemma forgotten_serve:
  assumes "\<And>i. waiting s i \<noteq> Some cb" and "cb \<notin> set (answered s)" and "cb \<notin> set (asked msgs)"
    and "(serve msgs :: unit comp) s = (Ok (), t)"
  shows "cb \<notin> set (answered t)"
  using assms
proof (induction msgs arbitrary: s)
  case (Cons q msgs)
  obtain client r where q: "q = (client, r)" by fastforce
  obtain x u where u: "(on_message client r :: unit comp) s = (Ok x, u)"
    and k: "(serve msgs :: unit comp) u = (Ok (), t)"
    using Cons.prems(4) unfolding serve_def q by (auto elim: andThen_Ok_cases)
  have n: "cb \<notin> set (asked [q])" "cb \<notin> set (asked msgs)"
    using Cons.prems(3) unfolding asked_Cons [of q msgs] by auto
  have "frames_step (asked [q]) s u" using post_Ok [OF post_message u] q by simp
  then have "(\<forall>i. waiting u i \<noteq> Some cb) \<and> cb \<notin> set (answered u)"
    using Cons.prems(1,2) n(1) by (auto simp: frames_step_def simp del: split_paired_All split_paired_Ex split: if_splits)
  then show ?case using Cons.IH [of u] n(2) k by blast
qed (simp add: serve_def)

text \<open>C38: A client that asks for a second frame callback before it commits loses the first: the
  compositor keeps one callback for each surface, and the one it drops is not answered by any later
  request of anybody.\<close>

theorem second_frame_loses_first:
  assumes "waiting s i = Some cb" and "\<forall>j. waiting s j = Some cb \<longrightarrow> j = i" and "cb \<notin> set (answered s)"
    and "cb \<noteq> (client, cb')" and "cb \<notin> set (asked msgs)"
    and "(serve ((client, ToSurface i (Frame cb')) # msgs) :: unit comp) s = (Ok (), t)"
  shows "cb \<notin> set (answered t)"
proof -
  let ?m = "with_surface i (\<lambda>d. d\<lparr>sd_frame_callback := Some (client, cb')\<rparr>) :: unit comp"
  have "serve ((client, ToSurface i (Frame cb')) # msgs) = andThen ?m (\<lambda>_. serve msgs)"
    by (simp add: serve_def)
  with assms(6) have "andThen ?m (\<lambda>_. serve msgs) s = (Ok (), t)" by simp
  then obtain x u where u: "?m s = (Ok x, u)" and k: "(serve msgs :: unit comp) u = (Ok (), t)"
    by (rule andThen_Ok_cases)
  have "waiting u = (waiting s)(i := Some (client, cb'))" "answered u = answered s"
    using waiting_with_surface [OF u] by simp_all
  note after = this
  have "waiting u j \<noteq> Some cb" for j
  proof
    assume "waiting u j = Some cb"
    then have "(if j = i then Some (client, cb') else waiting s j) = Some cb" unfolding after(1) fun_upd_def .
    then show False using assms(2,4) by (cases "j = i") (simp, fastforce)
  qed
  moreover have "cb \<notin> set (answered u)" using after(2) assms(3) by simp
  ultimately show ?thesis by (rule forgotten_serve [OF _ _ assms(5) k])
qed

lemma second_frame_loses_first_witness:
  "\<exists>s t. waiting s 3 = Some (2, 11)
    \<and> (serve [(2, ToSurface 3 (Frame 12)), (2, ToSurface 3 Commit), (2, ToSurface 3 Commit)] :: unit comp) s = (Ok (), t)
    \<and> (2, 11) \<notin> set (answered t)"
proof -
  let ?s = "(sample_compositor True (sample_drm 3 2) (sample_buffer 2 2 8))
    \<lparr>cp_surfaces := (\<lambda>_. None)(3 := Some \<lparr>sd_buffer_id = None, sd_frame_callback = Some (2, 11)\<rparr>)\<rparr>"
  have "\<exists>t. (serve [(2, ToSurface 3 (Frame 12)), (2, ToSurface 3 Commit), (2, ToSurface 3 Commit)] :: unit comp) ?s = (Ok (), t)"
    by (simp add: serve_def sample_compositor_def with_surface_def commit_def fire_frame_callback_def
        epoch_millis_def sample_host_def send_def tock_def run_andThen)
  then obtain t where t: "(serve [(2, ToSurface 3 (Frame 12)), (2, ToSurface 3 Commit), (2, ToSurface 3 Commit)] :: unit comp) ?s = (Ok (), t)" ..
  have w: "waiting ?s = (\<lambda>_. None)(3 := Some (2, 11))" by (simp add: waiting_def fun_eq_iff)
  have a: "answered ?s = []" by (simp add: answered_def sample_compositor_def)
  have "(2, 11) \<notin> set (answered t)"
    by (rule second_frame_loses_first [OF _ _ _ _ _ t]) (simp_all add: w a)
  then show ?thesis using t w by (intro exI [of _ ?s] exI [of _ t]) simp
qed

section \<open>A commit answers\<close>

text \<open>A commit answers the callback its surface waits for, whether the buffer could be drawn or
  not: a missing buffer, a missing pool, a mapping that fails and a display that cannot be set are
  reported and passed over.  The callback is taken off the surface, so that the next commit does not
  answer it again.\<close>

lemma commit_answers:
  assumes "waiting s i = Some cb" and "\<forall>n. h_epoch_ms (cp_host s) n \<noteq> None"
    and "\<forall>b. fst (render_buffer b s) \<noteq> Panic \<and> fst (render_buffer b s) \<noteq> Hang"
  shows "\<exists>t. (commit i :: unit comp) s = (Ok (), t) \<and> answered t = answered s @ [cb]
    \<and> waiting t = (waiting s)(i := None)"
proof -
  let ?id = "case cp_surfaces s i of None \<Rightarrow> None | Some d \<Rightarrow> sd_buffer_id d"
  let ?m = "(case ?id of None \<Rightarrow> ret () | Some b \<Rightarrow> ignoring (render_buffer b)) :: unit comp"
  have "\<exists>u. ?m s = (Ok (), u)"
  proof (cases ?id)
    case (Some b)
    obtain r u where r: "render_buffer b s = (r, u)" by fastforce
    then show ?thesis using assms(3) [rule_format, of b] Some by (cases r) auto
  qed simp
  then obtain u where u: "?m s = (Ok (), u)" ..
  have "within rendered ?m" by (intro re.within_intros re.within_render)
  from withinD [OF this u] have same: "rendered s u" .
  then have w: "waiting u = waiting s" "answered u = answered s" using waiting_same by auto
  obtain d where d: "cp_surfaces u i = Some d" "sd_frame_callback d = Some cb"
  proof -
    have "waiting u i = Some cb" using assms(1) w by simp
    then show thesis using that by (auto simp: waiting_def split: option.splits)
  qed
  obtain ms where ms: "h_epoch_ms (cp_host u) (dv_tick u) = Some ms"
    using assms(2) same by (auto simp: rendered_def)
  define t where "t = (tock u)\<lparr>cp_surfaces := (cp_surfaces u)(i := Some (d\<lparr>sd_frame_callback := None\<rparr>)),
    cp_sent := cp_sent u @ [Done cb (word_of_nat ms)]\<rparr>"
  have "(commit i :: unit comp) s = (Ok (), t)"
    unfolding commit_def using u d ms
    by (simp add: run_andThen fire_frame_callback_def with_surface_def epoch_millis_def send_def tock_def t_def)
  moreover have "answered t = answered s @ [cb]" using w(2) by (simp add: answered_def t_def)
  moreover have "waiting t = (waiting s)(i := None)"
    unfolding w(1) [symmetric] by (rule ext) (simp add: waiting_def t_def tock_def)
  ultimately show ?thesis by blast
qed

lemma commit_answers_witness:
  "\<exists>s t. cp_surfaces s 3 = Some \<lparr>sd_buffer_id = Some 8, sd_frame_callback = Some (2, 11)\<rparr>
    \<and> (commit 3 :: unit comp) s = (Ok (), t) \<and> answered t = [(2, 11)]"
proof -
  let ?s = "(sample_compositor True (sample_drm 3 2) (sample_buffer 2 2 8))
    \<lparr>cp_surfaces := (\<lambda>_. None)(3 := Some \<lparr>sd_buffer_id = Some 8, sd_frame_callback = Some (2, 11)\<rparr>),
     cp_buffers := \<lambda>_. None\<rparr>"
  have w: "waiting ?s 3 = Some (2, 11)" by (simp add: waiting_def)
  have h: "\<forall>n. h_epoch_ms (cp_host ?s) n \<noteq> None" by (simp add: sample_compositor_def sample_host_def)
  have r: "\<forall>b. fst (render_buffer b ?s) \<noteq> Panic \<and> fst (render_buffer b ?s) \<noteq> Hang"
    by (simp add: render_buffer_def)
  have "answered ?s = []" by (simp add: answered_def sample_compositor_def)
  moreover obtain t where "(commit 3 :: unit comp) ?s = (Ok (), t)" "answered t = answered ?s @ [(2, 11)]"
    using commit_answers [OF w h r] by (elim exE conjE) (rule that)
  ultimately show ?thesis by (intro exI [of _ ?s] exI [of _ t]) simp
qed

end
