(* ===== verification/DrmRect.thy ===== *)
theory DrmRect
  imports Drm Post World
begin

text \<open>
  \<open>rust/drm_rect\<close> (\<open>src/lib.rs\<close>, \<open>src/main.rs\<close>): fill the first connected display with one colour
  for thirty seconds.  The program's own memory is that of its dumb buffer, byte by byte, as the
  mapping shows it; the kernel hands it out zeroed.
\<close>

section \<open>The program\<close>

record screen = device +
  sc_bytes :: "8 word list"

type_synonym 'a rect = "(screen, 'a, anyhow) act"

type_synonym colour = "8 word \<times> 8 word \<times> 8 word"

definition under :: "string \<Rightarrow> (screen, 'a, string) act \<Rightarrow> 'a rect" where
  "under c m = mapErr (\<lambda>e. Ctx c (Msg e)) m"

definition show_handle :: "nat \<Rightarrow> (screen, string, 'e) act" where
  "show_handle h = reading (\<lambda>s. k_debug (dv_kms s) h)"

definition open_card :: "string \<Rightarrow> unit rect" where
  "open_card path = under (''failed to open '' @ path) (open_device path)"

fun find_connected_connector :: "nat list \<Rightarrow> connector_info rect" where
  "find_connected_connector [] =
     raise (Msg ''no connected connector with available modes was found'')"
| "find_connected_connector (h # hs) =
     andThen (show_handle h) (\<lambda>name.
     andThen (under (''failed to query connector '' @ name) (get_connector h True)) (\<lambda>info.
     if ci_connected info \<and> ci_modes info \<noteq> [] then ret info
     else find_connected_connector hs))"

text \<open>The bytes of each complete pixel, least significant first; an incomplete one at the end is left
  alone (\<open>chunks_exact_mut\<close>).\<close>

fun fill_chunks :: "colour \<Rightarrow> 8 word list \<Rightarrow> 8 word list" where
  "fill_chunks (r, g, b) (p0 # p1 # p2 # p3 # px) = b # g # r # 0xFF # fill_chunks (r, g, b) px"
| "fill_chunks c px = px"

definition fill_buffer_with_color :: "colour \<Rightarrow> unit rect" where
  "fill_buffer_with_color c =
     andThen (under ''failed to map dumb buffer'' map_dumb_buffer) (\<lambda>_.
     modify (\<lambda>s. s\<lparr>sc_bytes := fill_chunks c (sc_bytes s)\<rparr>))"

definition allocate_dumb :: "nat \<Rightarrow> nat \<Rightarrow> dumb_buffer rect" where
  "allocate_dumb w h =
     andThen (under ''failed to allocate dumb buffer'' (create_dumb_buffer w h)) (\<lambda>d.
     andThen (modify (\<lambda>s. s\<lparr>sc_bytes := replicate (du_bytes d) 0\<rparr>)) (\<lambda>_.
     ret d))"

definition fill_display :: "colour \<Rightarrow> unit rect" where
  "fill_display c =
     andThen (open_card ''/dev/dri/card0'') (\<lambda>_.
     andThen (under ''failed to fetch DRM resource handles'' resource_handles) (\<lambda>handles.
     andThen (find_connected_connector handles) (\<lambda>info.
     let connector = ci_handle info in
     andThen (show_handle connector) (\<lambda>name.
     case ci_modes info of
       [] \<Rightarrow> raise (Msg (''connected connector '' @ name @ '' reported no modes''))
     | m # _ \<Rightarrow>
     case (case ci_current_encoder info of
             Some e \<Rightarrow> Some e
           | None \<Rightarrow> (case ci_encoders info of [] \<Rightarrow> None | e # _ \<Rightarrow> Some e)) of
       None \<Rightarrow> raise (Msg (''connector '' @ name @ '' reported no encoder''))
     | Some e \<Rightarrow>
     andThen (show_handle e) (\<lambda>encoder.
     andThen (under (''failed to query encoder '' @ encoder) (get_encoder e)) (\<lambda>found.
     case found of
       None \<Rightarrow> raise (Msg (''encoder '' @ encoder @ '' reported no CRTC''))
     | Some crtc \<Rightarrow>
     andThen (allocate_dumb (unat (mo_width m)) (unat (mo_height m))) (\<lambda>d.
     andThen (under ''failed to create framebuffer'' (add_framebuffer d)) (\<lambda>fb.
     andThen (mapErr (Ctx ''failed to fill dumb buffer'') (fill_buffer_with_color c)) (\<lambda>_.
     andThen (under ''failed to set CRTC configuration'' (set_crtc crtc (Some fb) [connector] (Some m))) (\<lambda>_.
     andThen (logged (SleptSecs 30)) (\<lambda>_.
     andThen (ignoring (set_crtc crtc None [] None)) (\<lambda>_.
     andThen (under ''failed to destroy framebuffer'' (perform (DestroyedFramebuffer fb))) (\<lambda>_.
     under ''failed to destroy dumb buffer'' (perform (DestroyedDumb (du_handle d))))))))))))))))"

text \<open>\<open>main\<close> of \<open>src/main.rs\<close>.\<close>

definition drm_rect_main :: "unit rect" where
  "drm_rect_main = fill_display (255, 136, 0)"

section \<open>The pixels\<close>

definition bytes_of :: "colour \<Rightarrow> 8 word list" where
  "bytes_of c = (case c of (r, g, b) \<Rightarrow> [b, g, r, 0xFF])"

lemma length_fill_chunks [simp]: "length (fill_chunks c px) = length px"
  by (induction c px rule: fill_chunks.induct) simp_all

text \<open>Filling a mapped buffer paints every complete pixel with the colour and nothing else: the
  buffer keeps its length, each group of four bytes becomes blue, green, red and an opaque fourth
  byte, and the bytes after the last complete pixel stay.\<close>

lemma fill_chunks_paints:
  "fill_chunks c px = concat (replicate (length px div 4) (bytes_of c)) @ drop (4 * (length px div 4)) px"
proof (induction c px rule: fill_chunks.induct)
  case (1 r g b p0 p1 p2 p3 px)
  have "length (p0 # p1 # p2 # p3 # px) div 4 = Suc (length px div 4)" by simp
  moreover have "drop (4 + n) (p0 # p1 # p2 # p3 # px) = drop n px" for n
    by (simp add: eval_nat_numeral)
  ultimately show ?case using 1 by (simp add: bytes_of_def)
qed (simp_all add: bytes_of_def)

section \<open>The connector\<close>

lemma run_under_Ok [simp]: "under c m s = (Ok a, t) \<longleftrightarrow> m s = (Ok a, t)"
  by (simp add: under_def)

lemma run_get_connector:
  assumes "steady (dv_kms s) info"
  shows "get_connector h force s = (case info force h of Inl e \<Rightarrow> (Err e, tock s) | Inr i \<Rightarrow> (Ok i, tock s))"
  using assms by (simp add: get_connector_def ask_def steady_def)

lemma find_connected_steady:
  assumes "steady (dv_kms s) info"
  shows "fst (find_connected_connector hs s) = (case first_usable (info True) hs of
     Inl (h, e) \<Rightarrow> Err (Ctx (''failed to query connector '' @ k_debug (dv_kms s) h) (Msg e))
   | Inr None \<Rightarrow> Err (Msg ''no connected connector with available modes was found'')
   | Inr (Some (h, i)) \<Rightarrow> Ok i)"
  using assms
proof (induction hs arbitrary: s)
  case (Cons h hs)
  have "steady (dv_kms (tock s)) info" using Cons.prems by simp
  from Cons.IH [OF this] show ?case
    using run_get_connector [OF Cons.prems, of h True]
    by (simp add: show_handle_def under_def usable_def split: sum.split)
qed simp

section \<open>The calls\<close>

text \<open>What the calls of the device do to the log, whether they succeed or fail.\<close>

definition same_device :: "screen \<Rightarrow> screen \<Rightarrow> bool" where
  "same_device s t \<longleftrightarrow> dv_log t = dv_log s \<and> dv_kms t = dv_kms s \<and> sc_bytes t = sc_bytes s"

lemma post_ask [post_intros]:
  assumes "\<And>a t. f (dv_kms s) (dv_tick s) = Inr a \<Longrightarrow> same_device s t \<Longrightarrow> Q a t"
    and "\<And>e t. same_device s t \<Longrightarrow> E e t"
  shows "post (ask f) Q E s"
  by (rule postI) (auto simp: ask_def same_device_def tock_def split: sum.splits intro!: assms)

lemma post_find_connected:
  assumes "\<And>i h t. first_usable (info True) hs = Inr (Some (h, i)) \<Longrightarrow> same_device s t \<Longrightarrow> Q i t"
    and "\<And>e t. same_device s t \<Longrightarrow> E e t" and "steady (dv_kms s) info"
  shows "post (find_connected_connector hs) Q E s"
  using assms
proof (induction hs arbitrary: s)
  case Nil
  then show ?case by (simp add: post_simps same_device_def)
next
  case (Cons h hs)
  have "post (get_connector h True) (\<lambda>i. post (if ci_connected i \<and> ci_modes i \<noteq> [] then ret i
      else find_connected_connector hs) Q E) (\<lambda>e. E (Ctx (''failed to query connector '' @ k_debug (dv_kms s) h) (Msg e))) s"
    unfolding get_connector_def
  proof (rule post_ask)
    fix i t
    assume "k_connector (dv_kms s) (dv_tick s) h True = Inr i" and t: "same_device s t"
    then have i: "info True h = Inr i" using Cons.prems(3) by (simp add: steady_def)
    have st: "steady (dv_kms t) info" using Cons.prems(3) t by (simp add: same_device_def)
    have "post (find_connected_connector hs) Q E t" if "\<not> usable i"
      by (rule Cons.IH [OF _ _ st]) (use Cons.prems(1,2) t i that in \<open>auto simp: same_device_def\<close>)
    then show "post (if ci_connected i \<and> ci_modes i \<noteq> [] then ret i
      else find_connected_connector hs) Q E t"
      using Cons.prems(1) [OF _ t, of h i] i by (simp add: post_simps usable_def)
  qed (simp add: Cons.prems(2))
  then show ?case by (simp only: find_connected_connector.simps post_simps show_handle_def under_def)
qed

lemma post_perform:
  assumes "\<And>t. dv_log t = dv_log s @ [c] \<Longrightarrow> dv_kms t = dv_kms s \<Longrightarrow> sc_bytes t = sc_bytes s \<Longrightarrow> Q () t"
    and "\<And>e t. same_device s t \<Longrightarrow> E e t"
  shows "post (perform c) Q E s"
  unfolding perform_def logged_def
  by (simp only: post_simps) (rule post_ask, auto simp: same_device_def intro!: assms)

text \<open>What a run that succeeds has done, on a device whose connectors and encoders answer as \<open>info\<close> and
  \<open>crtc_of\<close> say.\<close>

definition first_encoder :: "connector_info \<Rightarrow> nat option" where
  "first_encoder i = (case ci_current_encoder i of
       Some e \<Rightarrow> Some e
     | None \<Rightarrow> (case ci_encoders i of [] \<Rightarrow> None | e # _ \<Rightarrow> Some e))"

definition shown ::
  "(bool \<Rightarrow> nat \<Rightarrow> string + connector_info) \<Rightarrow> nat list \<Rightarrow> (nat \<Rightarrow> nat option) \<Rightarrow> colour \<Rightarrow> screen \<Rightarrow> screen \<Rightarrow> bool"
where
  "shown info hs crtc_of c s t \<longleftrightarrow> (\<exists>h i m ms e crtc d fb cleared.
    first_usable (info True) hs = Inr (Some (h, i)) \<and> ci_modes i = m # ms
    \<and> first_encoder i = Some e \<and> crtc_of e = Some crtc
    \<and> (\<exists>n. k_dumb (dv_kms s) n (unat (mo_width m)) (unat (mo_height m)) = Inr d)
    \<and> (\<exists>n. k_framebuffer (dv_kms s) n d = Inr fb)
    \<and> cleared \<in> {[], [SetCrtc crtc None [] None]}
    \<and> dv_log t = dv_log s @ [Opened ''/dev/dri/card0'',
        CreatedDumb (unat (mo_width m)) (unat (mo_height m)) d, AddedFramebuffer d fb,
        SetCrtc crtc (Some fb) [ci_handle i] (Some m), SleptSecs 30] @ cleared
        @ [DestroyedFramebuffer fb, DestroyedDumb (du_handle d)]
    \<and> sc_bytes t = fill_chunks c (replicate (du_bytes d) 0))"

lemma shownI:
  assumes "first_usable (info True) hs = Inr (Some (h, i))" and "ci_modes i = m # ms"
    and "first_encoder i = Some e" and "crtc_of e = Some crtc"
    and "k_dumb (dv_kms s) n (unat (mo_width m)) (unat (mo_height m)) = Inr d"
    and "k_framebuffer (dv_kms s) n' d = Inr fb"
    and "dv_log t = dv_log s @ [Opened ''/dev/dri/card0'',
        CreatedDumb (unat (mo_width m)) (unat (mo_height m)) d, AddedFramebuffer d fb,
        SetCrtc crtc (Some fb) [ci_handle i] (Some m), SleptSecs 30] @ cleared
        @ [DestroyedFramebuffer fb, DestroyedDumb (du_handle d)]"
    and "cleared = [] \<or> cleared = [SetCrtc crtc None [] None]"
    and "sc_bytes t = fill_chunks c (replicate (du_bytes d) 0)"
  shows "shown info hs crtc_of c s t"
  unfolding shown_def
  by (intro exI [of _ h] exI [of _ i] exI [of _ m] exI [of _ ms] exI [of _ e] exI [of _ crtc] exI [of _ d]
      exI [of _ fb] exI [of _ cleared]) (use assms in auto)

lemma post_fill_display:
  assumes "steady (dv_kms s) info" and "\<forall>n. k_resources (dv_kms s) n = Inr hs"
    and "\<forall>n e. k_encoder (dv_kms s) n e = Inr (crtc_of e)"
  shows "post (fill_display c) (\<lambda>_. shown info hs crtc_of c s) (\<lambda>_ _. True) s"
  unfolding fill_display_def open_card_def under_def open_device_def resource_handles_def
    allocate_dumb_def create_dumb_buffer_def add_framebuffer_def get_encoder_def set_crtc_def
    fill_buffer_with_color_def map_dumb_buffer_def show_handle_def logged_def Let_def
  apply (rule post_intros post_find_connected [where info = info] post_perform TrueI | simp only: post_simps)+
  subgoal for _ _ _ _ i h _ m ms e _ _ crtc d _ fb
    by (rule shownI [of info hs h i m ms e crtc_of crtc s _ d _ fb _ "[SetCrtc crtc None [] None]"])
      (use assms in \<open>simp_all add: same_device_def first_encoder_def\<close>)
  apply (rule post_intros post_perform TrueI | simp only: post_simps)+
  subgoal for _ _ _ _ i h _ m ms e _ _ crtc d _ fb
    by (rule shownI [of info hs h i m ms e crtc_of crtc s _ d _ fb _ "[]"])
      (use assms in \<open>simp_all add: same_device_def first_encoder_def\<close>)
  apply (rule TrueI | (use assms in \<open>simp add: same_device_def\<close>))+
  done

text \<open>C31: A run of \<open>drm_rect\<close> that succeeds has shown the colour on the right display and cleaned up
  behind itself.  On a device whose connectors and encoders answer as \<open>info\<close> and \<open>crtc_of\<close> say, it has
  set the first connector that a forced probe finds connected with a mode to its first mode, through
  its current or else its first encoder, and to a framebuffer over one dumb buffer of that size.
  Every complete pixel of the buffer has the bytes blue, green, red and an opaque fourth, the bytes
  after the last are untouched.  It kept the picture for thirty seconds and destroyed the framebuffer
  and then the buffer; it made no other call that changes the device, except that turning the display
  off in between may have failed.\<close>

theorem fill_display_calls:
  assumes "steady (dv_kms s) info" and "\<forall>n. k_resources (dv_kms s) n = Inr hs"
    and "\<forall>n e. k_encoder (dv_kms s) n e = Inr (crtc_of e)"
    and "fill_display (r, g, b) s = (Ok (), t)"
  shows "\<exists>h i m ms e crtc d fb cleared.
    first_usable (info True) hs = Inr (Some (h, i)) \<and> ci_modes i = m # ms
    \<and> first_encoder i = Some e \<and> crtc_of e = Some crtc
    \<and> (\<exists>n. k_dumb (dv_kms s) n (unat (mo_width m)) (unat (mo_height m)) = Inr d)
    \<and> (\<exists>n. k_framebuffer (dv_kms s) n d = Inr fb)
    \<and> cleared \<in> {[], [SetCrtc crtc None [] None]}
    \<and> dv_log t = dv_log s @ [Opened ''/dev/dri/card0'',
        CreatedDumb (unat (mo_width m)) (unat (mo_height m)) d, AddedFramebuffer d fb,
        SetCrtc crtc (Some fb) [ci_handle i] (Some m), SleptSecs 30] @ cleared
        @ [DestroyedFramebuffer fb, DestroyedDumb (du_handle d)]
    \<and> sc_bytes t = concat (replicate (du_bytes d div 4) [b, g, r, 0xFF]) @ replicate (du_bytes d mod 4) 0"
proof -
  have "drop (4 * (n div 4)) (replicate n x) = replicate (n mod 4) x" for n and x :: "8 word"
    by (simp add: minus_mult_div_eq_mod)
  then have "fill_chunks (r, g, b) (replicate n 0) = concat (replicate (n div 4) [b, g, r, 0xFF]) @ replicate (n mod 4) 0"
    for n by (simp add: fill_chunks_paints bytes_of_def del: drop_replicate)
  with post_Ok [OF post_fill_display [OF assms(1-3)] assms(4)] show ?thesis unfolding shown_def by simp
qed

definition sample_screen :: screen where
  "sample_screen = \<lparr>dv_kms = sample_kms, dv_tick = 0, dv_log = [], sc_bytes = []\<rparr>"

lemmas drm_rect_defs =
  fill_display_def open_card_def under_def open_device_def resource_handles_def
  allocate_dumb_def create_dumb_buffer_def add_framebuffer_def get_encoder_def get_connector_def
  set_crtc_def fill_buffer_with_color_def map_dumb_buffer_def show_handle_def perform_def

lemma fill_display_calls_witness:
  "\<exists>t fb log. drm_rect_main sample_screen = (Ok (), t)
    \<and> sc_bytes t = [0, 136, 255, 255, 0, 136, 255, 255, 0]
    \<and> SetCrtc 41 (Some fb) [32] (Some sample_mode) \<in> set (dv_log t)
    \<and> dv_log t = log @ [DestroyedFramebuffer fb, DestroyedDumb 1]"
proof -
  have "\<exists>t. fill_display (255, 136, 0) sample_screen = (Ok (), t)"
    by (simp add: drm_rect_defs sample_screen_def sample_kms_def sample_connector_def sample_mode_def
        run_ask verdict_def tock_def Let_def)
  then obtain t where run: "fill_display (255, 136, 0) sample_screen = (Ok (), t)" ..
  have env: "steady (dv_kms sample_screen) (\<lambda>_ h. Inr (sample_connector h))"
    "\<forall>n. k_resources (dv_kms sample_screen) n = Inr [31, 32]"
    "\<forall>n e. k_encoder (dv_kms sample_screen) n e = Inr ((\<lambda>_. Some 41) e)"
    by (simp_all add: sample_screen_def steady_def sample_kms_def)
  have dumb: "k_dumb (dv_kms sample_screen) n w h = Inr \<lparr>du_handle = 1, du_bytes = 4 * w * h + 1\<rparr>" for n w h
    by (simp add: sample_screen_def sample_kms_def)
  obtain h i m ms e crtc d fb cleared n where first: "first_usable (\<lambda>h. Inr (sample_connector h)) [31, 32] = Inr (Some (h, i))"
    and m: "ci_modes i = m # ms" and crtc: "Some 41 = Some crtc"
    and d: "k_dumb (dv_kms sample_screen) n (unat (mo_width m)) (unat (mo_height m)) = Inr d"
    and log: "dv_log t = dv_log sample_screen @ [Opened ''/dev/dri/card0'',
        CreatedDumb (unat (mo_width m)) (unat (mo_height m)) d, AddedFramebuffer d fb,
        SetCrtc crtc (Some fb) [ci_handle i] (Some m), SleptSecs 30] @ cleared
        @ [DestroyedFramebuffer fb, DestroyedDumb (du_handle d)]"
    and px: "sc_bytes t = concat (replicate (du_bytes d div 4) [0, 136, 255, 0xFF]) @ replicate (du_bytes d mod 4) 0"
    using fill_display_calls [OF env run] by (elim exE conjE) (rule that)
  have i: "i = sample_connector 32" using first by (simp add: usable_def sample_connector_def split: if_splits)
  then have mm: "m = sample_mode" "ci_handle i = 32" using m by (simp_all add: sample_connector_def)
  have dd: "d = \<lparr>du_handle = 1, du_bytes = 9\<rparr>" using d dumb mm by (simp add: sample_mode_def)
  have "sc_bytes t = [0, 136, 255, 255, 0, 136, 255, 255, 0]" by (simp add: px dd numeral_2_eq_2)
  moreover have "SetCrtc 41 (Some fb) [32] (Some sample_mode) \<in> set (dv_log t)"
    unfolding log using mm crtc by simp
  moreover have "dv_log t = (dv_log sample_screen @ [Opened ''/dev/dri/card0'',
      CreatedDumb (unat (mo_width m)) (unat (mo_height m)) d, AddedFramebuffer d fb,
      SetCrtc crtc (Some fb) [ci_handle i] (Some m), SleptSecs 30] @ cleared) @ [DestroyedFramebuffer fb, DestroyedDumb 1]"
    unfolding log dd by (simp only: append_assoc dumb_buffer.simps)
  ultimately show ?thesis
    unfolding drm_rect_main_def by (intro exI conjI) (rule run)
qed

end
