(* ===== verification/CompositorMain.thy ===== *)
theory CompositorMain
  imports Frames DrmRect
begin

text \<open>
  \<open>main\<close> of \<open>compositor-rs/src/main.rs\<close>: acquiring the display, opening the input devices, the event
  loop of sixty seconds and the restoring of the console.  What happens during one turn of the loop
  (the requests that arrive, the events of each device) is given by a record \<open>turn\<close>; the loop runs on
  fuel, and \<open>main_loop_ends\<close> shows how much is always enough.
\<close>

section \<open>Acquiring the display\<close>

text \<open>The first connector that is connected and has a mode, with that mode.\<close>

fun find_mode :: "nat list \<Rightarrow> (nat \<times> mode) option comp" where
  "find_mode [] = ret None"
| "find_mode (h # hs) =
     andThen (get_connector h False) (\<lambda>conn.
     if ci_connected conn then
       (case ci_modes conn of m # _ \<Rightarrow> ret (Some (h, m)) | [] \<Rightarrow> find_mode hs)
     else find_mode hs)"

definition ok_or :: "string \<Rightarrow> 'a option \<Rightarrow> 'a comp" where
  "ok_or msg x = (case x of None \<Rightarrow> raise msg | Some a \<Rightarrow> ret a)"

definition orange :: "32 word" where "orange = 0xFF8800"

text \<open>Writing orange over a slice of \<open>n\<close> pixels of the mapped memory.\<close>

definition fill_orange :: "nat \<Rightarrow> 32 word list \<Rightarrow> 32 word list comp" where
  "fill_orange n px = (if n \<le> length px then ret (replicate n orange @ drop n px) else die BadAccess)"

definition or_else :: "('s, 'a, 'e) act \<Rightarrow> ('s, 'a, 'e) act \<Rightarrow> ('s, 'a, 'e) act" where
  "or_else m n = andThen (attempt m) (\<lambda>r. case r of Inl _ \<Rightarrow> n | Inr a \<Rightarrow> ret a)"

definition kd_text :: nat where "kd_text = 0"
definition kd_graphics :: nat where "kd_graphics = 1"

text \<open>\<open>ioctl\<close> with \<open>KDSETMODE\<close>: a failure is only a warning.\<close>

definition set_console :: "nat \<Rightarrow> unit comp" where
  "set_console m = ignoring (perform (ConsoleMode m))"

definition acquire_display :: "drm_state comp" where
  "acquire_display =
     andThen (open_device ''/dev/dri/card0'') (\<lambda>_.
     andThen resource_handles (\<lambda>handles.
     andThen (find_mode handles) (\<lambda>found.
     andThen (ok_or ''No connected connector found'' (map_option fst found)) (\<lambda>connector.
     andThen (ok_or ''No mode available'' (map_option snd found)) (\<lambda>m.
     andThen (get_connector connector False) (\<lambda>conn.
     andThen (ok_or ''No encoder'' (ci_current_encoder conn)) (\<lambda>e.
     andThen (get_encoder e) (\<lambda>encoder.
     andThen (ok_or ''No CRTC'' encoder) (\<lambda>crtc.
     andThen (create_dumb_buffer (unat (mo_width m)) (unat (mo_height m))) (\<lambda>d.
     andThen (add_framebuffer d) (\<lambda>fb.
     andThen map_dumb_buffer (\<lambda>_.
     andThen (u16_mul (mo_width m) (mo_height m)) (\<lambda>n.
     andThen (fill_orange (unat n) (replicate (du_bytes d div 4) 0)) (\<lambda>px.
     andThen (or_else (open_device ''/dev/tty0'') (open_device ''/dev/tty1'')) (\<lambda>_.
     andThen (set_console kd_graphics) (\<lambda>_.
     andThen (ignoring (perform (Wrote ''/sys/class/vtconsole/vtcon1/bind'' ''0''))) (\<lambda>_.
     andThen (set_crtc crtc (Some fb) [connector] (Some m)) (\<lambda>_.
     ret \<lparr>ds_fb = fb, ds_crtc = crtc, ds_connector = connector, ds_mode = m, ds_db = px\<rparr>))))))))))))))))))"

text \<open>The Wayland server: its directory, the display and the listening socket; the three globals
  cannot fail.\<close>

definition listen :: "unit comp" where
  "listen =
     andThen (ignoring (perform (MadeDir ''/run/wayland''))) (\<lambda>_.
     andThen (ask (\<lambda>k n. verdict (k_call k n))) (\<lambda>_.
     perform (Listening ''wayland-0'')))"

section \<open>Input devices\<close>

text \<open>The entries of \<open>/dev/input\<close>: those named \<open>event*\<close> that can be opened.  The \<open>fcntl\<close> that makes the
  device non-blocking is not modelled; the source ignores its failure, and reading such a device would
  block the loop.\<close>

definition is_event_name :: "string \<Rightarrow> bool" where
  "is_event_name name \<longleftrightarrow> prefix ''event'' name"

fun input_devices :: "(string \<times> (string + nat)) list \<Rightarrow> nat list" where
  "input_devices [] = []"
| "input_devices ((name, opened) # entries) =
     (if is_event_name name then
        (case opened of Inr device \<Rightarrow> device # input_devices entries | Inl _ \<Rightarrow> input_devices entries)
      else input_devices entries)"

datatype input_event = KeyEvent "16 word" int | OtherEvent

section \<open>The event loop\<close>

record turn =
  tu_requests :: conversation
  tu_flush :: "string option"
  tu_fetch :: "nat \<Rightarrow> string + input_event list"

definition elapsed_ms :: "(compositor, nat, 'e) act" where
  "elapsed_ms = (\<lambda>s. let n = cp_now s + h_lag (cp_host s) (dv_tick s) in (Ok n, (tock s)\<lparr>cp_now := n\<rparr>))"

definition sleep_ms :: "nat \<Rightarrow> (compositor, unit, 'e) act" where
  "sleep_ms d = modify (\<lambda>s. s\<lparr>cp_now := cp_now s + d\<rparr>)"

text \<open>A press or release goes to the keyboard of the client that asked for one last.\<close>

definition state_of_value :: "int \<Rightarrow> key_state" where
  "state_of_value v = (if v = 1 then Pressed else Released)"

fun on_event :: "input_event \<Rightarrow> (compositor, unit, 'e) act" where
  "on_event (KeyEvent code v) =
     (if v = 1 \<or> v = 0 then
        andThen (reading (\<lambda>s. in_keyboard (cp_input s))) (\<lambda>keyboard.
        case keyboard of None \<Rightarrow> ret () | Some kb \<Rightarrow>
        andThen elapsed_ms (\<lambda>ms.
        send (Key kb (word_of_nat ms) (word_of_nat ms) (ucast code) (state_of_value v))))
      else ret ())"
| "on_event OtherEvent = ret ()"

definition poll_device :: "turn \<Rightarrow> nat \<Rightarrow> (compositor, unit, 'e) act" where
  "poll_device tu device = (case tu_fetch tu device of Inl err \<Rightarrow> ret () | Inr evs \<Rightarrow> forEach on_event evs)"

text \<open>One turn: a client that connects changes nothing until it makes requests; an error of the
  dispatch is reported and passed over, one of the flush ends \<open>main\<close>.\<close>

definition one_turn :: "nat list \<Rightarrow> turn \<Rightarrow> unit comp" where
  "one_turn devices tu =
     andThen (serve (tu_requests tu)) (\<lambda>_.
     andThen (case tu_flush tu of Some err \<Rightarrow> raise err | None \<Rightarrow> ret ()) (\<lambda>_.
     andThen (forEach (poll_device tu) devices) (\<lambda>_.
     sleep_ms 10)))"

fun main_loop :: "nat \<Rightarrow> nat list \<Rightarrow> (nat \<Rightarrow> turn) \<Rightarrow> nat \<Rightarrow> unit comp" where
  "main_loop 0 devices turns k = hang"
| "main_loop (Suc n) devices turns k =
     andThen elapsed_ms (\<lambda>now.
     if now < 60000 then
       andThen (one_turn devices (turns k)) (\<lambda>_. main_loop n devices turns (Suc k))
     else ret ())"

definition loop_fuel :: nat where "loop_fuel = 6001"

definition compositor_main ::
  "(string \<times> (string + nat)) list \<Rightarrow> (nat \<Rightarrow> turn) \<Rightarrow> unit comp"
where
  "compositor_main entries turns =
     andThen acquire_display (\<lambda>d.
     andThen listen (\<lambda>_.
     andThen (modify (\<lambda>s. s\<lparr>cp_drm := Some d, cp_now := 0, cp_surfaces := \<lambda>_. None, cp_pools := \<lambda>_. None,
       cp_buffers := \<lambda>_. None,
       cp_input := \<lparr>in_focused_surface = None, in_pointer = None, in_keyboard = None\<rparr>\<rparr>)) (\<lambda>_.
     andThen (main_loop loop_fuel (input_devices entries) turns 0) (\<lambda>_.
     set_console kd_text))))"

section \<open>The loop ends\<close>

text \<open>Nothing in a turn blocks.\<close>

lemma nonblocking_calls [nonblocking_intros]:
  "nonblocking (die d)" "nonblocking (checked b a)" "nonblocking (ask f)" "nonblocking (logged c)"
  "nonblocking (mmap fd off len)" "nonblocking munmap" "nonblocking (dup fd')" "nonblocking epoch_millis"
  "nonblocking elapsed_ms" "nonblocking (sleep_ms n)" "nonblocking (send ev)" "nonblocking (with_surface i g)"
  "nonblocking (insert_pool i p)" "nonblocking (on_input h)"
  by (simp_all add: nonblocking_def die_def checked_def ask_def logged_def mmap_def munmap_def dup_def
      epoch_millis_def elapsed_ms_def sleep_ms_def send_def with_surface_def insert_pool_def on_input_def
      Let_def split: sum.split option.split)

lemma nonblocking_render [nonblocking_intros]: "nonblocking (render_buffer b)"
  unfolding render_buffer_def copy_pixels_def copy_pixel_def write_pixel_def read_pixel_def slice_len_def
    i32_mul_def u16_mul_def usize_add_def usize_mul_def map_dumb_buffer_def set_crtc_def perform_def Let_def
  by (intro nonblocking_intros)

lemma nonblocking_message [nonblocking_intros]: "nonblocking (on_message client q)"
proof (cases q)
  case (ToSurface i r)
  then show ?thesis
    by (cases r) (auto intro!: nonblocking_intros simp: commit_def fire_frame_callback_def)
next
  case (ToShm r)
  then show ?thesis by (cases r) (auto intro!: nonblocking_intros)
next
  case (ToPool i r)
  then show ?thesis by (cases r) (auto intro!: nonblocking_intros)
next
  case (ToBuffer i r)
  then show ?thesis by (cases r) (auto intro!: nonblocking_intros)
next
  case (ToSeat r)
  then show ?thesis by (cases r) (auto intro!: nonblocking_intros)
next
  case (Bind g i)
  then show ?thesis by (cases g) (auto intro!: nonblocking_intros)
next
  case (ToCompositor r)
  then show ?thesis by (cases r) (auto intro!: nonblocking_intros)
next
  case (ToPointer r)
  then show ?thesis by (cases r) (auto intro!: nonblocking_intros)
next
  case (ToKeyboard r)
  then show ?thesis by (cases r) (auto intro!: nonblocking_intros)
qed (auto intro!: nonblocking_intros)

lemma nonblocking_event [nonblocking_intros]: "nonblocking (on_event ev)"
  by (cases ev) (auto intro!: nonblocking_intros)

lemma nonblocking_turn [nonblocking_intros]: "nonblocking (one_turn devices tu)"
  unfolding one_turn_def serve_def poll_device_def by (intro nonblocking_intros)

text \<open>The events of the input devices, too, stay within what the handlers may change.\<close>

lemma within_poll:
  assumes "handler_effect R" shows "within R (poll_device tu device)"
proof -
  have eff: "effect R" using assms by (simp add: handler_effect_def render_effect_def)
  have tick: "R s (tock s)" and wait: "R s (s\<lparr>cp_now := cp_now s + n\<rparr>)" for s n
    using assms by (simp_all add: handler_effect_def handler_effect_axioms_def render_effect_def
        render_effect_axioms_def)
  have "R s ((tock s)\<lparr>cp_now := cp_now s + n\<rparr>)" for s n
    using effect.chain [OF eff tick wait, of s n] by (simp add: tock_def)
  then have time: "within R (elapsed_ms :: (compositor, nat, 'b) act)"
    by (auto intro: withinI simp: elapsed_ms_def Let_def)
  have "within R (on_event ev :: (compositor, unit, 'b) act)" for ev
  proof (cases ev)
    case (KeyEvent code v)
    show ?thesis
      unfolding KeyEvent on_event.simps
      by (intro effect.within_intros [OF eff] time handler_effect.within_send [OF assms])
  qed (simp add: effect.within_ret [OF eff] del: run_ret)
  then show ?thesis unfolding poll_device_def by (intro effect.within_intros [OF eff])
qed

text \<open>Time does not run backwards.\<close>

definition later :: "compositor \<Rightarrow> compositor \<Rightarrow> bool" where
  "later s t \<longleftrightarrow> cp_now s \<le> cp_now t"

interpretation la: handler_effect later
  by unfold_locales (simp_all add: later_def tock_def set_fb_def)

lemma turn_takes_time:
  assumes "one_turn devices tu s = (Ok (), t)" shows "cp_now s + 10 \<le> cp_now t"
proof -
  let ?m = "andThen (serve (tu_requests tu)) (\<lambda>_.
     andThen (case tu_flush tu of Some err \<Rightarrow> raise err | None \<Rightarrow> ret ()) (\<lambda>_.
     forEach (poll_device tu) devices)) :: unit comp"
  have "within later ?m"
    unfolding serve_def by (intro la.within_intros la.within_message within_poll [OF la.handler_effect_axioms])
  moreover have "one_turn devices tu = andThen ?m (\<lambda>_. sleep_ms 10)"
    by (simp add: one_turn_def andThen_assoc)
  ultimately show ?thesis using assms
    by (auto simp: sleep_ms_def later_def elim!: andThen_Ok_cases dest!: withinD)
qed

lemma main_loop_fuel:
  "60000 \<le> cp_now s + 10 * (n - 1) \<Longrightarrow> n \<noteq> 0 \<Longrightarrow> fst (main_loop n devices turns k s) \<noteq> Hang"
proof (induction n arbitrary: k s)
  case (Suc n)
  let ?now = "cp_now s + h_lag (cp_host s) (dv_tick s)"
  let ?u = "(tock s)\<lparr>cp_now := ?now\<rparr>"
  have e: "(elapsed_ms :: nat comp) s = (Ok ?now, ?u)" by (simp add: elapsed_ms_def Let_def)
  show ?case
  proof (cases "?now < 60000")
    case True
    then have n: "n \<noteq> 0" using Suc.prems by auto
    show ?thesis
    proof (cases "one_turn devices (turns k) ?u")
      case (Pair r t)
      show ?thesis
      proof (cases r)
        case (Ok x)
        then have "?now + 10 \<le> cp_now t" using turn_takes_time [of devices "turns k" ?u t] Pair by simp
        then have "60000 \<le> cp_now t + 10 * (n - 1)" using Suc.prems n by simp
        then show ?thesis using Suc.IH [of t "Suc k"] n e True Pair Ok by simp
      next
        case Hang
        then show ?thesis using nonblocking_run [OF nonblocking_turn] Pair by blast
      qed (use e True Pair in simp_all)
    qed
  qed (simp add: e)
qed simp

text \<open>C24: The event loop comes to its end: every turn takes at least the ten milliseconds it sleeps,
  so after at most 6000 turns the sixty seconds are over, whatever the clients send and however long
  the turns take; unless a panic or an error ends it before, \<open>main\<close> goes on to restore the console.\<close>

theorem main_loop_ends:
  assumes "cp_now s = 0"
  shows "fst (main_loop loop_fuel devices turns k s) \<noteq> Hang"
  using main_loop_fuel [of s loop_fuel] assms by (simp add: loop_fuel_def)

definition empty_turn :: turn where
  "empty_turn = \<lparr>tu_requests = [], tu_flush = None, tu_fetch = \<lambda>_. Inr []\<rparr>"

lemma main_loop_ends_witness:
  "fst (main_loop loop_fuel [4] (\<lambda>_. empty_turn) 0
     (sample_compositor True (sample_drm 3 2) (sample_buffer 2 2 8))) \<noteq> Hang"
  by (rule main_loop_ends) (simp add: sample_compositor_def)

section \<open>Keys\<close>

text \<open>The presses and releases among the events of a device, in order.\<close>

fun keys_of :: "input_event list \<Rightarrow> (32 word \<times> key_state) list" where
  "keys_of [] = []"
| "keys_of (KeyEvent code v # evs) = (if v = 1 \<or> v = 0 then [(ucast code, state_of_value v)] else []) @ keys_of evs"
| "keys_of (OtherEvent # evs) = keys_of evs"

definition stamped :: "resource \<Rightarrow> (32 word \<times> key_state) list \<Rightarrow> 32 word list \<Rightarrow> wl_event list" where
  "stamped kb ks ts = map2 (\<lambda>t (code, st). Key kb t t code st) ts ks"

lemma events_forwarded:
  assumes "in_keyboard (cp_input s) = Some kb"
  shows "\<exists>t ts. (forEach on_event evs :: unit comp) s = (Ok (), t) \<and> length ts = length (keys_of evs)
    \<and> cp_sent t = cp_sent s @ stamped kb (keys_of evs) ts \<and> cp_input t = cp_input s"
  using assms
proof (induction evs arbitrary: s)
  case Nil
  then show ?case by (simp add: stamped_def)
next
  case (Cons ev evs)
  show ?case
  proof (cases "\<exists>code v. ev = KeyEvent code v \<and> (v = 1 \<or> v = 0)")
    case False
    then have "(on_event ev :: unit comp) s = (Ok (), s)" "keys_of (ev # evs) = keys_of evs"
      by (cases ev; auto)+
    with Cons.IH [OF Cons.prems] show ?thesis by (simp only: forEach.simps run_andThen_Ok)
  next
    case True
    then obtain code v where ev: "ev = KeyEvent code v" "v = 1 \<or> v = 0" by blast
    let ?n = "cp_now s + h_lag (cp_host s) (dv_tick s)"
    let ?u = "(tock s)\<lparr>cp_now := ?n, cp_sent := cp_sent s @ [Key kb (word_of_nat ?n) (word_of_nat ?n) (ucast code) (state_of_value v)]\<rparr>"
    have u: "(on_event ev :: unit comp) s = (Ok (), ?u)"
      using ev Cons.prems by (auto simp: elapsed_ms_def send_def run_andThen tock_def Let_def)
    obtain t ts where t: "(forEach on_event evs :: unit comp) ?u = (Ok (), t)" "length ts = length (keys_of evs)"
      "cp_sent t = cp_sent ?u @ stamped kb (keys_of evs) ts" "cp_input t = cp_input ?u"
      using Cons.IH [of ?u] Cons.prems by (auto simp: tock_def)
    have "(forEach on_event (ev # evs) :: unit comp) s = (Ok (), t)"
      using u t(1) by (simp only: forEach.simps run_andThen_Ok)
    moreover have "length (word_of_nat ?n # ts) = length (keys_of (ev # evs))"
      "cp_sent t = cp_sent s @ stamped kb (keys_of (ev # evs)) (word_of_nat ?n # ts)" "cp_input t = cp_input s"
      using ev t by (auto simp: stamped_def tock_def)
    ultimately show ?thesis by blast
  qed
qed

text \<open>The keys pressed and released on a device reach the client that asked for a keyboard last,
  all of them, in order, each with one number that is both its serial and its time; repeats and other
  events are dropped.  Which surface the client has, or whether it has one, makes no difference.\<close>

lemma keys_reach_keyboard:
  assumes "in_keyboard (cp_input s) = Some kb" and "tu_fetch tu device = Inr evs"
  shows "\<exists>t ts. (poll_device tu device :: unit comp) s = (Ok (), t) \<and> length ts = length (keys_of evs)
    \<and> cp_sent t = cp_sent s @ map2 (\<lambda>time (code, st). Key kb time time code st) ts (keys_of evs)"
proof -
  obtain t ts where "(forEach on_event evs :: unit comp) s = (Ok (), t)" "length ts = length (keys_of evs)"
    "cp_sent t = cp_sent s @ stamped kb (keys_of evs) ts"
    using events_forwarded [OF assms(1), of evs] by (elim exE conjE) (rule that)
  then show ?thesis using assms(2)
    by (intro exI [of _ t] exI [of _ ts]) (simp add: poll_device_def stamped_def)
qed

lemma keys_reach_keyboard_witness:
  "\<exists>t t1 t2. (poll_device (empty_turn\<lparr>tu_fetch := \<lambda>_. Inr [KeyEvent 30 1, KeyEvent 30 2, OtherEvent, KeyEvent 30 0]\<rparr>) 4 :: unit comp)
      ((sample_compositor True (sample_drm 3 2) (sample_buffer 2 2 8))
        \<lparr>cp_input := \<lparr>in_focused_surface = None, in_pointer = None, in_keyboard = Some (2, 9)\<rparr>\<rparr>) = (Ok (), t)
    \<and> cp_sent t = [Key (2, 9) t1 t1 30 Pressed, Key (2, 9) t2 t2 30 Released]"
proof -
  let ?evs = "[KeyEvent 30 1, KeyEvent 30 2, OtherEvent, KeyEvent 30 0]"
  let ?s = "(sample_compositor True (sample_drm 3 2) (sample_buffer 2 2 8))
    \<lparr>cp_input := \<lparr>in_focused_surface = None, in_pointer = None, in_keyboard = Some (2, 9)\<rparr>\<rparr>"
  let ?tu = "empty_turn\<lparr>tu_fetch := \<lambda>_. Inr ?evs\<rparr>"
  obtain t ts where t: "(poll_device ?tu 4 :: unit comp) ?s = (Ok (), t)" "length ts = length (keys_of ?evs)"
    "cp_sent t = cp_sent ?s @ map2 (\<lambda>time (code, st). Key (2, 9) time time code st) ts (keys_of ?evs)"
    using keys_reach_keyboard [of ?s "(2, 9)" ?tu 4 ?evs] by (elim meta_impE exE conjE) (simp_all add: that)
  have k: "keys_of ?evs = [(30, Pressed), (30, Released)]" by (simp add: state_of_value_def)
  obtain t1 t2 where "ts = [t1, t2]" using t(2) k by (auto simp: length_Suc_conv)
  then show ?thesis using t(1,3) k by (intro exI [of _ t] exI [of _ t1] exI [of _ t2]) (simp add: sample_compositor_def)
qed

section \<open>The connector\<close>

lemma find_mode_steady:
  assumes "steady (dv_kms s) info"
  shows "fst (find_mode hs s) = (case first_usable (info False) hs of
     Inl (h, e) \<Rightarrow> Err e
   | Inr found \<Rightarrow> Ok (map_option (\<lambda>(h, i). (h, hd (ci_modes i))) found))"
  using assms
proof (induction hs arbitrary: s)
  case (Cons h hs)
  have "steady (dv_kms (tock s)) info" using Cons.prems by simp
  from Cons.IH [OF this] show ?case
    using run_get_connector [OF Cons.prems, of h False]
    by (auto simp: usable_def split: sum.split list.split)
qed simp

text \<open>C30: What each program shows its picture on.  The compositor asks for the cached state of the
  connectors and \<open>drm_rect\<close> forces a probe; otherwise the searches are the same: each takes the first
  connector that its query reports connected with a mode, the compositor together with the first of
  the modes, and each stops with the error of the first query that fails.  So a display that was
  plugged in since the last probe is found by \<open>drm_rect\<close> and passed over by the compositor, and on a
  device whose cached states are up to date both choose the same connector.\<close>

theorem connector_choice:
  assumes "steady k info" and "dv_kms s = k" and "dv_kms r = k"
  shows "fst (find_mode hs s) = (case first_usable (info False) hs of
        Inl (h, e) \<Rightarrow> Err e
      | Inr found \<Rightarrow> Ok (map_option (\<lambda>(h, i). (h, hd (ci_modes i))) found))
    \<and> fst (find_connected_connector hs r) = (case first_usable (info True) hs of
        Inl (h, e) \<Rightarrow> Err (Ctx (''failed to query connector '' @ k_debug k h) (Msg e))
      | Inr None \<Rightarrow> Err (Msg ''no connected connector with available modes was found'')
      | Inr (Some (h, i)) \<Rightarrow> Ok i)"
  using find_mode_steady [of s info hs, unfolded assms(2), OF assms(1)]
    find_connected_steady [of r info hs, unfolded assms(3), OF assms(1)]
  by (rule conjI)

text \<open>A display plugged into connector 31 since the last probe.\<close>

definition plugged :: "bool \<Rightarrow> nat \<Rightarrow> string + connector_info" where
  "plugged force h = Inr ((sample_connector h)\<lparr>ci_connected := h = 32 \<or> force\<rparr>)"

lemma connector_choice_witness:
  "fst (find_mode [31, 32] ((sample_compositor True (sample_drm 3 2) (sample_buffer 2 2 8))
      \<lparr>dv_kms := sample_kms\<lparr>k_connector := \<lambda>_ h force. plugged force h\<rparr>\<rparr>)) = Ok (Some (32, sample_mode))
    \<and> fst (find_connected_connector [31, 32] (sample_screen\<lparr>dv_kms := sample_kms\<lparr>k_connector := \<lambda>_ h force. plugged force h\<rparr>\<rparr>))
      = Ok ((sample_connector 31)\<lparr>ci_connected := True\<rparr>)"
proof -
  let ?k = "sample_kms\<lparr>k_connector := \<lambda>_ h force. plugged force h\<rparr>"
  have "steady ?k plugged" by (simp add: steady_def)
  from connector_choice [OF this, of "(sample_compositor True (sample_drm 3 2) (sample_buffer 2 2 8))\<lparr>dv_kms := ?k\<rparr>"
      "sample_screen\<lparr>dv_kms := ?k\<rparr>" "[31, 32]"]
  show ?thesis by (simp add: usable_def sample_connector_def plugged_def)
qed

section \<open>The console\<close>

definition no_text :: "compositor \<Rightarrow> compositor \<Rightarrow> bool" where
  "no_text s t \<longleftrightarrow> (ConsoleMode kd_text \<notin> set (dv_log s) \<longrightarrow> ConsoleMode kd_text \<notin> set (dv_log t))"

interpretation nt: handler_effect no_text
  by unfold_locales (simp_all add: no_text_def tock_def set_fb_def)

lemma no_text_logged: "c \<noteq> ConsoleMode kd_text \<Longrightarrow> within no_text (logged c)"
  by (simp add: within_def no_text_def)

lemma no_text_perform: "c \<noteq> ConsoleMode kd_text \<Longrightarrow> within no_text (perform c)"
  unfolding perform_def by (intro nt.within_andThen nt.within_ask no_text_logged)

lemma no_text_find_mode: "within no_text (find_mode hs)"
proof (induction hs)
  case (Cons h hs)
  have "within no_text (case ms of [] \<Rightarrow> find_mode hs | m # x \<Rightarrow> ret (Some (h, m)))" for ms :: "mode list"
    using Cons by (cases ms) (simp_all add: nt.within_ret del: run_ret)
  then show ?case
    unfolding find_mode.simps get_connector_def by (intro nt.within_andThen nt.within_ask nt.within_if Cons)
qed (simp add: nt.within_ret del: run_ret)

lemma no_text_acquire: "within no_text acquire_display"
  unfolding acquire_display_def open_device_def resource_handles_def ok_or_def get_connector_def
    get_encoder_def create_dumb_buffer_def add_framebuffer_def map_dumb_buffer_def u16_mul_def
    fill_orange_def or_else_def set_console_def
  by (intro nt.within_intros nt.within_ask nt.within_checked nt.within_die nt.within_show no_text_logged
      no_text_perform no_text_find_mode) (simp_all add: kd_graphics_def kd_text_def)

lemma no_text_listen: "within no_text listen"
  unfolding listen_def by (intro nt.within_intros nt.within_ask no_text_perform) simp_all

lemma no_text_loop: "within no_text (main_loop n devices turns k)"
proof (induction n arbitrary: k)
  case (Suc n)
  have "within no_text (elapsed_ms :: nat comp)"
    by (rule withinI) (simp add: elapsed_ms_def no_text_def tock_def Let_def)
  moreover have "within no_text (sleep_ms 10 :: unit comp)"
    by (rule withinI) (simp add: sleep_ms_def no_text_def)
  ultimately show ?case
    unfolding main_loop.simps one_turn_def serve_def
    by (intro nt.within_intros nt.within_message within_poll [OF nt.handler_effect_axioms] Suc)
qed (simp add: nt.within_hang del: run_hang)

text \<open>C39: The console is given back in one place only.  When the program ends as it should and the
  kernel lets it, the last thing it does is to switch the console to text; when \<open>main\<close> returns an
  error, after it switched the console to graphics or before, it never does, and the machine is left
  with a dead console.\<close>

theorem console_given_back:
  assumes "compositor_main entries turns s = (r, t)"
  shows "(r = Ok () \<and> (\<forall>n. k_call (dv_kms t) n = None) \<longrightarrow> last (dv_log t) = ConsoleMode kd_text)
    \<and> ((\<exists>e. r = Err e) \<and> ConsoleMode kd_text \<notin> set (dv_log s) \<longrightarrow> ConsoleMode kd_text \<notin> set (dv_log t))"
proof -
  let ?init = "\<lambda>d. modify (\<lambda>s. s\<lparr>cp_drm := Some d, cp_now := 0, cp_surfaces := \<lambda>_. None, cp_pools := \<lambda>_. None,
       cp_buffers := \<lambda>_. None,
       cp_input := \<lparr>in_focused_surface = None, in_pointer = None, in_keyboard = None\<rparr>\<rparr>) :: unit comp"
  let ?m = "andThen acquire_display (\<lambda>d. andThen listen (\<lambda>_. andThen (?init d) (\<lambda>_.
    main_loop loop_fuel (input_devices entries) turns 0)))"
  have split: "compositor_main entries turns = andThen ?m (\<lambda>_. set_console kd_text)"
    by (simp add: compositor_main_def andThen_assoc)
  have "within no_text (?init d)" for d by (rule withinI) (simp add: no_text_def)
  then have body: "within no_text ?m"
    by (intro nt.within_andThen no_text_acquire no_text_listen no_text_loop)
  have last: "last (dv_log v) = ConsoleMode kd_text"
    if "set_console kd_text u = (Ok x, v)" "\<forall>n. k_call (dv_kms v) n = None" for u x v
    using that by (auto simp: set_console_def ignoring_def attempt_def perform_def run_ask verdict_def
        tock_def run_andThen split: option.splits)
  have never: "set_console kd_text u \<noteq> (Err e, v)" for u e v
    by (simp add: set_console_def ignoring_def attempt_def perform_def run_ask verdict_def run_andThen
        split: option.split)
  show ?thesis
  proof (intro conjI impI; elim conjE exE)
    assume r: "r = Ok ()" and calls: "\<forall>n. k_call (dv_kms t) n = None"
    have "andThen ?m (\<lambda>_. set_console kd_text) s = (Ok (), t)" using assms r unfolding split by simp
    then obtain a u where "set_console kd_text u = (Ok (), t)" by (rule andThen_Ok_cases)
    then show "last (dv_log t) = ConsoleMode kd_text" using last calls by blast
  next
    fix e
    assume r: "r = Err e" and log: "ConsoleMode kd_text \<notin> set (dv_log s)"
    have "andThen ?m (\<lambda>_. set_console kd_text) s = (Err e, t)" using assms r unfolding split by simp
    then have "?m s = (Err e, t)" by (rule andThen_Err_cases) (use never in blast)+
    from withinD [OF body this] log show "ConsoleMode kd_text \<notin> set (dv_log t)" by (simp add: no_text_def)
  qed
qed

text \<open>A machine whose display comes up and whose first flush fails.\<close>

definition sample_machine :: compositor where
  "sample_machine = (sample_compositor True (sample_drm 2 1) (sample_buffer 2 2 8))
     \<lparr>dv_kms := sample_kms\<lparr>k_connector := \<lambda>_ h _. Inr ((sample_connector h)\<lparr>ci_current_encoder := Some 40\<rparr>)\<rparr>\<rparr>"

lemma run_sample_machine:
  "\<exists>t. compositor_main [] (\<lambda>_. empty_turn\<lparr>tu_flush := Some ''broken''\<rparr>) sample_machine = (Err ''broken'', t)
    \<and> ConsoleMode kd_graphics \<in> set (dv_log t)"
proof -
  have fuel: "loop_fuel = Suc 6000" by (simp add: loop_fuel_def)
  show ?thesis
    unfolding compositor_main_def fuel main_loop.simps
    by (simp add: sample_machine_def sample_compositor_def sample_kms_def sample_connector_def sample_mode_def
        sample_host_def acquire_display_def open_device_def resource_handles_def ok_or_def get_connector_def
        get_encoder_def create_dumb_buffer_def add_framebuffer_def map_dumb_buffer_def u16_mul_def checked_def
        fill_orange_def or_else_def set_console_def perform_def set_crtc_def listen_def run_ask verdict_def
        tock_def elapsed_ms_def one_turn_def serve_def empty_turn_def Let_def run_andThen ignoring_def
        attempt_def)
qed

lemma console_given_back_witness:
  "\<exists>t. compositor_main [] (\<lambda>_. empty_turn\<lparr>tu_flush := Some ''broken''\<rparr>) sample_machine = (Err ''broken'', t)
    \<and> ConsoleMode kd_graphics \<in> set (dv_log t) \<and> ConsoleMode kd_text \<notin> set (dv_log t)"
proof -
  obtain t where run: "compositor_main [] (\<lambda>_. empty_turn\<lparr>tu_flush := Some ''broken''\<rparr>) sample_machine = (Err ''broken'', t)"
    and g: "ConsoleMode kd_graphics \<in> set (dv_log t)"
    using run_sample_machine by (elim exE conjE) (rule that)
  have "ConsoleMode kd_text \<notin> set (dv_log sample_machine)"
    by (simp add: sample_machine_def sample_compositor_def)
  then have "ConsoleMode kd_text \<notin> set (dv_log t)" using console_given_back [OF run] by simp
  with run g show ?thesis by (intro exI [of _ t]) simp
qed

end
