(* ===== verification/TestClient.thy ===== *)
theory TestClient
  imports CompositorMain
begin

text \<open>
  \<open>compositor-rs/src/bin/test-client.rs\<close>: the Wayland client that draws a gradient and, while it
  runs, a block for each key pressed.  The events the library \<open>wayland-client\<close> delivers in each call
  are given by the environment \<open>feed\<close> (\<open>None\<close> where a call blocks for ever); the requests the client
  makes are kept in a list.  \<open>tc_pixels\<close> is the shared memory behind the slice \<open>pixel_slice\<close>, which
  may be accessed only while it is mapped.
\<close>

section \<open>Data\<close>

record app_data =
  ad_compositor :: "nat option"
  ad_shm :: "nat option"
  ad_seat :: "nat option"
  ad_keyboard :: "nat option"
  ad_surface :: "nat option"
  ad_frame_received :: bool
  ad_key_received :: bool
  ad_keys_pressed :: "32 word list"
  ad_needs_redraw :: bool

datatype client_event =
    Global nat string nat
  | OtherRegistry
  | ShmFormat
  | BufferRelease nat
  | CallbackDone "32 word"
  | SeatCapabilities nat
  | OtherSeatEvent
  | KeyboardKey "32 word" "32 word" "32 word" "32 word + key_state"
  | OtherKeyboardEvent
  | IgnoredEvent

datatype client_request =
    BindGlobal nat string nat
  | GetKeyboardOf nat
  | DestroyBufferOf nat
  | CreateSurfaceOf nat
  | CreatePoolOf nat nat
  | CreateBufferOf nat nat nat nat shm_format
  | AttachBuffer
  | DamageRect nat nat nat nat
  | RequestFrame
  | CommitSurface

datatype client_death = KeyOverflow | OutOfRange | Unmapped

record feed =
  fd_checks :: bool
  fd_connect :: "string option"
  fd_roundtrip :: "string + client_event list"
  fd_blocking :: "nat \<Rightarrow> (string + client_event list) option"
  fd_pending :: "nat \<Rightarrow> string + client_event list"
  fd_file :: "string option"
  fd_mmap :: bool
  fd_lag :: "nat \<Rightarrow> nat"

record client =
  tc_feed :: feed
  tc_tick :: nat
  tc_now :: nat
  tc_app :: app_data
  tc_pixels :: "32 word list"
  tc_mapped :: bool
  tc_requests :: "client_request list"
  tc_death :: "client_death option"

type_synonym 'a wl_client = "(client, 'a, string) act"

section \<open>Events\<close>

definition ask_for :: "client_request \<Rightarrow> (client, unit, 'e) act" where
  "ask_for q = modify (\<lambda>s. s\<lparr>tc_requests := tc_requests s @ [q]\<rparr>)"

definition on_app :: "(app_data \<Rightarrow> app_data) \<Rightarrow> (client, unit, 'e) act" where
  "on_app f = modify (\<lambda>s. s\<lparr>tc_app := f (tc_app s)\<rparr>)"

text \<open>A binding is the name of its global.\<close>

definition on_global :: "nat \<Rightarrow> string \<Rightarrow> nat \<Rightarrow> (client, unit, 'e) act" where
  "on_global name interface version =
     (if interface = ''wl_compositor'' then
        andThen (ask_for (BindGlobal name interface (min version 6))) (\<lambda>_.
        on_app (\<lambda>a. a\<lparr>ad_compositor := Some name\<rparr>))
      else if interface = ''wl_shm'' then
        andThen (ask_for (BindGlobal name interface (min version 1))) (\<lambda>_.
        on_app (\<lambda>a. a\<lparr>ad_shm := Some name\<rparr>))
      else if interface = ''wl_seat'' then
        andThen (ask_for (BindGlobal name interface (min version 7))) (\<lambda>_.
        on_app (\<lambda>a. a\<lparr>ad_seat := Some name\<rparr>))
      else ret ())"

definition push_key :: "32 word \<Rightarrow> 32 word list \<Rightarrow> 32 word list" where
  "push_key k ks = (let ks' = ks @ [k] in if length ks' > 20 then drop 1 ks' else ks')"

definition on_key :: "32 word \<Rightarrow> 32 word + key_state \<Rightarrow> (client, unit, 'e) act" where
  "on_key k st =
     andThen (on_app (\<lambda>a. a\<lparr>ad_key_received := True\<rparr>)) (\<lambda>_.
     if st = Inr Pressed then
       on_app (\<lambda>a. a\<lparr>ad_keys_pressed := push_key k (ad_keys_pressed a), ad_needs_redraw := True\<rparr>)
     else ret ())"

fun on_client_event :: "client_event \<Rightarrow> (client, unit, 'e) act" where
  "on_client_event (Global name interface version) = on_global name interface version"
| "on_client_event OtherRegistry = ret ()"
| "on_client_event ShmFormat = ret ()"
| "on_client_event (BufferRelease b) = ask_for (DestroyBufferOf b)"
| "on_client_event (CallbackDone t) = on_app (\<lambda>a. a\<lparr>ad_frame_received := True\<rparr>)"
| "on_client_event (SeatCapabilities seat) =
     andThen (ask_for (GetKeyboardOf seat)) (\<lambda>_. on_app (\<lambda>a. a\<lparr>ad_keyboard := Some seat\<rparr>))"
| "on_client_event OtherSeatEvent = ret ()"
| "on_client_event (KeyboardKey serial time k st) = on_key k st"
| "on_client_event OtherKeyboardEvent = ret ()"
| "on_client_event IgnoredEvent = ret ()"

section \<open>Drawing\<close>

definition win_width :: nat where "win_width = 200"
definition win_height :: nat where "win_height = 200"
definition win_stride :: nat where "win_stride = win_width * 4"
definition win_size :: nat where "win_size = win_stride * win_height"

definition fails :: "client_death \<Rightarrow> (client, 'a, 'e) act" where
  "fails d = andThen (modify (\<lambda>s. s\<lparr>tc_death := Some d\<rparr>)) (\<lambda>_. panic)"

text \<open>Writing through the slice: out of its range is a panic, and a write to memory that is not mapped
  is the fault that ends the process.\<close>

definition put_pixel :: "nat \<Rightarrow> 32 word \<Rightarrow> (client, unit, 'e) act" where
  "put_pixel i p = (\<lambda>s.
     if length (tc_pixels s) \<le> i then fails OutOfRange s
     else if \<not> tc_mapped s then fails Unmapped s
     else (Ok (), s\<lparr>tc_pixels := (tc_pixels s)[i := p]\<rparr>))"

definition gradient :: "nat \<Rightarrow> nat \<Rightarrow> 32 word" where
  "gradient x y = or (or 0xFF000000 (push_bit 16 (word_of_nat (x * 255 div win_width))))
     (word_of_nat (y * 255 div win_height))"

definition draw_gradient :: "(client, unit, 'e) act" where
  "draw_gradient =
     forEach (\<lambda>y. forEach (\<lambda>x. put_pixel (y * win_width + x) (gradient x y)) [0..<win_width])
       [0..<win_height]"

definition block_size :: nat where "block_size = 15"

definition u32_mul :: "32 word \<Rightarrow> 32 word \<Rightarrow> (client, 32 word, 'e) act" where
  "u32_mul a b = andThen (reading (\<lambda>s. fd_checks (tc_feed s))) (\<lambda>checks.
     if checks \<and> \<not> unat a * unat b < 2 ^ 32 then fails KeyOverflow else ret (a * b))"

definition channel :: "32 word \<Rightarrow> 32 word \<Rightarrow> (client, 32 word, 'e) act" where
  "channel k n = andThen (u32_mul k n) (\<lambda>p. ret (p mod 200 + 55))"

definition rgb :: "32 word \<Rightarrow> 32 word \<Rightarrow> 32 word \<Rightarrow> 32 word" where
  "rgb r g b = or (or (or 0xFF000000 (push_bit 16 r)) (push_bit 8 g)) b"

definition key_colour :: "32 word \<Rightarrow> (client, 32 word, 'e) act" where
  "key_colour k =
     andThen (channel k 123) (\<lambda>r. andThen (channel k 456) (\<lambda>g. andThen (channel k 789) (\<lambda>b.
     ret (rgb r g b))))"

definition draw_block :: "nat \<times> 32 word \<Rightarrow> (client, unit, 'e) act" where
  "draw_block ik = (case ik of (i, k) \<Rightarrow>
     let block_x = 10 + i * (block_size + 3); block_y = win_height - 30 in
     andThen (key_colour k) (\<lambda>colour.
     forEach (\<lambda>dy. forEach (\<lambda>dx.
         let px = block_x + dx; py = block_y + dy in
         if px < win_width \<and> py < win_height then put_pixel (py * win_width + px) colour else ret ())
       [0..<block_size]) [0..<block_size]))"

definition draw_blocks :: "32 word list \<Rightarrow> (client, unit, 'e) act" where
  "draw_blocks ks = forEach draw_block (enumerate 0 ks)"

definition submit :: "(client, unit, 'e) act" where
  "submit = andThen (ask_for AttachBuffer) (\<lambda>_. andThen (ask_for (DamageRect 0 0 win_width win_height)) (\<lambda>_.
     ask_for CommitSurface))"

definition redraw :: "(client, unit, 'e) act" where
  "redraw =
     andThen draw_gradient (\<lambda>_.
     andThen (reading (\<lambda>s. ad_keys_pressed (tc_app s))) (\<lambda>ks.
     andThen (draw_blocks ks) (\<lambda>_.
     andThen submit (\<lambda>_.
     on_app (\<lambda>a. a\<lparr>ad_needs_redraw := False\<rparr>)))))"

section \<open>The program\<close>

definition hear :: "client_event list \<Rightarrow> (client, unit, 'e) act" where
  "hear evs = forEach on_client_event evs"

definition roundtrip :: "unit wl_client" where
  "roundtrip = andThen (reading (\<lambda>s. fd_roundtrip (tc_feed s))) (\<lambda>r.
     case r of Inl e \<Rightarrow> raise e | Inr evs \<Rightarrow> hear evs)"

definition next_tick :: "client \<Rightarrow> client" where
  "next_tick s = s\<lparr>tc_tick := Suc (tc_tick s), tc_now := tc_now s + fd_lag (tc_feed s) (tc_tick s)\<rparr>"

definition blocking_dispatch :: "unit wl_client" where
  "blocking_dispatch = (\<lambda>s. case fd_blocking (tc_feed s) (tc_tick s) of
       None \<Rightarrow> hang s
     | Some (Inl e) \<Rightarrow> (Err e, next_tick s)
     | Some (Inr evs) \<Rightarrow> hear evs (next_tick s))"

text \<open>Dispatching what is pending reads nothing from the socket.  Which events earlier calls have left
  pending is up to the library, so any events may come.\<close>

definition dispatch_pending :: "unit wl_client" where
  "dispatch_pending = (\<lambda>s. case fd_pending (tc_feed s) (tc_tick s) of
       Inl e \<Rightarrow> (Err e, next_tick s)
     | Inr evs \<Rightarrow> hear evs (next_tick s))"

fun wait_for_frame :: "nat \<Rightarrow> nat \<Rightarrow> unit wl_client" where
  "wait_for_frame 0 start = hang"
| "wait_for_frame (Suc n) start =
     andThen (reading (\<lambda>s. \<not> ad_frame_received (tc_app s) \<and> tc_now s - start < 5000)) (\<lambda>again.
     if again then andThen blocking_dispatch (\<lambda>_. wait_for_frame n start) else ret ())"

definition interactive_turn :: "unit wl_client" where
  "interactive_turn =
     andThen dispatch_pending (\<lambda>_.
     andThen (reading (\<lambda>s. ad_needs_redraw (tc_app s))) (\<lambda>dirty.
     andThen (whenever dirty redraw) (\<lambda>_.
     modify (\<lambda>s. s\<lparr>tc_now := tc_now s + 16\<rparr>))))"

fun interactive :: "nat \<Rightarrow> nat \<Rightarrow> unit wl_client" where
  "interactive 0 start = hang"
| "interactive (Suc n) start =
     andThen (reading (\<lambda>s. tc_now s - start < 30000)) (\<lambda>again.
     if again then andThen interactive_turn (\<lambda>_. interactive n start) else ret ())"

text \<open>Creating the shared buffer: the file, its mapping, the first picture, the pool and the buffer.\<close>

definition make_buffer :: "unit wl_client" where
  "make_buffer =
     andThen (reading (\<lambda>s. fd_file (tc_feed s))) (\<lambda>failed.
     case failed of Some e \<Rightarrow> raise e | None \<Rightarrow>
     andThen (reading (\<lambda>s. fd_mmap (tc_feed s))) (\<lambda>ok.
     if \<not> ok then raise ''mmap failed'' else
     andThen (modify (\<lambda>s. s\<lparr>tc_pixels := replicate (win_width * win_height) 0, tc_mapped := True\<rparr>)) (\<lambda>_.
     andThen draw_gradient (\<lambda>_.
     andThen (ask_for (CreatePoolOf 0 win_size)) (\<lambda>_.
     ask_for (CreateBufferOf 0 win_width win_height win_stride Argb8888))))))"

definition fresh_app :: app_data where
  "fresh_app = \<lparr>ad_compositor = None, ad_shm = None, ad_seat = None, ad_keyboard = None, ad_surface = None,
     ad_frame_received = False, ad_key_received = False, ad_keys_pressed = [], ad_needs_redraw = False\<rparr>"

definition client_main :: "nat \<Rightarrow> unit wl_client" where
  "client_main fuel =
     andThen (reading (\<lambda>s. fd_connect (tc_feed s))) (\<lambda>failed.
     case failed of Some e \<Rightarrow> raise e | None \<Rightarrow>
     andThen (on_app (\<lambda>_. fresh_app)) (\<lambda>_.
     andThen roundtrip (\<lambda>_.
     andThen (reading (\<lambda>s. ad_compositor (tc_app s))) (\<lambda>compositor.
     case compositor of None \<Rightarrow> raise ''No wl_compositor'' | Some c \<Rightarrow>
     andThen (reading (\<lambda>s. ad_shm (tc_app s))) (\<lambda>shm.
     case shm of None \<Rightarrow> raise ''No wl_shm'' | Some _ \<Rightarrow>
     andThen (ask_for (CreateSurfaceOf c)) (\<lambda>_.
     andThen (on_app (\<lambda>a. a\<lparr>ad_surface := Some c\<rparr>)) (\<lambda>_.
     andThen make_buffer (\<lambda>_.
     andThen (ask_for AttachBuffer) (\<lambda>_.
     andThen (ask_for (DamageRect 0 0 win_width win_height)) (\<lambda>_.
     andThen (ask_for RequestFrame) (\<lambda>_.
     andThen (ask_for CommitSurface) (\<lambda>_.
     andThen (reading tc_now) (\<lambda>start.
     andThen (wait_for_frame fuel start) (\<lambda>_.
     andThen (modify (\<lambda>s. s\<lparr>tc_mapped := False\<rparr>)) (\<lambda>_.
     andThen (reading (\<lambda>s. ad_frame_received (tc_app s))) (\<lambda>received.
     if received then andThen (reading tc_now) (\<lambda>start. interactive fuel start)
     else raise ''Frame callback timeout''))))))))))))))))"

end
