(* ===== verification/ClientPicture.thy ===== *)
theory ClientPicture
  imports TestClient
begin

text \<open>
  What the test client draws and keeps: the gradient, the blocks of the keys, the list of the last
  keys, and what happens when it draws after it has unmapped its memory.  At the end the client, the
  compositor and the display together.
\<close>

section \<open>Painting\<close>

definition paint :: "(nat \<Rightarrow> 32 word) \<Rightarrow> nat set \<Rightarrow> 32 word list \<Rightarrow> 32 word list" where
  "paint f S px = map (\<lambda>k. if k \<in> S then f k else px ! k) [0..<length px]"

lemma length_paint [simp]: "length (paint f S px) = length px"
  by (simp add: paint_def)

lemma nth_paint [simp]: "k < length px \<Longrightarrow> paint f S px ! k = (if k \<in> S then f k else px ! k)"
  by (simp add: paint_def)

lemma paint_empty [simp]: "paint f {} px = px"
  by (rule nth_equalityI) simp_all

lemma paint_update: "k < length px \<Longrightarrow> (paint f S px)[k := f k] = paint f (insert k S) px"
  by (rule nth_equalityI) (auto simp: nth_list_update)

definition pic :: "(nat \<Rightarrow> 32 word) \<Rightarrow> nat set \<Rightarrow> client \<Rightarrow> client" where
  "pic f S s = s\<lparr>tc_pixels := paint f S (tc_pixels s)\<rparr>"

lemma pic_empty [simp]: "pic f {} s = s"
  by (simp add: pic_def)

lemma put_pic:
  assumes "tc_mapped s" and "k < length (tc_pixels s)"
  shows "put_pixel k (f k) (pic f S s) = (Ok (), pic f (S \<union> {k}) s)"
  using assms by (simp add: put_pixel_def pic_def paint_update)

lemma forEach_pic:
  assumes "\<And>x S. x \<in> set xs \<Longrightarrow> g x (pic f S s) = (Ok (), pic f (S \<union> T x) s)"
  shows "forEach g xs (pic f S s) = (Ok (), pic f (S \<union> (\<Union>x \<in> set xs. T x)) s)"
  using assms
proof (induction xs arbitrary: S)
  case (Cons x xs)
  have "g x (pic f S s) = (Ok (), pic f (S \<union> T x) s)" by (rule Cons.prems) simp
  moreover have "forEach g xs (pic f (S \<union> T x) s) = (Ok (), pic f (S \<union> T x \<union> (\<Union>x \<in> set xs. T x)) s)"
    by (rule Cons.IH) (rule Cons.prems, simp)
  ultimately show ?case by (simp add: Un_assoc)
qed simp

text \<open>The window is mapped and has its size.\<close>

definition window :: "client \<Rightarrow> bool" where
  "window s \<longleftrightarrow> tc_mapped s \<and> length (tc_pixels s) = win_width * win_height"

lemma window_pic [simp]: "window (pic f S s) = window s"
  by (simp add: window_def pic_def)

section \<open>The gradient\<close>

definition gradient_at :: "nat \<Rightarrow> 32 word" where
  "gradient_at k = gradient (k mod win_width) (k div win_width)"

lemma in_window: "x < win_width \<Longrightarrow> y < win_height \<Longrightarrow> y * win_width + x < win_width * win_height"
  by (simp add: win_width_def win_height_def)

lemma run_draw_gradient:
  assumes "window s"
  shows "draw_gradient s = (Ok (), s\<lparr>tc_pixels := map gradient_at [0..<win_width * win_height]\<rparr>)"
proof -
  have "forEach (\<lambda>y. forEach (\<lambda>x. put_pixel (y * win_width + x) (gradient x y)) [0..<win_width]) [0..<win_height]
      (pic gradient_at {} s)
    = (Ok (), pic gradient_at ({} \<union> (\<Union>y \<in> set [0..<win_height]. \<Union>x \<in> set [0..<win_width]. {y * win_width + x})) s)"
  proof (rule forEach_pic)
    fix y S
    assume y: "y \<in> set [0..<win_height]"
    show "forEach (\<lambda>x. put_pixel (y * win_width + x) (gradient x y)) [0..<win_width] (pic gradient_at S s)
      = (Ok (), pic gradient_at (S \<union> (\<Union>x \<in> set [0..<win_width]. {y * win_width + x})) s)"
    proof (rule forEach_pic)
      fix x S
      assume "x \<in> set [0..<win_width]"
      then have x: "x < win_width" by simp
      then have "gradient x y = gradient_at (y * win_width + x)" by (simp add: gradient_at_def)
      moreover have "y * win_width + x < length (tc_pixels s)"
        using assms in_window [OF x] y by (simp add: window_def)
      ultimately show "put_pixel (y * win_width + x) (gradient x y) (pic gradient_at S s)
        = (Ok (), pic gradient_at (S \<union> {y * win_width + x}) s)"
        using put_pic [of s "y * win_width + x" gradient_at S] assms by (simp add: window_def)
    qed
  qed
  moreover have "(\<Union>y \<in> set [0..<win_height]. \<Union>x \<in> set [0..<win_width]. {y * win_width + x}) = {..<win_width * win_height}"
  proof -
    have "k \<in> (\<Union>y \<in> set [0..<win_height]. \<Union>x \<in> set [0..<win_width]. {y * win_width + x})"
      if "k < win_width * win_height" for k
    proof -
      have "k div win_width < win_height" "k mod win_width < win_width"
        using that by (simp_all add: win_width_def win_height_def)
      then show ?thesis using div_mult_mod_eq [of k win_width] by force
    qed
    then show ?thesis using in_window by auto
  qed
  moreover have "paint gradient_at {..<win_width * win_height} (tc_pixels s) = map gradient_at [0..<win_width * win_height]"
    using assms by (simp add: paint_def window_def)
  ultimately show ?thesis by (simp add: draw_gradient_def pic_def)
qed

section \<open>The blocks\<close>

text \<open>The pixels of block \<open>i\<close>, and the colour of a key without overflow.\<close>

definition block_pixels :: "nat \<Rightarrow> nat set" where
  "block_pixels i = {py * win_width + px |px py. 10 + i * 18 \<le> px \<and> px < 10 + i * 18 + 15 \<and> px < win_width
     \<and> 170 \<le> py \<and> py < 185}"

definition colour_of :: "32 word \<Rightarrow> 32 word" where
  "colour_of k = rgb (k * 123 mod 200 + 55) (k * 456 mod 200 + 55) (k * 789 mod 200 + 55)"

definition paintable :: "client \<Rightarrow> 32 word \<Rightarrow> bool" where
  "paintable s k \<longleftrightarrow> (fd_checks (tc_feed s) \<longrightarrow> unat k * 789 < 2 ^ 32)"

lemma run_key_colour: "paintable s k \<Longrightarrow> key_colour k s = (Ok (colour_of k), s)"
  by (auto simp: paintable_def key_colour_def channel_def u32_mul_def colour_of_def)

lemma run_draw_block:
  assumes "window s" and "paintable s k"
  shows "(draw_block (i, k) :: unit wl_client) s = (Ok (), pic (\<lambda>_. colour_of k) (block_pixels i) s)"
proof -
  let ?f = "\<lambda>_ :: nat. colour_of k"
  let ?T = "\<lambda>dy dx. if 10 + i * 18 + dx < win_width \<and> 170 + dy < win_height
    then {(170 + dy) * win_width + (10 + i * 18 + dx)} else {}"
  let ?step = "\<lambda>dy dx. if 10 + i * 18 + dx < win_width \<and> 170 + dy < win_height
    then put_pixel ((170 + dy) * win_width + (10 + i * 18 + dx)) (colour_of k) else ret () :: unit wl_client"
  have "forEach (\<lambda>dy. forEach (?step dy) [0..<15]) [0..<15] (pic ?f {} s)
    = (Ok (), pic ?f ({} \<union> (\<Union>dy \<in> set [0..<15]. \<Union>dx \<in> set [0..<15]. ?T dy dx)) s)"
  proof (rule forEach_pic, rule forEach_pic)
    fix dy dx S
    show "?step dy dx (pic ?f S s) = (Ok (), pic ?f (S \<union> ?T dy dx) s)"
    proof (cases "10 + i * 18 + dx < win_width \<and> 170 + dy < win_height")
      case True
      then have "(170 + dy) * win_width + (10 + i * 18 + dx) < length (tc_pixels s)"
        using assms(1) in_window [of "10 + i * 18 + dx" "170 + dy"] by (simp add: window_def)
      then show ?thesis
        using put_pic [of s _ ?f S] assms(1) True by (simp add: window_def)
    qed auto
  qed
  moreover have "(\<Union>dy \<in> set [0..<15]. \<Union>dx \<in> set [0..<15]. ?T dy dx) = block_pixels i" (is "?U = _")
  proof (intro set_eqI iffI)
    fix p
    assume "p \<in> ?U"
    then obtain dy dx where "dy < 15" "dx < 15" "p \<in> ?T dy dx" by auto
    then have "p = (170 + dy) * win_width + (10 + i * 18 + dx)" "10 + i * 18 + dx < win_width"
      by (auto split: if_splits)
    with \<open>dy < 15\<close> \<open>dx < 15\<close> have "p = (170 + dy) * win_width + (10 + i * 18 + dx) \<and> 10 + i * 18 \<le> 10 + i * 18 + dx
      \<and> 10 + i * 18 + dx < 10 + i * 18 + 15 \<and> 10 + i * 18 + dx < win_width \<and> 170 \<le> 170 + dy \<and> 170 + dy < 185"
      by simp
    then show "p \<in> block_pixels i" unfolding block_pixels_def by blast
  next
    fix p
    assume "p \<in> block_pixels i"
    then obtain px py where p: "p = py * win_width + px" "10 + i * 18 \<le> px" "px < 10 + i * 18 + 15"
      "px < win_width" "170 \<le> py" "py < 185" unfolding block_pixels_def by blast
    then have "p \<in> ?T (py - 170) (px - (10 + i * 18))" by (simp add: win_height_def)
    moreover have "py - 170 \<in> set [0..<15]" "px - (10 + i * 18) \<in> set [0..<15]" using p by auto
    ultimately show "p \<in> ?U" by blast
  qed
  ultimately show ?thesis
    by (simp add: draw_block_def block_size_def win_height_def Let_def run_key_colour [OF assms(2)])
qed

text \<open>The picture with the blocks of a list of keys.\<close>

definition with_blocks :: "32 word list \<Rightarrow> 32 word list \<Rightarrow> 32 word list" where
  "with_blocks ks px = foldl (\<lambda>px (i, k). paint (\<lambda>_. colour_of k) (block_pixels i) px) px (enumerate 0 ks)"

lemma with_blocks_snoc:
  "with_blocks (ks @ [k]) px = paint (\<lambda>_. colour_of k) (block_pixels (length ks)) (with_blocks ks px)"
  by (simp add: with_blocks_def enumerate_append_eq)

lemma with_blocks_Nil [simp]: "with_blocks [] px = px"
  by (simp add: with_blocks_def)

lemma length_with_blocks [simp]: "length (with_blocks ks px) = length px"
  by (induction ks rule: rev_induct) (simp_all add: with_blocks_snoc)

lemma run_draw_blocks:
  assumes "window s" and "\<forall>k \<in> set ks. paintable s k"
  shows "(draw_blocks ks :: unit wl_client) s = (Ok (), s\<lparr>tc_pixels := with_blocks ks (tc_pixels s)\<rparr>)"
  using assms
proof (induction ks rule: rev_induct)
  case Nil
  then show ?case by (simp add: draw_blocks_def)
next
  case (snoc k ks)
  let ?t = "s\<lparr>tc_pixels := with_blocks ks (tc_pixels s)\<rparr>"
  have "window ?t" "paintable ?t k" using snoc.prems by (simp_all add: window_def paintable_def)
  from run_draw_block [OF this] have "(draw_block (length ks, k) :: unit wl_client) ?t
    = (Ok (), s\<lparr>tc_pixels := with_blocks (ks @ [k]) (tc_pixels s)\<rparr>)"
    by (simp add: pic_def with_blocks_snoc)
  moreover have "(draw_blocks ks :: unit wl_client) s = (Ok (), ?t)" using snoc by simp
  ultimately show ?case
    by (simp add: draw_blocks_def enumerate_append_eq forEach_append run_andThen)
qed

text \<open>Blocks do not overlap: a pixel is in the block its place says, if any.\<close>

definition block_at :: "nat \<Rightarrow> nat \<Rightarrow> nat option" where
  "block_at x y = (if 10 \<le> x \<and> 170 \<le> y \<and> y < 185 \<and> (x - 10) mod 18 < 15 then Some ((x - 10) div 18) else None)"

lemma block_pixels_at:
  assumes "x < win_width" shows "y * win_width + x \<in> block_pixels i \<longleftrightarrow> block_at x y = Some i"
proof -
  have "y * win_width + x \<in> block_pixels i \<longleftrightarrow> 10 + i * 18 \<le> x \<and> x < 10 + i * 18 + 15 \<and> 170 \<le> y \<and> y < 185"
  proof
    assume "y * win_width + x \<in> block_pixels i"
    then obtain px py where p: "y * win_width + x = py * win_width + px" "px < win_width"
      "10 + i * 18 \<le> px" "px < 10 + i * 18 + 15" "170 \<le> py" "py < 185"
      unfolding block_pixels_def by blast
    have "x = px" "y = py" using place [OF assms, of y] place [OF p(2), of py] p(1) by simp_all
    with p show "10 + i * 18 \<le> x \<and> x < 10 + i * 18 + 15 \<and> 170 \<le> y \<and> y < 185" by simp
  qed (use assms in \<open>auto simp: block_pixels_def\<close>)
  also have "\<dots> \<longleftrightarrow> block_at x y = Some i"
  proof -
    have "10 + i * 18 \<le> x \<and> x < 10 + i * 18 + 15 \<longleftrightarrow> 10 \<le> x \<and> (x - 10) mod 18 < 15 \<and> (x - 10) div 18 = i"
    proof
      assume a: "10 + i * 18 \<le> x \<and> x < 10 + i * 18 + 15"
      define r where "r = x - (10 + i * 18)"
      have "x - 10 = i * 18 + r" "r < 15" using a unfolding r_def by arith+
      then show "10 \<le> x \<and> (x - 10) mod 18 < 15 \<and> (x - 10) div 18 = i" using a by simp
    next
      assume a: "10 \<le> x \<and> (x - 10) mod 18 < 15 \<and> (x - 10) div 18 = i"
      then have "x - 10 = i * 18 + (x - 10) mod 18" using div_mult_mod_eq [of "x - 10" 18] by simp
      with a show "10 + i * 18 \<le> x \<and> x < 10 + i * 18 + 15" by linarith
    qed
    then show ?thesis by (simp add: block_at_def) blast
  qed
  finally show ?thesis .
qed

lemma with_blocks_at:
  assumes "x < win_width" and "y * win_width + x < length px"
  shows "with_blocks ks px ! (y * win_width + x) = (case block_at x y of
      Some i \<Rightarrow> if i < length ks then colour_of (ks ! i) else px ! (y * win_width + x)
    | None \<Rightarrow> px ! (y * win_width + x))"
  using assms
proof (induction ks rule: rev_induct)
  case (snoc k ks)
  then show ?case
    by (auto simp: with_blocks_snoc block_pixels_at nth_append split: option.split)
qed (simp split: option.split)

section \<open>The window\<close>

lemma run_submit:
  "(submit :: unit wl_client) s = (Ok (), s\<lparr>tc_requests :=
     tc_requests s @ [AttachBuffer, DamageRect 0 0 win_width win_height, CommitSurface]\<rparr>)"
  by (simp add: submit_def ask_for_def)

text \<open>C14: A redraw of the mapped window shows the gradient and, for each key kept, a block of fifteen by
  fifteen pixels in the colour of the key, eighteen pixels apart from the left; it submits the window
  once and all its writes are within it.  A pixel belongs to at most one block, and only the first
  eleven keys have any.\<close>

theorem redraw_shows_keys:
  assumes "window s" and "\<forall>k \<in> set (ad_keys_pressed (tc_app s)). paintable s k"
  shows "\<exists>t. (redraw :: unit wl_client) s = (Ok (), t) \<and> \<not> ad_needs_redraw (tc_app t)
    \<and> tc_requests t = tc_requests s @ [AttachBuffer, DamageRect 0 0 win_width win_height, CommitSurface]
    \<and> length (tc_pixels t) = win_width * win_height
    \<and> (\<forall>x y. x < win_width \<and> y < win_height \<longrightarrow> tc_pixels t ! (y * win_width + x) =
        (case block_at x y of
           Some i \<Rightarrow> if i < length (ad_keys_pressed (tc_app s)) then colour_of (ad_keys_pressed (tc_app s) ! i)
             else gradient x y
         | None \<Rightarrow> gradient x y) \<and> (\<forall>i. block_at x y = Some i \<longrightarrow> i < 11))"
proof -
  let ?ks = "ad_keys_pressed (tc_app s)"
  let ?g = "map gradient_at [0..<win_width * win_height]"
  let ?u = "s\<lparr>tc_pixels := ?g\<rparr>"
  let ?v = "s\<lparr>tc_pixels := with_blocks ?ks ?g\<rparr>"
  have u: "window ?u" "\<forall>k \<in> set ?ks. paintable ?u k" using assms by (simp_all add: window_def paintable_def)
  have blocks: "(draw_blocks ?ks :: unit wl_client) ?u = (Ok (), ?v)" using run_draw_blocks [OF u] by simp
  define t where "t = ?v\<lparr>tc_requests := tc_requests s @ [AttachBuffer, DamageRect 0 0 win_width win_height, CommitSurface],
    tc_app := (tc_app s)\<lparr>ad_needs_redraw := False\<rparr>\<rparr>"
  have run: "(redraw :: unit wl_client) s = (Ok (), t)"
    unfolding redraw_def using blocks
    by (simp add: run_draw_gradient [OF assms(1)] run_submit on_app_def t_def)
  have px: "tc_pixels t ! (y * win_width + x) =
      (case block_at x y of Some i \<Rightarrow> if i < length ?ks then colour_of (?ks ! i) else gradient x y
       | None \<Rightarrow> gradient x y) \<and> (\<forall>i. block_at x y = Some i \<longrightarrow> i < 11)"
    if "x < win_width" "y < win_height" for x y
  proof -
    have "?g ! (y * win_width + x) = gradient x y"
      using in_window [OF that] that(1) by (simp add: gradient_at_def)
    moreover have "i < 11" if "block_at x y = Some i" for i
      using that \<open>x < win_width\<close> by (auto simp: block_at_def win_width_def split: if_splits)
    ultimately show ?thesis
      using with_blocks_at [OF that(1), of y ?g ?ks] in_window [OF that] by (simp add: t_def split: option.split)
  qed
  show ?thesis
  proof (intro exI conjI)
    show "(redraw :: unit wl_client) s = (Ok (), t)" by (rule run)
    show "\<forall>x y. x < win_width \<and> y < win_height \<longrightarrow> tc_pixels t ! (y * win_width + x) =
        (case block_at x y of
           Some i \<Rightarrow> if i < length ?ks then colour_of (?ks ! i) else gradient x y
         | None \<Rightarrow> gradient x y) \<and> (\<forall>i. block_at x y = Some i \<longrightarrow> i < 11)" using px by blast
  qed (simp_all add: t_def)
qed

text \<open>A client with its window and two keys.\<close>

definition sample_feed :: feed where
  "sample_feed = \<lparr>fd_checks = True, fd_connect = None, fd_roundtrip = Inr [Global 1 ''wl_compositor'' 6, Global 2 ''wl_shm'' 1],
     fd_blocking = \<lambda>_. Some (Inr [CallbackDone 5]), fd_pending = \<lambda>_. Inr [], fd_file = None, fd_mmap = True,
     fd_lag = \<lambda>_. 1\<rparr>"

definition sample_client :: "32 word list \<Rightarrow> client" where
  "sample_client ks = \<lparr>tc_feed = sample_feed, tc_tick = 0, tc_now = 0,
     tc_app = fresh_app\<lparr>ad_keys_pressed := ks, ad_needs_redraw := True\<rparr>,
     tc_pixels = replicate (win_width * win_height) 0, tc_mapped = True, tc_requests = [], tc_death = None\<rparr>"

lemma redraw_shows_keys_witness:
  "\<exists>t. (redraw :: unit wl_client) (sample_client [30, 31]) = (Ok (), t)
    \<and> tc_pixels t ! (172 * win_width + 30) = colour_of 31
    \<and> tc_pixels t ! (172 * win_width + 50) = gradient 50 172"
proof -
  have "window (sample_client [30, 31])" by (simp add: window_def sample_client_def)
  moreover have "\<forall>k \<in> set (ad_keys_pressed (tc_app (sample_client [30, 31]))). paintable (sample_client [30, 31]) k"
    by (simp add: sample_client_def fresh_app_def paintable_def)
  ultimately obtain t where t: "(redraw :: unit wl_client) (sample_client [30, 31]) = (Ok (), t)"
    and px: "\<forall>x y. x < win_width \<and> y < win_height \<longrightarrow> tc_pixels t ! (y * win_width + x) =
        (case block_at x y of
           Some i \<Rightarrow> if i < length (ad_keys_pressed (tc_app (sample_client [30, 31])))
             then colour_of (ad_keys_pressed (tc_app (sample_client [30, 31])) ! i) else gradient x y
         | None \<Rightarrow> gradient x y) \<and> (\<forall>i. block_at x y = Some i \<longrightarrow> i < 11)"
    using redraw_shows_keys [of "sample_client [30, 31]"] by blast
  have "tc_pixels t ! (172 * win_width + 30) = colour_of 31" "tc_pixels t ! (172 * win_width + 50) = gradient 50 172"
    using px [rule_format, of 30 172] px [rule_format, of 50 172]
    by (simp_all add: win_width_def win_height_def block_at_def sample_client_def fresh_app_def)
  then show ?thesis using t by (intro exI [of _ t]) simp
qed

section \<open>The last keys\<close>

text \<open>The keys pressed among the events, in order.\<close>

fun presses :: "client_event list \<Rightarrow> 32 word list" where
  "presses [] = []"
| "presses (KeyboardKey serial time k st # evs) = (if st = Inr Pressed then [k] else []) @ presses evs"
| "presses (ev # evs) = presses evs"

definition last20 :: "32 word list \<Rightarrow> 32 word list" where
  "last20 ks = drop (length ks - 20) ks"

lemma push_key_last20: "push_key k (last20 ks) = last20 (ks @ [k])"
proof (cases "20 \<le> length ks")
  case True
  then have "Suc (length ks - 20) = length ks - 19" by arith
  with True show ?thesis by (simp add: push_key_def last20_def)
qed (simp add: push_key_def last20_def)

lemma hear_keys:
  assumes "ad_keys_pressed (tc_app s) = last20 ks"
  shows "\<exists>t. (hear evs :: unit wl_client) s = (Ok (), t) \<and> ad_keys_pressed (tc_app t) = last20 (ks @ presses evs)
    \<and> tc_mapped t = tc_mapped s \<and> tc_pixels t = tc_pixels s"
  using assms
proof (induction evs arbitrary: s ks)
  case Nil
  then show ?case by (simp add: hear_def)
next
  case (Cons ev evs)
  have "\<exists>u. (on_client_event ev :: unit wl_client) s = (Ok (), u)
    \<and> ad_keys_pressed (tc_app u) = last20 (ks @ presses [ev]) \<and> tc_mapped u = tc_mapped s \<and> tc_pixels u = tc_pixels s"
    using Cons.prems
    by (cases ev) (simp_all add: on_app_def ask_for_def on_global_def on_key_def push_key_last20 split: if_split)
  then obtain u where u: "(on_client_event ev :: unit wl_client) s = (Ok (), u)"
    "ad_keys_pressed (tc_app u) = last20 (ks @ presses [ev])" "tc_mapped u = tc_mapped s" "tc_pixels u = tc_pixels s"
    by (elim exE conjE) (rule that)
  have "presses (ev # evs) = presses [ev] @ presses evs" by (cases ev) auto
  then show ?case using Cons.IH [OF u(2)] u by (simp add: hear_def)
qed

text \<open>The client remembers the last twenty keys pressed, in the order in which they were pressed,
  whatever other events come between: releases, unknown key states and the events of other objects do
  not count.\<close>

lemma client_keeps_last_20:
  assumes "ad_keys_pressed (tc_app s) = []"
  shows "\<exists>t. (hear evs :: unit wl_client) s = (Ok (), t)
    \<and> ad_keys_pressed (tc_app t) = drop (length (presses evs) - 20) (presses evs)"
proof -
  have "ad_keys_pressed (tc_app s) = last20 []" using assms by (simp add: last20_def)
  from hear_keys [OF this, of evs] obtain t where "(hear evs :: unit wl_client) s = (Ok (), t)"
    "ad_keys_pressed (tc_app t) = last20 ([] @ presses evs)" by (elim exE conjE) (rule that)
  then show ?thesis by (intro exI [of _ t]) (simp add: last20_def)
qed

lemma client_keeps_last_20_witness:
  "\<exists>t. (hear (map (\<lambda>n. KeyboardKey 0 0 (word_of_nat n) (Inr Pressed)) [0..<23] @ [KeyboardKey 0 0 7 (Inr Released)])
      :: unit wl_client) (sample_client []) = (Ok (), t)
    \<and> length (ad_keys_pressed (tc_app t)) = 20 \<and> hd (ad_keys_pressed (tc_app t)) = 3"
proof -
  let ?evs = "map (\<lambda>n. KeyboardKey 0 0 (word_of_nat n) (Inr Pressed)) [0..<23] @ [KeyboardKey 0 0 7 (Inr Released)]"
  have "ad_keys_pressed (tc_app (sample_client [])) = []" by (simp add: sample_client_def)
  from client_keeps_last_20 [OF this, of ?evs] obtain t where t: "(hear ?evs :: unit wl_client) (sample_client []) = (Ok (), t)"
    "ad_keys_pressed (tc_app t) = drop (length (presses ?evs) - 20) (presses ?evs)"
    by (elim exE conjE) (rule that)
  have "presses ?evs = map word_of_nat [0..<23]" by (simp add: upt_rec)
  with t show ?thesis by (intro exI [of _ t]) (simp add: upt_rec)
qed

section \<open>Drawing without memory\<close>

lemma draw_unmapped:
  assumes "\<not> tc_mapped s" and "length (tc_pixels s) = win_width * win_height"
  shows "(draw_gradient :: unit wl_client) s = (Panic, s\<lparr>tc_death := Some Unmapped\<rparr>)"
proof -
  have "(put_pixel 0 p :: unit wl_client) s = (Panic, s\<lparr>tc_death := Some Unmapped\<rparr>)" for p
    using assms by (auto simp: put_pixel_def fails_def win_width_def win_height_def)
  moreover have "[0..<win_width] = 0 # [1..<win_width]" "[0..<win_height] = 0 # [1..<win_height]"
    by (simp_all add: upt_rec win_width_def win_height_def)
  ultimately show ?thesis unfolding draw_gradient_def by simp
qed

section \<open>Client and compositor together\<close>

text \<open>The events the compositor sends to a keyboard, as its client receives them.\<close>

fun delivered :: "resource \<Rightarrow> wl_event list \<Rightarrow> client_event list" where
  "delivered kb [] = []"
| "delivered kb (Key kb' serial time code st # evs) =
     (if kb' = kb then [KeyboardKey serial time code (Inr st)] else []) @ delivered kb evs"
| "delivered kb (ev # evs) = delivered kb evs"

text \<open>The keys pressed on a device.\<close>

fun pressed_on :: "input_event list \<Rightarrow> 32 word list" where
  "pressed_on [] = []"
| "pressed_on (KeyEvent code v # evs) = (if v = 1 then [ucast code] else []) @ pressed_on evs"
| "pressed_on (OtherEvent # evs) = pressed_on evs"

lemma presses_delivered:
  "length ts = length ks \<Longrightarrow> presses (delivered kb (stamped kb ks ts)) = map fst (filter (\<lambda>k. snd k = Pressed) ks)"
proof (induction ts ks rule: list_induct2)
  case (Cons t ts k ks)
  then show ?case by (cases k) (simp add: stamped_def)
qed (simp add: stamped_def)

lemma pressed_keys: "map fst (filter (\<lambda>k. snd k = Pressed) (keys_of evs)) = pressed_on evs"
  by (induction evs rule: keys_of.induct) (auto simp: state_of_value_def)

text \<open>C28: From the keyboard to the window: when the compositor reads a device and the client hears what
  was sent to its keyboard, the client remembers the last twenty keys pressed on the device, in order,
  with the codes the device gave them; releases and repeats on the way do not disturb them.\<close>

theorem keys_reach_client:
  assumes "in_keyboard (cp_input s) = Some kb" and "tu_fetch tu device = Inr evs"
    and "ad_keys_pressed (tc_app c) = []"
  shows "\<exists>t d. (poll_device tu device :: unit comp) s = (Ok (), t)
    \<and> (hear (delivered kb (drop (length (cp_sent s)) (cp_sent t))) :: unit wl_client) c = (Ok (), d)
    \<and> ad_keys_pressed (tc_app d) = drop (length (pressed_on evs) - 20) (pressed_on evs)"
proof -
  obtain t ts where t: "(forEach on_event evs :: unit comp) s = (Ok (), t)" "length ts = length (keys_of evs)"
    "cp_sent t = cp_sent s @ stamped kb (keys_of evs) ts"
    using events_forwarded [OF assms(1), of evs] by (elim exE conjE) (rule that)
  let ?heard = "delivered kb (drop (length (cp_sent s)) (cp_sent t))"
  have p: "presses ?heard = pressed_on evs" using t presses_delivered pressed_keys by simp
  have "ad_keys_pressed (tc_app c) = last20 []" using assms(3) by (simp add: last20_def)
  from hear_keys [OF this, of ?heard] obtain d where "(hear ?heard :: unit wl_client) c = (Ok (), d)"
    "ad_keys_pressed (tc_app d) = last20 ([] @ presses ?heard)" by (elim exE conjE) (rule that)
  then show ?thesis
    using t(1) assms(2) p by (intro exI [of _ t] exI [of _ d]) (simp add: poll_device_def last20_def)
qed

lemma keys_reach_client_witness:
  "\<exists>t d. (poll_device (empty_turn\<lparr>tu_fetch := \<lambda>_. Inr [KeyEvent 30 1, KeyEvent 30 0, KeyEvent 48 1]\<rparr>) 4 :: unit comp)
      ((sample_compositor True (sample_drm 3 2) (sample_buffer 2 2 8))
        \<lparr>cp_input := \<lparr>in_focused_surface = None, in_pointer = None, in_keyboard = Some (2, 9)\<rparr>\<rparr>) = (Ok (), t)
    \<and> (hear (delivered (2, 9) (cp_sent t)) :: unit wl_client) (sample_client []) = (Ok (), d)
    \<and> ad_keys_pressed (tc_app d) = [30, 48]"
proof -
  let ?evs = "[KeyEvent 30 1, KeyEvent 30 0, KeyEvent 48 1]"
  let ?s = "(sample_compositor True (sample_drm 3 2) (sample_buffer 2 2 8))
    \<lparr>cp_input := \<lparr>in_focused_surface = None, in_pointer = None, in_keyboard = Some (2, 9)\<rparr>\<rparr>"
  let ?tu = "empty_turn\<lparr>tu_fetch := \<lambda>_. Inr ?evs\<rparr>"
  have kb: "in_keyboard (cp_input ?s) = Some (2, 9)" by simp
  have fetch: "tu_fetch ?tu 4 = Inr ?evs" by simp
  have empty: "ad_keys_pressed (tc_app (sample_client [])) = []" "cp_sent ?s = []"
    by (simp_all add: sample_client_def sample_compositor_def)
  obtain t d where td: "(poll_device ?tu 4 :: unit comp) ?s = (Ok (), t)"
    "(hear (delivered (2, 9) (drop (length (cp_sent ?s)) (cp_sent t))) :: unit wl_client) (sample_client []) = (Ok (), d)"
    "ad_keys_pressed (tc_app d) = drop (length (pressed_on ?evs) - 20) (pressed_on ?evs)"
    using keys_reach_client [OF kb fetch empty(1)] by (elim exE conjE) (rule that)
  show ?thesis
  proof (intro exI conjI)
    show "(poll_device ?tu 4 :: unit comp) ?s = (Ok (), t)" by (rule td(1))
    show "(hear (delivered (2, 9) (cp_sent t)) :: unit wl_client) (sample_client []) = (Ok (), d)"
      using td(2) empty(2) by simp
    show "ad_keys_pressed (tc_app d) = [30, 48]" using td(3) by simp
  qed
qed

text \<open>The compositor's mapping of the client's memory.\<close>

definition memory_of :: "client \<Rightarrow> mapping" where
  "memory_of c k = (if k < length (tc_pixels c) then Some (tc_pixels c ! k) else None)"

lemma make_buffer_pixels:
  assumes "(make_buffer :: unit wl_client) c = (Ok (), d)"
  shows "tc_pixels d = map gradient_at [0..<win_width * win_height]"
proof -
  let ?c = "c\<lparr>tc_pixels := replicate (win_width * win_height) 0, tc_mapped := True\<rparr>"
  have "window ?c" by (simp add: window_def)
  then have "(draw_gradient :: unit wl_client) ?c = (Ok (), ?c\<lparr>tc_pixels := map gradient_at [0..<win_width * win_height]\<rparr>)"
    by (rule run_draw_gradient)
  with assms show ?thesis
    by (auto simp: make_buffer_def ask_for_def split: option.splits if_splits)
qed

text \<open>C29: From the client to the screen: the buffer the test client makes, drawn by the compositor on a
  screen of less than 65536 pixels, shows the gradient in the upper left corner, pixel by pixel, and
  leaves the rest of the screen as it was.\<close>

theorem gradient_reaches_screen:
  assumes "(make_buffer :: unit wl_client) c = (Ok (), c')"
    and "cp_buffers s i = Some b" and "cp_pools s (bd_pool_id b) = Some pool"
    and "sint (bd_width b) = int win_width" and "sint (bd_height b) = int win_height"
    and "sint (bd_stride b) = int win_stride"
    and "maps s pool b (memory_of c')" and "screen_ready s d"
    and "unat (mo_width (ds_mode d)) * unat (mo_height (ds_mode d)) < 2 ^ 16"
  shows "\<exists>t. render_buffer i s = (Ok (), t)
    \<and> (\<forall>y x. x < unat (mo_width (ds_mode d)) \<and> y < unat (mo_height (ds_mode d)) \<longrightarrow>
        fb_memory t ! (y * unat (mo_width (ds_mode d)) + x) =
          (if x < win_width \<and> y < win_height then gradient x y
           else ds_db d ! (y * unat (mo_width (ds_mode d)) + x)))"
proof -
  have r: "renderable b" using assms(4-6) by (simp add: renderable_def win_width_def win_height_def win_stride_def)
  have packed: "sint (bd_stride b) = 4 * sint (bd_width b)" using assms(4,6) by (simp add: win_stride_def)
  obtain t where t: "render_buffer i s = (Ok (), t)"
    and px: "\<forall>y x. x < unat (mo_width (ds_mode d)) \<and> y < unat (mo_height (ds_mode d)) \<longrightarrow>
        fb_memory t ! (y * unat (mo_width (ds_mode d)) + x) =
          (if x < nat (sint (bd_width b)) \<and> y < nat (sint (bd_height b))
           then the (memory_of c' (y * nat (sint (bd_width b)) + x))
           else ds_db d ! (y * unat (mo_width (ds_mode d)) + x))"
    using render_pixels [OF assms(2,3) r assms(7,8) packed assms(9)] by (elim exE conjE) (rule that)
  have "the (memory_of c' (y * win_width + x)) = gradient x y" if "x < win_width" "y < win_height" for x y
    using that in_window [OF that] make_buffer_pixels [OF assms(1)] by (simp add: memory_of_def gradient_at_def)
  then show ?thesis using t px assms(4,5) by (intro exI [of _ t]) simp
qed

lemma gradient_reaches_screen_witness:
  "\<exists>c' t. (make_buffer :: unit wl_client) (sample_client []) = (Ok (), c')
    \<and> render_buffer 7 ((sample_compositor True (sample_drm 250 200) (sample_buffer 200 200 800))
        \<lparr>cp_host := (sample_host True)\<lparr>h_mmap := \<lambda>_ _ _ _. Inr (memory_of c')\<rparr>\<rparr>) = (Ok (), t)
    \<and> fb_memory t ! (2 * 250 + 3) = gradient 3 2"
proof -
  let ?c = "(sample_client [])\<lparr>tc_pixels := replicate (win_width * win_height) 0, tc_mapped := True\<rparr>"
  have "window ?c" by (simp add: window_def)
  then have "(draw_gradient :: unit wl_client) ?c = (Ok (), ?c\<lparr>tc_pixels := map gradient_at [0..<win_width * win_height]\<rparr>)"
    by (rule run_draw_gradient)
  then have "\<exists>c'. (make_buffer :: unit wl_client) (sample_client []) = (Ok (), c')"
    by (simp add: make_buffer_def ask_for_def sample_client_def sample_feed_def)
  then obtain c' where c': "(make_buffer :: unit wl_client) (sample_client []) = (Ok (), c')" ..
  let ?d = "sample_drm 250 200" and ?b = "sample_buffer 200 200 800"
  let ?s = "(sample_compositor True ?d ?b)\<lparr>cp_host := (sample_host True)\<lparr>h_mmap := \<lambda>_ _ _ _. Inr (memory_of c')\<rparr>\<rparr>"
  have len: "length (tc_pixels c') = 40000" using make_buffer_pixels [OF c'] by (simp add: win_width_def win_height_def)
  have maps: "maps ?s sample_pool ?b (memory_of c')"
    using len by (simp add: maps_def memory_of_def buffer_bytes_def sample_buffer_def)
  have ready: "screen_ready ?s ?d"
    using sample_ready [of True 250 200 ?b] by (simp add: screen_ready_def sample_compositor_def sample_host_def)
  have "\<exists>t. render_buffer 7 ?s = (Ok (), t)
    \<and> (\<forall>y x. x < unat (mo_width (ds_mode ?d)) \<and> y < unat (mo_height (ds_mode ?d)) \<longrightarrow>
        fb_memory t ! (y * unat (mo_width (ds_mode ?d)) + x) =
          (if x < win_width \<and> y < win_height then gradient x y
           else ds_db ?d ! (y * unat (mo_width (ds_mode ?d)) + x)))"
    by (rule gradient_reaches_screen [OF c', where b = ?b and pool = sample_pool])
      (use maps ready in \<open>simp_all add: sample_buffer_def sample_compositor_def win_width_def win_height_def
        win_stride_def sample_drm_def\<close>)
  then obtain t where t: "render_buffer 7 ?s = (Ok (), t)"
    and px: "\<forall>y x. x < unat (mo_width (ds_mode ?d)) \<and> y < unat (mo_height (ds_mode ?d)) \<longrightarrow>
        fb_memory t ! (y * unat (mo_width (ds_mode ?d)) + x) =
          (if x < win_width \<and> y < win_height then gradient x y
           else ds_db ?d ! (y * unat (mo_width (ds_mode ?d)) + x))" by (elim exE conjE) (rule that)
  have "fb_memory t ! (2 * 250 + 3) = gradient 3 2"
    using px [rule_format, of 3 2] by (simp add: win_width_def win_height_def)
  then show ?thesis using c' t by (intro exI [of _ c'] exI [of _ t] conjI)
qed

end
