(* ===== verification/ClientRun.thy ===== *)
theory ClientRun
  imports ClientPicture
begin

text \<open>
  A whole run of the test client (\<open>client_main\<close>): how it can end.  \<open>fate m Q D s\<close> is the weakest
  condition for a run of \<open>m\<close> from \<open>s\<close> to end in \<open>Q\<close> when it returns and in \<open>D\<close> when it dies.
\<close>

section \<open>How a run can end\<close>

definition fate ::
  "('s, 'a, 'e) act \<Rightarrow> ('a \<Rightarrow> 's \<Rightarrow> bool) \<Rightarrow> ('s \<Rightarrow> bool) \<Rightarrow> 's \<Rightarrow> bool"
where
  "fate m Q D s = (case m s of
       (Ok a, t) \<Rightarrow> Q a t | (Panic, t) \<Rightarrow> D t | (Err e, t) \<Rightarrow> True | (Hang, t) \<Rightarrow> True)"

named_theorems fate_simps

lemma fate_andThen [fate_simps]: "fate (andThen m k) Q D = fate m (\<lambda>a. fate (k a) Q D) D"
  by (rule ext) (simp add: fate_def run_andThen split: prod.split outcome.split)

lemma fate_ret [fate_simps]: "fate (ret a) Q D = Q a"
  by (rule ext) (simp add: fate_def)

lemma fate_raise [fate_simps]: "fate (raise e) Q D = (\<lambda>_. True)"
  by (rule ext) (simp add: fate_def)

lemma fate_hang [fate_simps]: "fate hang Q D = (\<lambda>_. True)"
  by (rule ext) (simp add: fate_def)

lemma fate_reading [fate_simps]: "fate (reading f) Q D = (\<lambda>s. Q (f s) s)"
  by (rule ext) (simp add: fate_def)

lemma fate_modify [fate_simps]: "fate (modify g) Q D = (\<lambda>s. Q () (g s))"
  by (rule ext) (simp add: fate_def)

lemma fate_whenever [fate_simps]:
  "fate (whenever b m) Q D = (\<lambda>s. if b then fate m Q D s else Q () s)"
  by (rule ext) (simp add: fate_def whenever_def)

lemma fate_if [fate_simps]:
  "fate (if b then m else m') Q D = (\<lambda>s. if b then fate m Q D s else fate m' Q D s)"
  by (rule ext) simp

lemma fate_option [fate_simps]:
  "fate (case x of None \<Rightarrow> m | Some a \<Rightarrow> k a) Q D =
    (\<lambda>s. case x of None \<Rightarrow> fate m Q D s | Some a \<Rightarrow> fate (k a) Q D s)"
  by (rule ext) (simp split: option.split)

lemma fate_sum [fate_simps]:
  "fate (case x of Inl e \<Rightarrow> m e | Inr a \<Rightarrow> k a) Q D =
    (\<lambda>s. case x of Inl e \<Rightarrow> fate (m e) Q D s | Inr a \<Rightarrow> fate (k a) Q D s)"
  by (rule ext) (simp split: sum.split)

lemma fate_Ok: "m s = (Ok a, t) \<Longrightarrow> fate m Q D s = Q a t"
  by (simp add: fate_def)

lemma fate_Panic: "m s = (Panic, t) \<Longrightarrow> fate m Q D s = D t"
  by (simp add: fate_def)

lemma fate_mono: "fate m Q D s \<Longrightarrow> (\<And>a t. Q a t \<Longrightarrow> Q' a t) \<Longrightarrow> fate m Q' D s"
  by (cases "m s"; cases "fst (m s)") (simp_all add: fate_def)

section \<open>What the client has heard and submitted\<close>

text \<open>The window is marked for a redraw exactly when a key has been pressed, as long as no redraw has
  come to its end.\<close>

definition marked :: "client \<Rightarrow> bool" where
  "marked s \<longleftrightarrow> (ad_needs_redraw (tc_app s) \<longleftrightarrow> ad_keys_pressed (tc_app s) \<noteq> [])"

definition commits :: "client \<Rightarrow> nat" where
  "commits s = length (filter (\<lambda>q. q = CommitSurface) (tc_requests s))"

text \<open>Hearing events keeps the mark true, submits nothing and leaves the memory alone.\<close>

definition hears :: "client \<Rightarrow> client \<Rightarrow> bool" where
  "hears s t \<longleftrightarrow> (marked s \<longrightarrow> marked t) \<and> commits t = commits s \<and> tc_pixels t = tc_pixels s
     \<and> tc_mapped t = tc_mapped s \<and> tc_now t = tc_now s
     \<and> (ad_frame_received (tc_app s) \<longrightarrow> ad_frame_received (tc_app t))"

lemma hears_trans: "hears s t \<Longrightarrow> hears t u \<Longrightarrow> hears s u"
  by (auto simp: hears_def)

lemma push_key_nonempty [simp]: "push_key k ks \<noteq> []"
  by (auto simp: push_key_def Let_def)

lemma hears_event: "\<exists>t. (on_client_event ev :: unit wl_client) s = (Ok (), t) \<and> hears s t"
  by (cases ev)
    (auto simp: on_app_def ask_for_def on_global_def on_key_def hears_def marked_def commits_def)

lemma hears_all: "\<exists>t. (hear evs :: unit wl_client) s = (Ok (), t) \<and> hears s t"
proof (induction evs arbitrary: s)
  case Nil
  then show ?case by (simp add: hear_def hears_def)
next
  case (Cons ev evs)
  obtain t where t: "(on_client_event ev :: unit wl_client) s = (Ok (), t)" "hears s t"
    using hears_event by blast
  obtain u where u: "(hear evs :: unit wl_client) t = (Ok (), u)" "hears t u"
    using Cons.IH by blast
  have "(hear (ev # evs) :: unit wl_client) s = (Ok (), u)" using t(1) u(1) by (simp add: hear_def)
  then show ?case using hears_trans t(2) u(2) by blast
qed

lemma fate_hear:
  assumes "\<And>t. hears s t \<Longrightarrow> Q () t" shows "fate (hear evs :: unit wl_client) Q D s"
proof -
  obtain t where "(hear evs :: unit wl_client) s = (Ok (), t)" "hears s t" using hears_all by blast
  then show ?thesis using assms by (simp add: fate_def)
qed

text \<open>The state with the clock moved on.\<close>

lemma hears_next_tick:
  assumes "hears (next_tick s) t" and "marked s"
  shows "marked t" and "commits t = commits s" and "tc_pixels t = tc_pixels s" and "tc_mapped t = tc_mapped s"
    and "ad_frame_received (tc_app s) \<Longrightarrow> ad_frame_received (tc_app t)"
  using assms by (simp_all add: hears_def next_tick_def marked_def commits_def)

section \<open>The two loops\<close>

lemma fate_blocking:
  assumes "\<And>t. hears (next_tick s) t \<Longrightarrow> Q () t" shows "fate blocking_dispatch Q D s"
proof -
  have "fate (hear evs :: unit wl_client) Q D (next_tick s)" for evs by (rule fate_hear) (rule assms)
  then show ?thesis
    by (auto simp: fate_def blocking_dispatch_def split: option.split sum.split)
qed

lemma fate_pending:
  assumes "\<And>t. hears (next_tick s) t \<Longrightarrow> Q () t" shows "fate dispatch_pending Q D s"
proof -
  have "fate (hear evs :: unit wl_client) Q D (next_tick s)" for evs by (rule fate_hear) (rule assms)
  then show ?thesis by (auto simp: fate_def dispatch_pending_def split: sum.split)
qed

lemma fate_wait:
  assumes "marked s"
    and "\<And>t. marked t \<Longrightarrow> commits t = commits s \<Longrightarrow> tc_pixels t = tc_pixels s \<Longrightarrow> Q () t"
  shows "fate (wait_for_frame fuel start) Q D s"
  using assms
proof (induction fuel arbitrary: s)
  case 0
  show ?case by (simp only: wait_for_frame.simps fate_simps)
next
  case (Suc n)
  have "fate blocking_dispatch (\<lambda>_. fate (wait_for_frame n start) Q D) D s"
  proof (rule fate_blocking)
    fix t
    assume "hears (next_tick s) t"
    note h = hears_next_tick [OF this Suc.prems(1)]
    show "fate (wait_for_frame n start) Q D t"
      by (rule Suc.IH [OF h(1)]) (rule Suc.prems(2), simp_all add: h(2,3))
  qed
  with Suc.prems show ?case by (simp only: wait_for_frame.simps fate_simps split: if_split) simp
qed

text \<open>The client after it has given its memory back.\<close>

definition unmapped :: "nat \<Rightarrow> client \<Rightarrow> bool" where
  "unmapped n s \<longleftrightarrow> \<not> tc_mapped s \<and> length (tc_pixels s) = win_width * win_height \<and> marked s
     \<and> commits s = n \<and> ad_frame_received (tc_app s)"

definition dies_drawing :: "nat \<Rightarrow> client \<Rightarrow> bool" where
  "dies_drawing n t \<longleftrightarrow> tc_death t = Some Unmapped \<and> ad_keys_pressed (tc_app t) \<noteq> [] \<and> commits t = n"

lemma fate_turn:
  assumes "unmapped n s" and "\<And>t. unmapped n t \<Longrightarrow> ad_keys_pressed (tc_app t) = [] \<Longrightarrow> Q () t"
  shows "fate interactive_turn Q (dies_drawing n) s"
  unfolding interactive_turn_def fate_simps
proof (rule fate_pending)
  fix t
  assume "hears (next_tick s) t"
  note h = hears_next_tick [OF this, unfolded atomize_imp]
  have t: "unmapped n t" using assms(1) h by (simp add: unmapped_def)
  show "if ad_needs_redraw (tc_app t)
      then fate (redraw :: unit wl_client) (\<lambda>a t. Q () (t\<lparr>tc_now := tc_now t + 16\<rparr>)) (dies_drawing n) t
      else Q () (t\<lparr>tc_now := tc_now t + 16\<rparr>)"
  proof (cases "ad_needs_redraw (tc_app t)")
    case True
    have "(draw_gradient :: unit wl_client) t = (Panic, t\<lparr>tc_death := Some Unmapped\<rparr>)"
      using t by (intro draw_unmapped) (simp_all add: unmapped_def)
    then have "(redraw :: unit wl_client) t = (Panic, t\<lparr>tc_death := Some Unmapped\<rparr>)"
      unfolding redraw_def by simp
    moreover have "dies_drawing n (t\<lparr>tc_death := Some Unmapped\<rparr>)"
      using t True by (simp add: dies_drawing_def unmapped_def marked_def commits_def)
    ultimately show ?thesis using True by (simp add: fate_Panic)
  next
    case False
    with t show ?thesis
      using assms(2) [of "t\<lparr>tc_now := tc_now t + 16\<rparr>"] by (simp add: unmapped_def marked_def commits_def)
  qed
qed

lemma fate_interactive:
  assumes "unmapped n s" and "ad_keys_pressed (tc_app s) = [] \<or> tc_now s - start < 30000"
    and "\<And>t. unmapped n t \<Longrightarrow> ad_keys_pressed (tc_app t) = [] \<Longrightarrow> Q () t"
  shows "fate (interactive fuel start) Q (dies_drawing n) s"
  using assms(1,2)
proof (induction fuel arbitrary: s)
  case 0
  show ?case by (simp only: interactive.simps fate_simps)
next
  case (Suc k)
  have "fate interactive_turn (\<lambda>_. fate (interactive k start) Q (dies_drawing n)) (dies_drawing n) s"
    by (rule fate_turn [OF Suc.prems(1)]) (rule Suc.IH; simp)
  with Suc.prems assms(3) show ?case
    by (simp only: interactive.simps fate_simps split: if_split) blast
qed

section \<open>The whole run\<close>

lemma fate_roundtrip:
  assumes "\<And>t. hears s t \<Longrightarrow> Q () t" shows "fate roundtrip Q D s"
proof -
  have "fate (hear evs :: unit wl_client) Q D s" for evs by (rule fate_hear) (rule assms)
  then show ?thesis by (simp only: roundtrip_def fate_simps split: sum.split) simp
qed

definition with_buffer :: "client \<Rightarrow> client" where
  "with_buffer s = s\<lparr>tc_mapped := True, tc_pixels := map gradient_at [0..<win_width * win_height],
     tc_requests := tc_requests s @ [CreatePoolOf 0 win_size, CreateBufferOf 0 win_width win_height win_stride Argb8888]\<rparr>"

lemma fate_make_buffer:
  assumes "Q () (with_buffer s)" shows "fate make_buffer Q D s"
proof -
  let ?s = "s\<lparr>tc_pixels := replicate (win_width * win_height) 0, tc_mapped := True\<rparr>"
  have "(draw_gradient :: unit wl_client) ?s
      = (Ok (), ?s\<lparr>tc_pixels := map gradient_at [0..<win_width * win_height]\<rparr>)"
    by (rule run_draw_gradient) (simp add: window_def)
  then have "fate (draw_gradient :: unit wl_client) P D ?s
      = P () (?s\<lparr>tc_pixels := map gradient_at [0..<win_width * win_height]\<rparr>)" for P D
    by (simp add: fate_def)
  with assms show ?thesis
    by (simp only: make_buffer_def fate_simps ask_for_def split: option.split if_split)
      (simp add: with_buffer_def)
qed

text \<open>From the first picture on: the wait, the unmapping and the interactive mode.\<close>

definition after_buffer :: "nat \<Rightarrow> unit wl_client" where
  "after_buffer fuel =
     andThen (reading tc_now) (\<lambda>start.
     andThen (wait_for_frame fuel start) (\<lambda>_.
     andThen (modify (\<lambda>s. s\<lparr>tc_mapped := False\<rparr>)) (\<lambda>_.
     andThen (reading (\<lambda>s. ad_frame_received (tc_app s))) (\<lambda>received.
     if received then andThen (reading tc_now) (\<lambda>start. interactive fuel start)
     else raise ''Frame callback timeout''))))"

lemma fate_after_buffer:
  assumes "marked s" and "length (tc_pixels s) = win_width * win_height" and "commits s = n"
  shows "fate (after_buffer fuel)
    (\<lambda>_ t. unmapped n t \<and> ad_keys_pressed (tc_app t) = []) (dies_drawing n) s"
  unfolding after_buffer_def fate_simps
proof (rule fate_wait [OF assms(1)])
  fix t
  assume t: "marked t" "commits t = commits s" "tc_pixels t = tc_pixels s"
  let ?t = "t\<lparr>tc_mapped := False\<rparr>"
  show "if ad_frame_received (tc_app ?t)
      then fate (interactive fuel (tc_now ?t)) (\<lambda>_ t. unmapped n t \<and> ad_keys_pressed (tc_app t) = []) (dies_drawing n) ?t
      else True"
  proof (cases "ad_frame_received (tc_app ?t)")
    case True
    then have "unmapped n ?t" using t assms by (simp add: unmapped_def marked_def commits_def)
    then have "fate (interactive fuel (tc_now ?t)) (\<lambda>_ t. unmapped n t \<and> ad_keys_pressed (tc_app t) = [])
        (dies_drawing n) ?t"
      by (rule fate_interactive) simp_all
    then show ?thesis by simp
  qed simp
qed

lemma client_main_after:
  "client_main fuel =
     andThen (reading (\<lambda>s. fd_connect (tc_feed s))) (\<lambda>failed.
     case failed of Some e \<Rightarrow> raise e | None \<Rightarrow>
     andThen (on_app (\<lambda>_. fresh_app)) (\<lambda>_.
     andThen roundtrip (\<lambda>_.
     andThen (reading (\<lambda>s. ad_compositor (tc_app s))) (\<lambda>compositor.
     case compositor of None \<Rightarrow> raise ''No wl_compositor'' | Some c \<Rightarrow>
     andThen (reading (\<lambda>s. ad_shm (tc_app s))) (\<lambda>shm.
     case shm of None \<Rightarrow> raise ''No wl_shm'' | Some _ \<Rightarrow>
     andThen (ask_for (CreateSurfaceOf c)) (\<lambda>_.
     andThen (on_app (\<lambda>a. a\<lparr>ad_surface := Some c\<rparr>)) (\<lambda>_.
     andThen make_buffer (\<lambda>_.
     andThen (ask_for AttachBuffer) (\<lambda>_.
     andThen (ask_for (DamageRect 0 0 win_width win_height)) (\<lambda>_.
     andThen (ask_for RequestFrame) (\<lambda>_.
     andThen (ask_for CommitSurface) (\<lambda>_. after_buffer fuel))))))))))))"
  unfolding client_main_def after_buffer_def by (rule refl)

lemma fate_client_main:
  "fate (client_main fuel) (\<lambda>_ t. unmapped (Suc (commits c)) t \<and> ad_keys_pressed (tc_app t) = [])
    (dies_drawing (Suc (commits c))) c"
  (is "fate _ ?Q ?D c")
proof -
  let ?f = "c\<lparr>tc_app := fresh_app\<rparr>"
  let ?surface = "\<lambda>k t. t\<lparr>tc_requests := tc_requests t @ [CreateSurfaceOf k],
    tc_app := (tc_app t)\<lparr>ad_surface := Some k\<rparr>\<rparr>"
  let ?submit = "\<lambda>u. u\<lparr>tc_requests := tc_requests u @ [AttachBuffer, DamageRect 0 0 win_width win_height,
    RequestFrame, CommitSurface]\<rparr>"
  have rest: "fate (after_buffer fuel) ?Q ?D (?submit (with_buffer (?surface k t)))" if "hears ?f t" for t k
    by (rule fate_after_buffer)
      (use that in \<open>auto simp: hears_def marked_def commits_def with_buffer_def fresh_app_def\<close>)
  have "fate roundtrip (\<lambda>_ t. case ad_compositor (tc_app t) of None \<Rightarrow> True | Some k \<Rightarrow>
      (case ad_shm (tc_app t) of None \<Rightarrow> True | Some _ \<Rightarrow>
        fate make_buffer (\<lambda>_ u. fate (after_buffer fuel) ?Q ?D (?submit u)) ?D (?surface k t))) ?D ?f"
  proof (rule fate_roundtrip)
    fix t
    assume "hears ?f t"
    then have "fate make_buffer (\<lambda>_ u. fate (after_buffer fuel) ?Q ?D (?submit u)) ?D (?surface k t)" for k
      by (intro fate_make_buffer) (rule rest)
    then show "case ad_compositor (tc_app t) of None \<Rightarrow> True | Some k \<Rightarrow>
      (case ad_shm (tc_app t) of None \<Rightarrow> True | Some _ \<Rightarrow>
        fate make_buffer (\<lambda>_ u. fate (after_buffer fuel) ?Q ?D (?submit u)) ?D (?surface k t))"
      by (simp split: option.split)
  qed
  then show ?thesis
    unfolding client_main_after on_app_def ask_for_def fate_simps
    by (cases "fd_connect (tc_feed c)") (simp_all del: fate_whenever cong: option.case_cong)
qed

text \<open>C27: A key press ends the client.  The program gives its shared memory back (\<open>munmap\<close>) before the
  interactive mode, whose redraw writes through the old slice.  So a run that comes to its end has
  submitted the first picture, received its frame, and heard of no key press at all, before or during
  the interactive mode: it never redraws.  A run that dies does so with a key pressed, of the access to
  the memory it gave back, and has submitted nothing but the first picture.\<close>

theorem client_dies_of_a_key:
  assumes "client_main fuel c = (r, t)"
  shows "(r = Ok () \<longrightarrow> ad_frame_received (tc_app t) \<and> ad_keys_pressed (tc_app t) = []
      \<and> commits t = Suc (commits c))
    \<and> (r = Panic \<longrightarrow> tc_death t = Some Unmapped \<and> ad_keys_pressed (tc_app t) \<noteq> []
      \<and> commits t = Suc (commits c))"
  using fate_client_main [of fuel c] assms
  by (cases r) (simp_all add: fate_def unmapped_def dies_drawing_def)

text \<open>A key pressed while the client waits for its frame.\<close>

definition pressed_feed :: feed where
  "pressed_feed = sample_feed\<lparr>fd_blocking := \<lambda>_. Some (Inr [KeyboardKey 0 0 30 (Inr Pressed), CallbackDone 5])\<rparr>"

definition pressed_client :: client where
  "pressed_client = (sample_client [])\<lparr>tc_feed := pressed_feed\<rparr>"

lemma run_make_buffer:
  assumes "fd_file (tc_feed s) = None" and "fd_mmap (tc_feed s)"
  shows "make_buffer s = (Ok (), with_buffer s)"
proof -
  let ?s = "s\<lparr>tc_pixels := replicate (win_width * win_height) 0, tc_mapped := True\<rparr>"
  have "(draw_gradient :: unit wl_client) ?s
      = (Ok (), ?s\<lparr>tc_pixels := map gradient_at [0..<win_width * win_height]\<rparr>)"
    by (rule run_draw_gradient) (simp add: window_def)
  with assms show ?thesis by (simp add: make_buffer_def ask_for_def with_buffer_def)
qed

lemma redraw_unmapped:
  assumes "\<not> tc_mapped s" and "length (tc_pixels s) = win_width * win_height"
  shows "(redraw :: unit wl_client) s = (Panic, s\<lparr>tc_death := Some Unmapped\<rparr>)"
  unfolding redraw_def using draw_unmapped [OF assms] by simp

lemma pressed_client_dies: "fst (client_main (Suc (Suc 0)) pressed_client) = Panic"
  by (simp add: client_main_def pressed_client_def pressed_feed_def sample_feed_def sample_client_def
      fresh_app_def on_app_def ask_for_def roundtrip_def hear_def on_global_def run_make_buffer
      with_buffer_def blocking_dispatch_def next_tick_def on_key_def push_key_def interactive_turn_def
      dispatch_pending_def redraw_unmapped run_andThen)

lemma client_dies_of_a_key_witness:
  "\<exists>t. client_main 2 pressed_client = (Panic, t) \<and> tc_death t = Some Unmapped
    \<and> ad_keys_pressed (tc_app t) \<noteq> [] \<and> commits t = 1"
proof -
  have "client_main 2 pressed_client = (Panic, snd (client_main 2 pressed_client))"
    using pressed_client_dies by (simp add: numeral_2_eq_2 prod_eq_iff)
  moreover from this have "commits (snd (client_main 2 pressed_client)) = Suc (commits pressed_client)"
    and "tc_death (snd (client_main 2 pressed_client)) = Some Unmapped"
    and "ad_keys_pressed (tc_app (snd (client_main 2 pressed_client))) \<noteq> []"
    using client_dies_of_a_key [of 2 pressed_client] by blast+
  moreover have "commits pressed_client = 0"
    by (simp add: commits_def pressed_client_def sample_client_def)
  ultimately show ?thesis by (intro exI [of _ "snd (client_main 2 pressed_client)"]) simp
qed

end
