(* ===== verification/CleanupOrder.thy ===== *)
theory CleanupOrder
  imports HostCleanup
begin

text \<open>
  The order of a whole cleanup of the host (\<open>cleanup_host_state\<close>): the commands it runs, the pauses
  between them and the purges it starts, linked to what the commands answered.  \<open>does e m Q\<close> says that
  on every machine with environment \<open>e\<close> the operation \<open>m\<close> comes back with a value and the events it
  adds to the trace, related by \<open>Q\<close>.
\<close>

section \<open>Values and events\<close>

definition does :: "environ \<Rightarrow> (sys, 'a, 'e) act \<Rightarrow> ('a \<Rightarrow> event list \<Rightarrow> bool) \<Rightarrow> bool" where
  "does e m Q \<longleftrightarrow> (\<forall>s. env s = e \<longrightarrow>
     (\<exists>a t es. m s = (Ok a, t) \<and> env t = e \<and> trace t = trace s @ es \<and> Q a es))"

lemma doesI:
  "(\<And>s. env s = e \<Longrightarrow> \<exists>a t es. m s = (Ok a, t) \<and> env t = e \<and> trace t = trace s @ es \<and> Q a es) \<Longrightarrow> does e m Q"
  by (simp add: does_def)










lemma does_spawn_thread: "does e (spawn_thread th) (\<lambda>_ es. es = [Started th])"
  by (rule doesI) (simp add: spawn_thread_def emit_def)

section \<open>Commands\<close>












section \<open>The first half of the cleanup\<close>








section \<open>Directories and trash\<close>















section \<open>The two halves\<close>














section \<open>The whole cleanup\<close>






end
