(* ===== verification/InputProbe.thy ===== *)
theory InputProbe
  imports CompositorMain
begin

text \<open>
  \<open>compositor-rs/src/bin/test-input.rs\<close>: the enumeration of the input devices.  What the program
  prints is a list of lines, each named by what it says; the paragraphs of advice that depend on
  nothing are one line each.  \<open>Device::open\<close> and the queries of a device belong to the crate \<open>evdev\<close>:
  each entry of \<open>/dev/input\<close> comes with their answers.
\<close>

record probed =
  pr_name :: "string option"
  pr_keys :: "nat list option"
  pr_relative :: "nat list option"
  pr_absolute :: "nat list option"

datatype probe_line =
    DirectoryOpened
  | DeviceOpened string
  | DeviceName string
  | KeyboardEvents
  | RelativeAxes
  | AbsoluteAxes
  | OpenFailed string string
  | ReadFailed string
  | FoundDevices nat
  | NoDevices
  | AllWorking

text \<open>\<open>supported.map_or(false, |k| k.iter().count() > 0)\<close>.\<close>

definition supports :: "nat list option \<Rightarrow> bool" where
  "supports codes = (case codes of None \<Rightarrow> False | Some ks \<Rightarrow> length ks > 0)"

definition line_if :: "bool \<Rightarrow> probe_line \<Rightarrow> probe_line list" where
  "line_if b l = (if b then [l] else [])"

definition device_lines :: "string \<Rightarrow> probed \<Rightarrow> probe_line list" where
  "device_lines path d =
     [DeviceOpened path, DeviceName (case pr_name d of None \<Rightarrow> ''unknown'' | Some n \<Rightarrow> n)]
     @ line_if (supports (pr_keys d)) KeyboardEvents
     @ line_if (supports (pr_relative d)) RelativeAxes
     @ line_if (supports (pr_absolute d)) AbsoluteAxes"

text \<open>The loop over the entries: the lines it prints and the devices it keeps.\<close>

fun probe_entries :: "(string \<times> (string + probed)) list \<Rightarrow> probe_line list \<times> (string \<times> probed) list" where
  "probe_entries [] = ([], [])"
| "probe_entries ((name, opened) # entries) =
     (case probe_entries entries of (lines, devices) \<Rightarrow>
      if is_event_name name then
        (let path = ''/dev/input/'' @ name in
         case opened of
           Inr d \<Rightarrow> (device_lines path d @ lines, (path, d) # devices)
         | Inl e \<Rightarrow> (OpenFailed path e # lines, devices))
      else (lines, devices))"

definition summary_lines :: "(string \<times> probed) list \<Rightarrow> probe_line list" where
  "summary_lines devices = [FoundDevices (length devices), if devices = [] then NoDevices else AllWorking]"

definition probe_main :: "string + (string \<times> (string + probed)) list \<Rightarrow> probe_line list" where
  "probe_main listing = (case listing of
       Inl e \<Rightarrow> [ReadFailed e]
     | Inr entries \<Rightarrow>
        (case probe_entries entries of (lines, devices) \<Rightarrow>
           DirectoryOpened # lines @ summary_lines devices))"

section \<open>It finds the devices the compositor opens\<close>

text \<open>The entries as the compositor sees them, when opening a device hands out the descriptor
  \<open>fd name\<close>.\<close>

definition as_opened ::
  "(string \<Rightarrow> nat) \<Rightarrow> (string \<times> (string + probed)) list \<Rightarrow> (string \<times> (string + nat)) list"
where
  "as_opened fd = map (\<lambda>(name, opened). (name, map_sum id (\<lambda>_. fd name) opened))"

lemma probe_devices:
  "map (fd \<circ> drop 11 \<circ> fst) (snd (probe_entries entries)) = input_devices (as_opened fd entries)"
proof (induction entries)
  case (Cons e entries)
  obtain name opened where e: "e = (name, opened)" by (cases e)
  obtain lines devices where p: "probe_entries entries = (lines, devices)"
    by (cases "probe_entries entries")
  show ?case
    using Cons.IH by (cases opened) (simp_all add: e p as_opened_def Let_def o_def)
qed (simp add: as_opened_def)

lemma probe_counts_compositor_devices:
  "\<exists>lines. probe_main (Inr entries) = DirectoryOpened # lines
     @ [FoundDevices (length (input_devices (as_opened fd entries))),
        if input_devices (as_opened fd entries) = [] then NoDevices else AllWorking]"
proof (cases "probe_entries entries")
  case (Pair lines devices)
  have "map (fd \<circ> drop 11 \<circ> fst) devices = input_devices (as_opened fd entries)"
    using probe_devices [of fd entries] Pair by simp
  then have "length (input_devices (as_opened fd entries)) = length devices"
    and "input_devices (as_opened fd entries) = [] \<longleftrightarrow> devices = []"
    by (metis length_map, metis map_is_Nil_conv)
  then show ?thesis by (simp add: probe_main_def Pair summary_lines_def)
qed

end
