(* ===== verification/Spec2Isabelle.thy ===== *)
theory Spec2Isabelle
  imports AdbWait Cli Lifecycle InstanceLocks ClientRun CleanupOrder InputProbe
begin

text \<open>
  \<^bold>\<open>A verification of fundroid.\<close>  The repository holds the Rust programs of an Android-like system.
  This development models three groups of them:

    \<^item> \<open>cuttlefish/cfctl\<close>: the command-line client \<open>cfctl\<close> and the daemon that creates, starts, watches,
      stops and destroys virtual Android devices.  They talk in one JSON line each way over a Unix
      socket.
    \<^item> \<open>compositor-rs\<close>: a Wayland compositor that shows the shared-memory buffer of a client on a DRM
      display, its test client, and the probe of the input devices.
    \<^item> \<open>rust/drm_rect\<close>: a program that fills the first connected display with a colour.

  \<^bold>\<open>How the code is modelled.\<close>  A function of the source is a HOL function from its state to an
  \<open>outcome\<close> (\<open>Ok\<close>, \<open>Err\<close>, \<open>Panic\<close>, \<open>Hang\<close>) and the state it leaves (\<open>Prelude\<close>); \<open>andThen\<close> is the
  operator \<open>?\<close> and sequencing, \<open>attempt\<close> and \<open>ignoring\<close> are the matches on a result.  \<open>Hang\<close> is a call
  that never returns.  What a program does not decide is answered by an environment in its state, call
  by call, and nothing is assumed of it except where a property says so: \<open>environ\<close> in \<open>World\<close> (file
  system errors, clocks, processes, external commands, the text form of JSON), \<open>kms\<close> in \<open>Drm\<close> (the
  display device), \<open>host\<close> in \<open>Compositor\<close> (\<open>mmap\<close>, \<open>dup\<close>, the clock), \<open>feed\<close> in \<open>TestClient\<close> (the events
  the Wayland library delivers).  Strings are lists of bytes, machine integers are words, or naturals
  with the width written out; the compositor's arithmetic panics or wraps on overflow, as the flag of
  the build profile says.

  \<^bold>\<open>Shared theories.\<close>  \<open>Prelude\<close>: outcomes, combinators and the locale \<open>effect\<close> (a relation of states
  that operations stay within), with its collections of facts.  \<open>Post\<close>: postconditions of programs,
  weakest-precondition style, and \<open>nonblocking\<close>.  \<open>RustStd\<close>, \<open>Json\<close>: what is used of the standard
  library and of serde.

  \<^bold>\<open>The messages\<close> (\<open>protocol.rs\<close>).  \<open>Protocol\<close> has every message type with its serialisation and
  deserialisation; \<open>ProtocolRoundTrip\<close> proves the two inverse for each type; \<open>Wire\<close> states the contract
  \<open>codec\<close> between an encoder and its decoder, interprets it for requests, responses and metadata, and
  carries it through the text form of JSON.

  \<^bold>\<open>The daemon\<close> (\<open>config.rs\<close>, \<open>util.rs\<close>, \<open>guest.rs\<close>, \<open>manager.rs\<close>, \<open>mod.rs\<close>, \<open>cfctl-daemon.rs\<close>).
    \<^item> \<open>World\<close>, \<open>WorldLaws\<close>: the state \<open>sys\<close> of the daemon and the calls of the standard library, with the
      frame of each call (what it may change).
    \<^item> \<open>Config\<close>, \<open>Util\<close>, \<open>Guest\<close>: configuration, tails of logs, and guest handles.  A handle is an
      address; its mutex, which the exit watcher holds while it waits, is a flag.  The locale \<open>polling\<close>
      states when a loop with a deadline ends; it is interpreted here and for the two loops in \<open>AdbWait\<close>.
    \<^item> \<open>Metadata\<close>, \<open>Instances\<close>, \<open>Store\<close>, \<open>Allocation\<close>: the persistent records.  \<open>stored cfg s i\<close> is the
      abstract view of the disk; the locale \<open>record_store\<close> is the contract of loading and saving that
      \<open>write_metadata\<close> and \<open>metadata\<close> implement, atomic replacement included.
    \<^item> \<open>HostCleanup\<close>, \<open>GuestStop\<close>, \<open>Launch\<close>, \<open>Adb\<close>, \<open>AdbWait\<close>: killing, cleaning up, launching, and polling
      a guest until it has booted.  \<open>CleanupOrder\<close>: what a whole cleanup of the host does, event by event.
    \<^item> \<open>Manager\<close>, \<open>Requests\<close>: one definition per handler of \<open>InstanceManager\<close>, and \<open>handle\<close>.
    \<^item> \<open>Typing\<close>: every response is within the ranges of its fields.  \<open>Lifecycle\<close>: what handlers promise
      for the life of an instance.
    \<^item> \<open>Daemon\<close>: one connection from the bytes received to the bytes sent, and \<open>dispatch\<close>.
      \<open>InstanceLocks\<close>: the locks that \<open>dispatch\<close> takes, as the steps of concurrent requests; its theorems
      hold for every interleaving of the steps.

  \<^bold>\<open>The client\<close> (\<open>cfctl.rs\<close>) is in \<open>Cli\<close>, whose theorems compose it with the daemon.

  \<^bold>\<open>The display programs.\<close>
    \<^item> \<open>Drm\<close>: the display device.  \<open>DrmRect\<close>: \<open>drm_rect/src/lib.rs\<close>.
    \<^item> \<open>Compositor\<close>: the state and the request handlers of \<open>compositor-rs/src/main.rs\<close> and \<open>render_buffer\<close>,
      with the locales \<open>render_effect\<close> and \<open>handler_effect\<close>, whose instances are invariants of every
      handler.  \<open>Blit\<close>: what rendering puts on the screen, against the reference \<open>picture\<close>.  \<open>Frames\<close>: the
      life of frame callbacks.  \<open>CompositorMain\<close>: acquiring the display, the event loop, key events.
    \<^item> \<open>TestClient\<close>: \<open>test-client.rs\<close>.  \<open>ClientPicture\<close>: what it draws, against the references
      \<open>gradient_at\<close> and \<open>block_at\<close>, and its composition with the compositor, from a key to the client and
      from the client's memory to the screen.  \<open>ClientRun\<close>: how a whole run of it can end.
    \<^item> \<open>InputProbe\<close>: \<open>test-input.rs\<close>, and that it finds the devices the compositor opens.

  \<^bold>\<open>What is proved.\<close>  Round trips of the messages; atomicity of the metadata, and their load by a later manager;
  soundness, completeness and order of the allocation of ids; that a request for one instance leaves
  the others alone and that pruning spares held and young instances; the typing of responses; the
  composition of client and daemon; mutual exclusion of requests with the interleaving that breaks it;
  termination of every polling loop, and the two situations in which one blocks for ever because the
  exit watcher holds a mutex; the schedule of the signals to a guest and the order of the host cleanup;
  the answer to a request whose handler panics, and the sweep of old trash at the start; rendering as a
  refinement of the picture, with its overflow and its loss of padded rows; frame callbacks answered at
  most once; the choice of the connector and the calls to the display; the end of the event loop; the
  picture of the test client, and that a key press ends it.

  \<^bold>\<open>Bounds and fuel.\<close>  A polling loop of the daemon runs on fuel, and out of fuel it is \<open>Hang\<close>.  The fuel
  is a number of the environment (\<open>e_fuel\<close>), not a figure of the code: the termination theorems ask that
  it covers the timeout (one round for each pause of the loop, and one more) and show that this is enough
  whatever the clock does.  The compositor's loop has \<open>loop_fuel\<close> = 6001, since a turn sleeps ten
  milliseconds and the loop runs for sixty seconds.  The loops of the test client take their fuel as an
  argument, because the first of them may wait for an event that never comes.

  \<^bold>\<open>Assumptions.\<close>  Properties of the daemon ask that the directories of the configuration are apart
  (\<open>apart\<close>) and that no other process changes the instance directories between two calls
  (\<open>undisturbed\<close>); properties that cross the wire ask that \<open>serde_json\<close> reads back what it printed.
  Each has a witness on a concrete machine.  An external command (\<open>adb\<close>, \<open>lsof\<close>, \<open>pgrep\<close> and the like)
  always comes back in the model, with a status or an error; the source blocks for as long as it runs.
  \<open>join\<close> hands the panic of a blocking task to its awaiter as an error, as \<open>tokio\<close> documents it.
  \<open>delivered\<close> stands for the Wayland connection between compositor and client.  \<open>dispatch_pending\<close> may
  deliver any events, which covers the library call that reads nothing from the socket.  A write through
  memory that was unmapped is the fault \<open>Unmapped\<close> (the process gets SIGSEGV).

  \<^bold>\<open>Not modelled.\<close>  The accept loop and the tokio runtime, except for the interleaving of the instance
  locks; \<open>clap\<close> (commands start as parsed values, with UTF-8 arguments); log messages of \<open>tracing\<close> and
  \<open>log\<close> and the console messages of the display programs; the protocol errors and object lifetimes of
  the Wayland library, and the pitch of a dumb buffer, which no program reads; the \<open>fcntl\<close> that makes an
  input device non-blocking, and its silent failure (reading a device never blocks in the model);
  non-ASCII white space in \<open>trim\<close>.  The C, Zig, shell, Nix and Python files of the repository are outside the development.
\<close>

end
